(* ===== verification/GoBase.thy ===== *)
theory GoBase
  imports Main "HOL-Library.AList" "HOL-Library.Sublist" "HOL-Library.Char_ord" "HOL-Library.List_Lexorder"
begin

text \<open>
  The prelude of the development: the parts of Go's language and standard library that the
  provider uses (packages strings, strconv and time, 64-bit integers), the type synonyms shared by
  every component, and the generic lemmas and \<^theory_text>\<open>named_theorems\<close> collections that the
  component theories draw on.

  A Go string is a sequence of bytes, which is what \<^typ>\<open>string\<close> is: a list of 8-bit
  characters. Lengths, slices and comparisons below are therefore bytewise, as in Go.
\<close>

named_theorems go_defs \<open>definitions of Go library functions, unfolded by evaluation\<close>
named_theorems effect_simps \<open>which fields of the state an operation leaves alone\<close>

type_synonym bytes = string
type_synonym time = int        \<comment> \<open>nanoseconds since the zero time, 1 January of year 1, UTC\<close>
type_synonym duration = int    \<comment> \<open>nanoseconds\<close>

section \<open>Errors\<close>

text \<open>A call whose error, the left of the sum, is returned to the caller.\<close>

definition and_then :: "'e + 'a \<Rightarrow> ('a \<Rightarrow> 'e + 'b) \<Rightarrow> 'e + 'b" where
  "and_then r k = (case r of Inl e \<Rightarrow> Inl e | Inr x \<Rightarrow> k x)"

lemma and_then_simps [simp]: "and_then (Inl e) k = Inl e" "and_then (Inr x) k = k x"
  by (simp_all add: and_then_def)

lemma and_then_Inr: "and_then r k = Inr c \<longleftrightarrow> (\<exists>x. r = Inr x \<and> k x = Inr c)"
  by (simp add: and_then_def split: sum.split)

section \<open>Strings\<close>

definition has_prefix :: "string \<Rightarrow> string \<Rightarrow> bool" where
  "has_prefix s p = prefix p s"

definition trim_prefix :: "string \<Rightarrow> string \<Rightarrow> string" where
  "trim_prefix s p = (if has_prefix s p then drop (length p) s else s)"

definition has_suffix :: "string \<Rightarrow> string \<Rightarrow> bool" where
  "has_suffix s p = suffix p s"

definition trim_suffix :: "string \<Rightarrow> string \<Rightarrow> string" where
  "trim_suffix s p = (if has_suffix s p then take (length s - length p) s else s)"

lemma has_prefix_code [code]: "has_prefix s p = (take (length p) s = p)"
  by (auto simp: has_prefix_def prefix_def) (metis append_take_drop_id)

lemma has_suffix_code [code]:
  "has_suffix s p = (length p \<le> length s \<and> drop (length s - length p) s = p)"
  by (auto simp: has_suffix_def suffix_def) (metis append_take_drop_id)

lemma trim_prefix_append [simp]: "trim_prefix (p @ s) p = s"
  by (simp add: trim_prefix_def has_prefix_def)

lemma trim_suffix_append [simp]: "trim_suffix (s @ p) p = s"
  by (auto simp: trim_suffix_def has_suffix_def suffix_def)

lemma has_suffix_append [simp]: "has_suffix (s @ p) p"
  by (auto simp: has_suffix_def suffix_def)

text \<open>\<open>strings.Split\<close> at one character, and \<open>strings.Cut\<close> at its first occurrence.\<close>

fun split_on :: "char \<Rightarrow> string \<Rightarrow> string list" where
  "split_on d [] = [[]]"
| "split_on d (c # s) =
     (if c = d then [] # split_on d s
      else (case split_on d s of [] \<Rightarrow> [[c]] | x # xs \<Rightarrow> (c # x) # xs))"

abbreviation split_slash :: "string \<Rightarrow> string list" where
  "split_slash \<equiv> split_on (CHR ''/'')"

definition str_cut :: "char \<Rightarrow> string \<Rightarrow> string \<times> string option" where
  "str_cut d s =
     (case dropWhile (\<lambda>c. c \<noteq> d) s of
        [] \<Rightarrow> (s, None)
      | _ # rest \<Rightarrow> (takeWhile (\<lambda>c. c \<noteq> d) s, Some rest))"

lemma split_on_nonempty [simp]: "split_on d s \<noteq> []"
  by (induction s) (auto split: list.splits)

lemma split_on_append: "split_on d (a @ d # b) = split_on d a @ split_on d b"
  by (induction a) (auto split: list.splits)

lemma split_on_single: "d \<notin> set s \<Longrightarrow> split_on d s = [s]"
  by (induction s) auto

lemma str_cut_found: "d \<notin> set a \<Longrightarrow> str_cut d (a @ d # b) = (a, Some b)"
proof -
  assume "d \<notin> set a"
  then have "\<forall>c \<in> set a. c \<noteq> d" by auto
  then show ?thesis by (simp add: str_cut_def dropWhile_append2 takeWhile_append2)
qed

lemma str_cut_missing: "d \<notin> set s \<Longrightarrow> str_cut d s = (s, None)"
proof -
  assume "d \<notin> set s"
  then have "dropWhile (\<lambda>c. c \<noteq> d) s = []" by (auto simp: dropWhile_eq_Nil_conv)
  then show ?thesis unfolding str_cut_def by (subst \<open>dropWhile _ s = []\<close>) simp
qed

text \<open>\<open>strings.Contains\<close> and \<open>bytes.Contains\<close>.\<close>

fun str_contains :: "string \<Rightarrow> string \<Rightarrow> bool" where
  "str_contains [] p = (p = [])"
| "str_contains (c # s) p = (prefix p (c # s) \<or> str_contains s p)"

lemma str_contains_iff: "str_contains s p \<longleftrightarrow> (\<exists>u v. s = u @ p @ v)"
proof (induction s)
  case Nil
  then show ?case by simp
next
  case (Cons c s)
  have "(\<exists>u v. c # s = u @ p @ v) \<longleftrightarrow> prefix p (c # s) \<or> (\<exists>u v. s = u @ p @ v)"
    by (auto simp: prefix_def Cons_eq_append_conv)
  with Cons show ?case by simp
qed

lemma str_containsI: "str_contains (u @ p @ v) p"
  by (auto simp: str_contains_iff)

text \<open>
  Letter case. Go folds whole Unicode code points; every use in the program compares with an
  ASCII constant, so only the code points that fold to an ASCII letter matter: besides the ASCII
  capitals these are U+0130 (lower case \<open>i\<close>), U+212A (the Kelvin sign, \<open>k\<close>) and, for
  \<open>EqualFold\<close> only, U+017F (the long s). All other non-ASCII bytes are left as they are: they
  never become ASCII, in Go or here.
\<close>

definition lower_char :: "char \<Rightarrow> char" where
  "lower_char c =
     (let n = of_char c :: nat in if 65 \<le> n \<and> n \<le> 90 then char_of (n + 32) else c)"

fun to_lower :: "string \<Rightarrow> string" where
  "to_lower [] = []"
| "to_lower (c # s) =
     (if c = CHR 0xC4 \<and> take 1 s = [CHR 0xB0] then CHR ''i'' # to_lower (drop 1 s)
      else if c = CHR 0xE2 \<and> take 2 s = [CHR 0x84, CHR 0xAA] then CHR ''k'' # to_lower (drop 2 s)
      else lower_char c # to_lower s)"

fun fold_case :: "string \<Rightarrow> string" where
  "fold_case [] = []"
| "fold_case (c # s) =
     (if c = CHR 0xC5 \<and> take 1 s = [CHR 0xBF] then CHR ''s'' # fold_case (drop 1 s)
      else if c = CHR 0xE2 \<and> take 2 s = [CHR 0x84, CHR 0xAA] then CHR ''k'' # fold_case (drop 2 s)
      else lower_char c # fold_case s)"

definition equal_fold :: "string \<Rightarrow> string \<Rightarrow> bool" where
  "equal_fold s t = (fold_case s = fold_case t)"

lemma fold_case_ascii:
  "list_all (\<lambda>c. (of_char c :: nat) < 128) s \<Longrightarrow> fold_case s = map lower_char s"
  by (induction s) auto

text \<open>\<open>strings.TrimSpace\<close>: the UTF-8 encodings of the white space code points.\<close>

definition space_seqs :: "string list" where
  "space_seqs =
     [[CHR 0x09], [CHR 0x0A], [CHR 0x0B], [CHR 0x0C], [CHR 0x0D], [CHR 0x20],
      [CHR 0xC2, CHR 0x85], [CHR 0xC2, CHR 0xA0], [CHR 0xE1, CHR 0x9A, CHR 0x80],
      [CHR 0xE2, CHR 0x80, CHR 0x80], [CHR 0xE2, CHR 0x80, CHR 0x81],
      [CHR 0xE2, CHR 0x80, CHR 0x82], [CHR 0xE2, CHR 0x80, CHR 0x83],
      [CHR 0xE2, CHR 0x80, CHR 0x84], [CHR 0xE2, CHR 0x80, CHR 0x85],
      [CHR 0xE2, CHR 0x80, CHR 0x86], [CHR 0xE2, CHR 0x80, CHR 0x87],
      [CHR 0xE2, CHR 0x80, CHR 0x88], [CHR 0xE2, CHR 0x80, CHR 0x89],
      [CHR 0xE2, CHR 0x80, CHR 0x8A], [CHR 0xE2, CHR 0x80, CHR 0xA8],
      [CHR 0xE2, CHR 0x80, CHR 0xA9], [CHR 0xE2, CHR 0x80, CHR 0xAF],
      [CHR 0xE2, CHR 0x81, CHR 0x9F], [CHR 0xE3, CHR 0x80, CHR 0x80]]"

function strip_seqs :: "string list \<Rightarrow> string \<Rightarrow> string" where
  "strip_seqs ps s =
     (case find (\<lambda>p. p \<noteq> [] \<and> take (length p) s = p) ps of
        None \<Rightarrow> s
      | Some p \<Rightarrow> strip_seqs ps (drop (length p) s))"
  by pat_completeness auto
termination
proof (relation "measure (\<lambda>(ps, s). length s)")
  fix ps :: "string list" and s p
  assume "find (\<lambda>p. p \<noteq> [] \<and> take (length p) s = p) ps = Some p"
  then have "p \<noteq> []" and "take (length p) s = p" by (auto simp: find_Some_iff)
  then show "((ps, drop (length p) s), ps, s) \<in> measure (\<lambda>(ps, s). length s)"
    by (cases s) auto
qed simp

declare strip_seqs.simps [simp del]

definition trim_space :: "string \<Rightarrow> string" where
  "trim_space s =
     rev (strip_seqs (map rev space_seqs) (rev (strip_seqs space_seqs s)))"

lemma strip_seqs_id:
  assumes "\<And>p. p \<in> set ps \<Longrightarrow> p \<noteq> [] \<Longrightarrow> hd p \<noteq> hd s"
  shows "strip_seqs ps s = s"
proof -
  have "take (length p) s \<noteq> p" if "p \<in> set ps" "p \<noteq> []" for p
    using assms [OF that] that(2) by (cases p; cases s) auto
  then have "find (\<lambda>p. p \<noteq> [] \<and> take (length p) s = p) ps = None"
    by (auto simp: find_None_iff)
  then show ?thesis by (simp add: strip_seqs.simps)
qed

lemma trim_space_id:
  assumes "s \<noteq> []" "hd s \<notin> set (map hd space_seqs)" "last s \<notin> set (map last space_seqs)"
  shows "trim_space s = s"
proof -
  have "strip_seqs space_seqs s = s"
    using assms(2) by (intro strip_seqs_id) (metis image_eqI set_map)
  moreover have "strip_seqs (map rev space_seqs) (rev s) = rev s"
    using assms(1,3) by (intro strip_seqs_id) (auto simp: hd_rev image_iff)
  ultimately show ?thesis by (simp add: trim_space_def)
qed

section \<open>Integers\<close>

text \<open>Go's \<open>int\<close> is 64 bits wide on the supported platforms; arithmetic wraps around.\<close>

definition wrap64 :: "int \<Rightarrow> int" where
  "wrap64 x = (x + 2 ^ 63) mod 2 ^ 64 - 2 ^ 63"

definition max_int64 :: int where "max_int64 = 2 ^ 63 - 1"
definition min_int64 :: int where "min_int64 = - (2 ^ 63)"

lemma wrap64_range: "min_int64 \<le> wrap64 x \<and> wrap64 x \<le> max_int64"
proof -
  have "0 \<le> (x + 2 ^ 63) mod 2 ^ 64" "(x + 2 ^ 63) mod 2 ^ 64 < (2 ^ 64 :: int)"
    by (simp_all del: power_numeral)
  then show ?thesis by (simp add: wrap64_def min_int64_def max_int64_def)
qed

lemma wrap64_id: "min_int64 \<le> x \<Longrightarrow> x \<le> max_int64 \<Longrightarrow> wrap64 x = x"
  by (simp add: wrap64_def min_int64_def max_int64_def)

lemma wrap64_mult: "wrap64 (wrap64 x * y) = wrap64 (x * y)"
proof -
  have w: "wrap64 x mod 2 ^ 64 = x mod 2 ^ 64" for x
    by (simp add: wrap64_def mod_diff_left_eq)
  have "wrap64 x * y mod 2 ^ 64 = x * y mod 2 ^ 64"
    using w [of x] by (metis mod_mult_cong)
  then show ?thesis
    unfolding wrap64_def [of "wrap64 x * y"] wrap64_def [of "x * y"] by (metis mod_add_cong)
qed

text \<open>\<open>strconv.Itoa\<close> and \<open>strconv.Atoi\<close>.\<close>

definition digit_char :: "nat \<Rightarrow> char" where
  "digit_char d = char_of (48 + d)"

definition is_digit :: "char \<Rightarrow> bool" where
  "is_digit c = (let n = of_char c :: nat in 48 \<le> n \<and> n \<le> 57)"

definition digit_val :: "char \<Rightarrow> nat" where
  "digit_val c = of_char c - 48"

fun nat_str :: "nat \<Rightarrow> string" where
  "nat_str n = (if n < 10 then [digit_char n] else nat_str (n div 10) @ [digit_char (n mod 10)])"

declare nat_str.simps [simp del]

definition digits_val :: "string \<Rightarrow> nat" where
  "digits_val ds = foldl (\<lambda>a c. 10 * a + digit_val c) 0 ds"

definition itoa :: "int \<Rightarrow> string" where
  "itoa i = (if i < 0 then CHR ''-'' # nat_str (nat (- i)) else nat_str (nat i))"

text \<open>
  \<open>atoi\<close> is \<^term>\<open>None\<close> where \<open>strconv.Atoi\<close> returns an error (no digits, another character,
  or a value outside 64 bits); every caller in the program discards the value in that case.
\<close>

definition atoi :: "string \<Rightarrow> int option" where
  "atoi s =
     (let neg = (take 1 s = ''-'');
          ds = (if neg \<or> take 1 s = ''+'' then drop 1 s else s);
          v = int (digits_val ds);
          r = (if neg then - v else v)
      in if ds = [] \<or> \<not> list_all is_digit ds then None
         else if r < min_int64 \<or> max_int64 < r then None
         else Some r)"

lemma of_char_digit [simp]: "d < 10 \<Longrightarrow> of_char (digit_char d) = (48 + d :: nat)"
  by (simp add: digit_char_def)

lemma is_digit_digit_char [simp]: "d < 10 \<Longrightarrow> is_digit (digit_char d)"
  by (simp add: is_digit_def)

lemma digit_val_digit_char [simp]: "d < 10 \<Longrightarrow> digit_val (digit_char d) = d"
  by (simp add: digit_val_def)

lemma digits_val_snoc: "digits_val (ds @ [c]) = 10 * digits_val ds + digit_val c"
  by (simp add: digits_val_def)

lemma nat_str_nonempty [simp]: "nat_str n \<noteq> []"
  by (subst nat_str.simps) simp

lemma nat_str_digits: "list_all is_digit (nat_str n)"
proof (induction n rule: nat_str.induct)
  case (1 n)
  then show ?case by (subst nat_str.simps) simp
qed

lemma digits_val_nat_str [simp]: "digits_val (nat_str n) = n"
proof (induction n rule: nat_str.induct)
  case (1 n)
  show ?case
  proof (cases "n < 10")
    case True
    then show ?thesis by (subst nat_str.simps) (simp add: digits_val_def)
  next
    case False
    with 1 have "digits_val (nat_str (n div 10)) = n div 10" by simp
    with False show ?thesis
      by (subst nat_str.simps) (simp add: digits_val_snoc)
  qed
qed

lemma nat_str_hd_digit: "is_digit (hd (nat_str n))"
  using nat_str_digits [of n] nat_str_nonempty [of n] by (cases "nat_str n") auto

lemma is_digit_not_sign [simp]: "\<not> is_digit CHR ''-''" "\<not> is_digit CHR ''+''"
  by (simp_all add: is_digit_def)

lemma take1_nat_str: "take 1 (nat_str n) \<noteq> ''-''" "take 1 (nat_str n) \<noteq> ''+''"
  using nat_str_hd_digit [of n] by (cases "nat_str n"; auto)+

lemma atoi_itoa_any:
  "atoi (itoa i) = (if min_int64 \<le> i \<and> i \<le> max_int64 then Some i else None)"
proof (cases "i < 0")
  case True
  then show ?thesis
    using nat_str_digits [of "nat (- i)"]
    by (auto simp: itoa_def atoi_def Let_def)
next
  case False
  then show ?thesis
    using nat_str_digits [of "nat i"] take1_nat_str [of "nat i"]
    by (auto simp: itoa_def atoi_def Let_def)
qed

theorem atoi_itoa:
  assumes "min_int64 \<le> i" and "i \<le> max_int64"
  shows "atoi (itoa i) = Some i"
  using assms by (simp add: atoi_itoa_any)

section \<open>Time\<close>

text \<open>\<open>Time.Sub\<close> saturates at the bounds of \<open>Duration\<close>; \<open>time.Since(t)\<close> is \<open>now.Sub(t)\<close>.\<close>

definition time_sub :: "time \<Rightarrow> time \<Rightarrow> duration" where
  "time_sub t u = max min_int64 (min max_int64 (t - u))"

definition second :: duration where "second = 1000000000"
definition minute :: duration where "minute = 60 * second"
definition hour :: duration where "hour = 60 * minute"

lemma time_sub_mono: "t \<le> t' \<Longrightarrow> time_sub t u \<le> time_sub t' u"
  by (auto simp: time_sub_def)

lemma time_sub_ge: "d \<le> time_sub t u \<Longrightarrow> min_int64 < d \<Longrightarrow> u + d \<le> t"
  by (auto simp: time_sub_def min_def max_def split: if_splits)

section \<open>Association lists as Go maps\<close>

text \<open>
  A Go map with string keys is an association list with distinct keys. Iteration order is
  unspecified in Go; a definition that iterates over one takes the order of the list, and what
  it computes must not depend on it.
\<close>

definition map_set :: "'k \<Rightarrow> 'v \<Rightarrow> ('k \<times> 'v) list \<Rightarrow> ('k \<times> 'v) list" where
  "map_set = AList.update"

definition map_unset :: "'k \<Rightarrow> ('k \<times> 'v) list \<Rightarrow> ('k \<times> 'v) list" where
  "map_unset k m = filter (\<lambda>(k', v). k' \<noteq> k) m"

lemma map_of_map_set [simp]: "map_of (map_set k v m) = (map_of m)(k \<mapsto> v)"
  by (simp add: map_set_def update_conv')

lemma map_of_map_unset [simp]: "map_of (map_unset k m) = (map_of m)(k := None)"
  by (induction m) (auto simp: map_unset_def fun_eq_iff)

lemma keys_map_set [simp]: "fst ` set (map_set k v m) = insert k (fst ` set m)"
  by (simp add: map_set_def dom_update)

lemma distinct_map_set [simp]:
  "distinct (map fst m) \<Longrightarrow> distinct (map fst (map_set k v m))"
  by (simp add: map_set_def distinct_update)

lemma distinct_map_unset [simp]:
  "distinct (map fst m) \<Longrightarrow> distinct (map fst (map_unset k m))"
  by (simp add: map_unset_def distinct_map_filter)

end
