(* ===== verification/GoTime.thy ===== *)
theory GoTime
  imports GoBase "HOL-Library.Monad_Syntax"
begin

text \<open>
  The RFC 3339 form in which Go's \<open>time.Time\<close> is stored as JSON: the calendar, the formatter of
  \<open>Time.MarshalJSON\<close> for a UTC time (an error outside the years 0 to 9999), the parser, and the
  proof that parsing a formatted time gives the time back to the nanosecond. Times are
  nanoseconds since the zero time, 1 January of year 1.
\<close>

section \<open>The calendar\<close>

definition is_leap :: "nat \<Rightarrow> bool" where
  "is_leap y = (4 dvd y \<and> \<not> 100 dvd y \<or> 400 dvd y)"

definition year_len :: "nat \<Rightarrow> nat" where
  "year_len y = (if is_leap y then 366 else 365)"

definition month_len :: "nat \<Rightarrow> nat \<Rightarrow> nat" where
  "month_len y m =
     (if m = 2 then (if is_leap y then 29 else 28)
      else if m \<in> {4, 6, 9, 11} then 30 else 31)"

fun days_before_year :: "nat \<Rightarrow> nat" where
  "days_before_year 0 = 0"
| "days_before_year (Suc y) = days_before_year y + year_len y"

fun days_before_month :: "nat \<Rightarrow> nat \<Rightarrow> nat" where
  "days_before_month y 0 = 0"
| "days_before_month y (Suc m) = (if m = 0 then 0 else days_before_month y m + month_len y m)"

function year_of :: "nat \<Rightarrow> nat \<Rightarrow> nat \<times> nat" where
  "year_of y d = (if d < year_len y then (y, d) else year_of (Suc y) (d - year_len y))"
  by pat_completeness auto
termination
  by (relation "measure (\<lambda>(y, d). d)") (auto simp: year_len_def split: if_splits)

function month_of :: "nat \<Rightarrow> nat \<Rightarrow> nat \<Rightarrow> nat \<times> nat" where
  "month_of y m d =
     (if m < 12 \<and> month_len y m \<le> d then month_of y (Suc m) (d - month_len y m) else (m, d))"
  by pat_completeness auto
termination
  by (relation "measure (\<lambda>(y, m, d). 12 - m)") auto

declare year_of.simps [simp del] month_of.simps [simp del]

lemma year_of_correct:
  "year_of y d = (y', r) \<Longrightarrow> days_before_year y + d = days_before_year y' + r \<and> r < year_len y'"
proof (induction y d rule: year_of.induct)
  case (1 y d)
  show ?case
  proof (cases "d < year_len y")
    case True
    with "1.prems" show ?thesis by (simp add: year_of.simps [of y d])
  next
    case False
    with 1 show ?thesis by (simp add: year_of.simps [of y d])
  qed
qed

lemma month_of_correct:
  "month_of y m d = (m', r) \<Longrightarrow> 1 \<le> m \<Longrightarrow> m \<le> 12 \<Longrightarrow> days_before_month y m + d < year_len y \<Longrightarrow>
   days_before_month y m + d = days_before_month y m' + r \<and> r < month_len y m' \<and> 1 \<le> m' \<and> m' \<le> 12"
proof (induction y m d rule: month_of.induct)
  case (1 y m d)
  show ?case
  proof (cases "m < 12 \<and> month_len y m \<le> d")
    case True
    with 1 show ?thesis by (simp add: month_of.simps [of y m d])
  next
    case False
    have "days_before_month y 12 = (if is_leap y then 335 else 334)"
      by (simp add: numeral_eq_Suc month_len_def)
    moreover have "m' = m" "r = d"
      using False "1.prems"(1) unfolding month_of.simps [of y m d] by (auto split: if_splits)
    moreover have "m < 12 \<or> m = 12" using "1.prems"(3) by linarith
    ultimately show ?thesis
      using False "1.prems" by (auto simp: year_len_def month_len_def split: if_splits)
  qed
qed

section \<open>Fixed-width digits\<close>

fun pad :: "nat \<Rightarrow> nat \<Rightarrow> string" where
  "pad 0 n = []"
| "pad (Suc w) n = pad w (n div 10) @ [digit_char (n mod 10)]"

lemma length_pad [simp]: "length (pad w n) = w"
  by (induction w arbitrary: n) auto

lemma pad_digits: "list_all is_digit (pad w n)"
  by (induction w arbitrary: n) auto

lemma digits_val_pad: "n < 10 ^ w \<Longrightarrow> digits_val (pad w n) = n"
proof (induction w arbitrary: n)
  case 0
  then show ?case by (simp add: digits_val_def)
next
  case (Suc w)
  then have "n div 10 < 10 ^ w" by (simp add: less_mult_imp_div_less mult.commute)
  with Suc.IH show ?case by (simp add: digits_val_snoc)
qed

text \<open>Exactly \<open>w\<close> digits with a value in a range, and the rest of the input.\<close>

definition digits_n :: "nat \<Rightarrow> nat \<Rightarrow> nat \<Rightarrow> string \<Rightarrow> (nat \<times> string) option" where
  "digits_n w lo hi s =
     (let v = digits_val (take w s) in
      if w \<le> length s \<and> list_all is_digit (take w s) \<and> lo \<le> v \<and> v \<le> hi then Some (v, drop w s)
      else None)"

definition expect :: "char \<Rightarrow> string \<Rightarrow> string option" where
  "expect c s = (case s of [] \<Rightarrow> None | x # t \<Rightarrow> if x = c then Some t else None)"

lemma digits_n_pad:
  "n < 10 ^ w \<Longrightarrow> lo \<le> n \<Longrightarrow> n \<le> hi \<Longrightarrow> digits_n w lo hi (pad w n @ r) = Some (n, r)"
  by (simp add: digits_n_def digits_val_pad pad_digits)

lemma expect_Cons [simp]: "expect c (c # t) = Some t"
  by (simp add: expect_def)

section \<open>Formatting and parsing\<close>

definition ns_per_day :: int where "ns_per_day = 86400000000000"

definition strip_zeros :: "string \<Rightarrow> string" where
  "strip_zeros s = rev (dropWhile (\<lambda>c. c = CHR ''0'') (rev s))"

definition fmt_frac :: "nat \<Rightarrow> string" where
  "fmt_frac ns = (if ns = 0 then [] else CHR ''.'' # strip_zeros (pad 9 ns))"

definition fmt_clock :: "nat \<Rightarrow> string" where
  "fmt_clock n =
     (let sec = n div 1000000000 in
      pad 2 (sec div 3600) @ '':'' @ pad 2 (sec div 60 mod 60) @ '':'' @ pad 2 (sec mod 60)
      @ fmt_frac (n mod 1000000000))"

definition fmt_time :: "time \<Rightarrow> string option" where
  "fmt_time t =
     (if t div ns_per_day + 366 < 0 then None
      else
        (let (y, r) = year_of 0 (nat (t div ns_per_day + 366));
             (m, d) = month_of y 1 r in
         if 9999 < y then None
         else Some (pad 4 y @ ''-'' @ pad 2 m @ ''-'' @ pad 2 (Suc d) @ ''T''
                    @ fmt_clock (nat (t mod ns_per_day)) @ ''Z'')))"

definition parse_frac_ns :: "string \<Rightarrow> nat \<times> string" where
  "parse_frac_ns s =
     (case s of
        [] \<Rightarrow> (0, s)
      | c # t \<Rightarrow>
          if c = CHR ''.'' then
            (let ds = takeWhile is_digit t; k = take 9 ds in
             (digits_val k * 10 ^ (9 - length k), drop (length ds) t))
          else (0, s))"

definition parse_zone :: "string \<Rightarrow> int option" where
  "parse_zone s =
     (if s = ''Z'' then Some 0
      else
        (case s of
           [] \<Rightarrow> None
         | c # t \<Rightarrow>
             if c = CHR ''+'' \<or> c = CHR ''-'' then do {
               (h, t) \<leftarrow> digits_n 2 0 23 t;
               t \<leftarrow> expect CHR '':'' t;
               (m, t) \<leftarrow> digits_n 2 0 59 t;
               (if t = [] then
                  Some ((if c = CHR ''-'' then - 1 else 1) * (int h * hour + int m * minute))
                else None)
             }
             else None))"

definition parse_clock :: "string \<Rightarrow> (nat \<times> string) option" where
  "parse_clock s = do {
     (h, s) \<leftarrow> digits_n 2 0 23 s;
     s \<leftarrow> expect CHR '':'' s;
     (mi, s) \<leftarrow> digits_n 2 0 59 s;
     s \<leftarrow> expect CHR '':'' s;
     (sec, s) \<leftarrow> digits_n 2 0 59 s;
     (case parse_frac_ns s of
        (ns, s) \<Rightarrow> Some ((h * 3600 + mi * 60 + sec) * 1000000000 + ns, s))
   }"

definition parse_time :: "string \<Rightarrow> time option" where
  "parse_time s = do {
     (y, s) \<leftarrow> digits_n 4 0 9999 s;
     s \<leftarrow> expect CHR ''-'' s;
     (m, s) \<leftarrow> digits_n 2 1 12 s;
     s \<leftarrow> expect CHR ''-'' s;
     (d, s) \<leftarrow> digits_n 2 1 (month_len y m) s;
     s \<leftarrow> expect CHR ''T'' s;
     (ns, s) \<leftarrow> parse_clock s;
     off \<leftarrow> parse_zone s;
     Some ((int (days_before_year y + days_before_month y m + (d - 1)) - 366) * ns_per_day
           + int ns - off)
   }"

section \<open>The round trip\<close>

lemma digits_val_zeros: "digits_val (s @ replicate k CHR ''0'') = digits_val s * 10 ^ k"
proof (induction k)
  case (Suc k)
  have "s @ replicate (Suc k) CHR ''0'' = (s @ replicate k CHR ''0'') @ [CHR ''0'']"
    by (simp add: replicate_append_same)
  then have "digits_val (s @ replicate (Suc k) CHR ''0'') = 10 * digits_val (s @ replicate k CHR ''0'')"
    by (simp only: digits_val_snoc) (simp add: digit_val_def)
  with Suc show ?case by simp
qed simp

lemma strip_zeros_split:
  "s = strip_zeros s @ replicate (length s - length (strip_zeros s)) CHR ''0''"
proof -
  define t where "t = takeWhile (\<lambda>c. c = CHR ''0'') (rev s)"
  define d where "d = dropWhile (\<lambda>c. c = CHR ''0'') (rev s)"
  have "rev s = t @ d" by (simp add: t_def d_def)
  then have s: "s = rev d @ rev t" by (metis rev_append rev_rev_ident)
  have "\<forall>c \<in> set t. c = CHR ''0''" unfolding t_def by (auto dest: set_takeWhileD)
  then have "t = replicate (length t) CHR ''0''" by (simp add: replicate_eqI)
  then have "rev t = replicate (length t) CHR ''0''" by (metis rev_replicate)
  then show ?thesis
    unfolding strip_zeros_def d_def [symmetric] by (simp add: s)
qed

lemma length_strip_zeros: "length (strip_zeros s) \<le> length s"
  unfolding strip_zeros_def by (metis length_dropWhile_le length_rev)

lemma strip_zeros_digits: "list_all is_digit s \<Longrightarrow> list_all is_digit (strip_zeros s)"
  using strip_zeros_split [of s] by (metis list_all_append)

lemma parse_fmt_frac:
  assumes "ns < 1000000000"
  shows "parse_frac_ns (fmt_frac ns @ ''Z'') = (ns, ''Z'')"
proof (cases "ns = 0")
  case True
  then show ?thesis by (simp add: fmt_frac_def parse_frac_ns_def)
next
  case False
  let ?q = "strip_zeros (pad 9 ns)"
  have len: "length ?q \<le> 9" using length_strip_zeros [of "pad 9 ns"] by simp
  have "digits_val ?q * 10 ^ (9 - length ?q) = digits_val (pad 9 ns)"
    using strip_zeros_split [of "pad 9 ns"] digits_val_zeros by (metis length_pad)
  also have "\<dots> = ns" using assms by (intro digits_val_pad) simp
  finally have val: "digits_val ?q * 10 ^ (9 - length ?q) = ns" .
  have "list_all is_digit ?q" using pad_digits by (rule strip_zeros_digits)
  then have "takeWhile is_digit (?q @ ''Z'') = ?q"
    by (simp add: takeWhile_append2 list_all_iff is_digit_def)
  with False len val show ?thesis
    by (simp add: fmt_frac_def parse_frac_ns_def Let_def)
qed

lemma digits_n_step:
  "n < 10 ^ w \<Longrightarrow> lo \<le> n \<Longrightarrow> n \<le> hi \<Longrightarrow>
   Option.bind (digits_n w lo hi (pad w n @ r)) f = f (n, r)"
  by (simp add: digits_n_pad)

lemma expect_step: "Option.bind (expect c ([c] @ r)) f = f r"
  by simp

lemma parse_fmt_clock:
  assumes "n < 86400000000000"
  shows "parse_clock (fmt_clock n @ ''Z'') = Some (n, ''Z'')"
proof -
  define sec where "sec = n div 1000000000"
  define ns where "ns = n mod 1000000000"
  define h where "h = sec div 3600"
  define mi where "mi = sec div 60 mod 60"
  define ss where "ss = sec mod 60"
  have n: "n = sec * 1000000000 + ns" by (simp add: sec_def ns_def)
  have ns: "ns < 1000000000" by (simp add: ns_def)
  have "sec < 86400" using assms n by linarith
  then have h: "h \<le> 23" and mi: "mi \<le> 59" and ss: "ss \<le> 59"
    unfolding h_def mi_def ss_def by (auto simp: less_Suc_eq_le [symmetric] less_mult_imp_div_less)
  have "h = sec div 60 div 60" unfolding h_def by (simp add: div_mult2_eq [symmetric])
  then have "sec div 60 = h * 60 + mi" unfolding mi_def by simp
  moreover have "sec = sec div 60 * 60 + ss" unfolding ss_def by simp
  ultimately have sum: "h * 3600 + mi * 60 + ss = sec" by linarith
  have "fmt_clock n @ ''Z'' = pad 2 h @ '':'' @ pad 2 mi @ '':'' @ pad 2 ss @ fmt_frac ns @ ''Z''"
    by (simp add: fmt_clock_def Let_def sec_def [symmetric] ns_def [symmetric] h_def mi_def ss_def)
  moreover have "h < 10 ^ 2" "mi < 10 ^ 2" "ss < 10 ^ 2" using h mi ss by simp_all
  ultimately show ?thesis
    unfolding parse_clock_def
    using h mi ss n by (simp only: digits_n_step expect_step prod.case zero_le parse_fmt_frac [OF ns] sum)
qed

theorem parse_fmt_time:
  assumes "fmt_time t = Some s"
  shows "parse_time s = Some t"
proof -
  let ?D = "nat (t div ns_per_day + 366)" and ?n = "nat (t mod ns_per_day)"
  obtain y r where y: "year_of 0 ?D = (y, r)" by force
  obtain m d where m: "month_of y 1 r = (m, d)" by force
  from assms y m have D: "0 \<le> t div ns_per_day + 366" and y9: "y \<le> 9999"
    and s: "s = pad 4 y @ ''-'' @ pad 2 m @ ''-'' @ pad 2 (Suc d) @ ''T'' @ fmt_clock ?n @ ''Z''"
    by (auto simp: fmt_time_def split: if_splits)
  have yr: "?D = days_before_year y + r" "r < year_len y"
    using year_of_correct [OF y] by simp_all
  have mo: "r = days_before_month y m + d" "d < month_len y m" "1 \<le> m" "m \<le> 12"
    using month_of_correct [OF m] yr(2) by simp_all
  have ml: "month_len y m \<le> 31" by (simp add: month_len_def)
  have n: "?n < 86400000000000" "int ?n = t mod ns_per_day"
    by (simp_all add: ns_per_day_def nat_less_iff del: power_numeral)
  have "int (days_before_year y + days_before_month y m + d) - 366 = t div ns_per_day"
    using yr(1) mo(1) D by linarith
  then have "(int (days_before_year y + days_before_month y m + d) - 366) * ns_per_day + int ?n = t"
    using n(2) by (simp add: div_mult_mod_eq)
  moreover have "y < 10 ^ 4" "m < 10 ^ 2" "Suc d < 10 ^ 2" "Suc d \<le> month_len y m" "1 \<le> Suc d"
    using y9 mo ml by simp_all
  moreover have "parse_zone ''Z'' = Some 0" by (simp add: parse_zone_def)
  ultimately show ?thesis
    unfolding s parse_time_def using y9 mo
    by (simp only: digits_n_step expect_step prod.case zero_le parse_fmt_clock [OF n(1)]
        append_assoc bind.bind_lunit diff_Suc_1 diff_zero)
qed

lemma digits_ascii: "list_all is_digit s \<Longrightarrow> list_all (\<lambda>c. (of_char c :: nat) < 128) s"
  by (induction s) (auto simp: is_digit_def Let_def)

lemma fmt_time_ascii: "fmt_time t = Some s \<Longrightarrow> list_all (\<lambda>c. (of_char c :: nat) < 128) s"
  using digits_ascii [OF pad_digits] digits_ascii [OF strip_zeros_digits [OF pad_digits]]
  by (auto simp: fmt_time_def fmt_clock_def fmt_frac_def Let_def split: prod.splits if_splits)

text \<open>For evaluation: a day in nanoseconds is an integer, not a tower of successors.\<close>

lemma fmt_clock_code [code]:
  "fmt_clock n =
     (let sec = nat (int n div 1000000000) in
      pad 2 (sec div 3600) @ '':'' @ pad 2 (sec div 60 mod 60) @ '':'' @ pad 2 (sec mod 60)
      @ fmt_frac (nat (int n mod 1000000000)))"
  by (simp add: fmt_clock_def Let_def nat_div_distrib nat_mod_distrib)

lemma parse_clock_code [code]:
  "parse_clock s = do {
     (h, s) \<leftarrow> digits_n 2 0 23 s;
     s \<leftarrow> expect CHR '':'' s;
     (mi, s) \<leftarrow> digits_n 2 0 59 s;
     s \<leftarrow> expect CHR '':'' s;
     (sec, s) \<leftarrow> digits_n 2 0 59 s;
     (case parse_frac_ns s of
        (ns, s) \<Rightarrow> Some (nat ((int h * 3600 + int mi * 60 + int sec) * 1000000000 + int ns), s))
   }"
proof -
  have "nat ((int h * 3600 + int mi * 60 + int sec) * 1000000000 + int ns) =
    (h * 3600 + mi * 60 + sec) * 1000000000 + ns" for h mi sec ns
    by (simp add: nat_add_distrib nat_mult_distrib)
  then show ?thesis by (simp add: parse_clock_def)
qed

end
