(* ===== verification/Json.thy ===== *)
theory Json
  imports GoBase
begin

text \<open>
  The parts of Go's \<open>encoding/json\<close> that the provider uses: the value tree that decoding to
  \<open>interface{}\<close> gives, the compact printer of \<open>json.Marshal\<close> (with its HTML-safe escapes), the
  parser of \<open>json.Unmarshal\<close>, the field lookup of struct decoding, and the round trip between
  printer and parser. Numbers keep their literal.
\<close>

section \<open>UTF-8\<close>

text \<open>The continuation bytes a lead byte asks for, each with its allowed range.\<close>

definition utf8_tail :: "nat \<Rightarrow> (nat \<times> nat) list option" where
  "utf8_tail b =
     (if b < 0x80 then Some []
      else if 0xC2 \<le> b \<and> b \<le> 0xDF then Some [(0x80, 0xBF)]
      else if b = 0xE0 then Some [(0xA0, 0xBF), (0x80, 0xBF)]
      else if b = 0xED then Some [(0x80, 0x9F), (0x80, 0xBF)]
      else if 0xE1 \<le> b \<and> b \<le> 0xEF then Some [(0x80, 0xBF), (0x80, 0xBF)]
      else if b = 0xF0 then Some [(0x90, 0xBF), (0x80, 0xBF), (0x80, 0xBF)]
      else if 0xF1 \<le> b \<and> b \<le> 0xF3 then Some [(0x80, 0xBF), (0x80, 0xBF), (0x80, 0xBF)]
      else if b = 0xF4 then Some [(0x80, 0x8F), (0x80, 0xBF), (0x80, 0xBF)]
      else None)"

fun in_ranges :: "(nat \<times> nat) list \<Rightarrow> string \<Rightarrow> bool" where
  "in_ranges [] s = True"
| "in_ranges ((lo, hi) # rs) [] = False"
| "in_ranges ((lo, hi) # rs) (c # s) = (lo \<le> of_char c \<and> of_char c \<le> hi \<and> in_ranges rs s)"

text \<open>The length of the code point a string starts with, 0 where it is not valid UTF-8.\<close>

definition utf8_len :: "char \<Rightarrow> string \<Rightarrow> nat" where
  "utf8_len c s =
     (case utf8_tail (of_char c) of
        None \<Rightarrow> 0
      | Some rs \<Rightarrow> if in_ranges rs s then Suc (length rs) else 0)"

fun valid_utf8 :: "string \<Rightarrow> bool" where
  "valid_utf8 [] = True"
| "valid_utf8 (c # s) = (let n = utf8_len c s in 0 < n \<and> valid_utf8 (drop (n - 1) s))"

lemma in_ranges_append: "in_ranges rs s \<Longrightarrow> in_ranges rs (s @ t)"
  by (induction rs s rule: in_ranges.induct) auto

lemma in_ranges_length: "in_ranges rs s \<Longrightarrow> length rs \<le> length s"
  by (induction rs s rule: in_ranges.induct) auto

lemma utf8_len_append: "0 < utf8_len c s \<Longrightarrow> utf8_len c (s @ t) = utf8_len c s"
  by (auto simp: utf8_len_def in_ranges_append split: option.splits if_splits)

lemma utf8_len_le: "utf8_len c s \<le> Suc (length s)"
  by (auto simp: utf8_len_def dest: in_ranges_length split: option.splits)

lemma utf8_len_ascii: "(of_char c :: nat) < 128 \<Longrightarrow> utf8_len c s = 1"
  by (simp add: utf8_len_def utf8_tail_def)

lemma valid_utf8_ascii: "list_all (\<lambda>c. (of_char c :: nat) < 128) s \<Longrightarrow> valid_utf8 s"
  by (induction s) (auto simp: utf8_len_ascii)

text \<open>The encoding of a code point.\<close>

definition utf8_encode :: "nat \<Rightarrow> string" where
  "utf8_encode u =
     (if u < 0x80 then [char_of u]
      else if u < 0x800 then [char_of (0xC0 + u div 64), char_of (0x80 + u mod 64)]
      else if u < 0x10000 then
        [char_of (0xE0 + u div 4096), char_of (0x80 + u div 64 mod 64), char_of (0x80 + u mod 64)]
      else
        [char_of (0xF0 + u div 262144), char_of (0x80 + u div 4096 mod 64),
         char_of (0x80 + u div 64 mod 64), char_of (0x80 + u mod 64)])"

definition replacement :: string where
  "replacement = [CHR 0xEF, CHR 0xBF, CHR 0xBD]"

section \<open>Values and the printer\<close>

datatype json =
    JNull
  | JBool bool
  | JNum string
  | JStr string
  | JArr "json list"
  | JObj "(string \<times> json) list"

definition hex_char :: "nat \<Rightarrow> char" where
  "hex_char d = (if d < 10 then char_of (48 + d) else char_of (87 + d))"

definition escape_ascii :: "char \<Rightarrow> string" where
  "escape_ascii c =
     (let b = of_char c :: nat in
      if c = CHR 0x22 \<or> c = CHR 0x5C then [CHR 0x5C, c]
      else if b = 8 then [CHR 0x5C, CHR ''b'']
      else if b = 12 then [CHR 0x5C, CHR ''f'']
      else if b = 10 then [CHR 0x5C, CHR ''n'']
      else if b = 13 then [CHR 0x5C, CHR ''r'']
      else if b = 9 then [CHR 0x5C, CHR ''t'']
      else if b < 32 \<or> c = CHR ''<'' \<or> c = CHR ''>'' \<or> c = CHR ''&'' then
        [CHR 0x5C, CHR ''u'', CHR ''0'', CHR ''0'', hex_char (b div 16), hex_char (b mod 16)]
      else [c])"

fun json_escape :: "string \<Rightarrow> string" where
  "json_escape [] = []"
| "json_escape (c # s) =
     (if (of_char c :: nat) < 128 then escape_ascii c @ json_escape s
      else if utf8_len c s = 0 then CHR 0x5C # ''ufffd'' @ json_escape s
      else if c = CHR 0xE2 \<and> take 2 s = [CHR 0x80, CHR 0xA8] then
        CHR 0x5C # ''u2028'' @ json_escape (drop 2 s)
      else if c = CHR 0xE2 \<and> take 2 s = [CHR 0x80, CHR 0xA9] then
        CHR 0x5C # ''u2029'' @ json_escape (drop 2 s)
      else c # take (utf8_len c s - 1) s @ json_escape (drop (utf8_len c s - 1) s))"

definition json_quote :: "string \<Rightarrow> string" where
  "json_quote s = CHR 0x22 # json_escape s @ [CHR 0x22]"

fun join :: "string \<Rightarrow> string list \<Rightarrow> string" where
  "join sep [] = []"
| "join sep [x] = x"
| "join sep (x # y # ys) = x @ sep @ join sep (y # ys)"

fun json_print :: "json \<Rightarrow> string" where
  "json_print JNull = ''null''"
| "json_print (JBool b) = (if b then ''true'' else ''false'')"
| "json_print (JNum l) = l"
| "json_print (JStr s) = json_quote s"
| "json_print (JArr vs) = ''['' @ join '','' (map json_print vs) @ '']''"
| "json_print (JObj ms) =
     ''{'' @ join '','' (map (\<lambda>(k, v). json_quote k @ '':'' @ json_print v) ms) @ ''}''"

section \<open>The parser\<close>

definition hex_val :: "char \<Rightarrow> nat option" where
  "hex_val c =
     (let b = of_char c :: nat in
      if 48 \<le> b \<and> b \<le> 57 then Some (b - 48)
      else if 97 \<le> b \<and> b \<le> 102 then Some (b - 87)
      else if 65 \<le> b \<and> b \<le> 70 then Some (b - 55)
      else None)"

fun hex4 :: "string \<Rightarrow> nat option" where
  "hex4 (a # b # c # d # s) =
     (case (hex_val a, hex_val b, hex_val c, hex_val d) of
        (Some a, Some b, Some c, Some d) \<Rightarrow> Some (4096 * a + 256 * b + 16 * c + d)
      | _ \<Rightarrow> None)"
| "hex4 _ = None"

definition unescape :: "char \<Rightarrow> char option" where
  "unescape e =
     (if e = CHR 0x22 \<or> e = CHR 0x5C \<or> e = CHR ''/'' then Some e
      else if e = CHR ''b'' then Some (CHR 0x08)
      else if e = CHR ''f'' then Some (CHR 0x0C)
      else if e = CHR ''n'' then Some (CHR 0x0A)
      else if e = CHR ''r'' then Some (CHR 0x0D)
      else if e = CHR ''t'' then Some (CHR 0x09)
      else None)"

text \<open>A surrogate pair that follows an escape, combined into its code point.\<close>

definition low_surrogate :: "nat \<Rightarrow> string \<Rightarrow> nat option" where
  "low_surrogate u s =
     (if take 2 s = [CHR 0x5C, CHR ''u''] then
        (case hex4 (drop 2 s) of
           Some v \<Rightarrow> if 0xD800 \<le> u \<and> u < 0xDC00 \<and> 0xDC00 \<le> v \<and> v < 0xE000
                     then Some (0x10000 + (u - 0xD800) * 1024 + (v - 0xDC00)) else None
         | None \<Rightarrow> None)
      else None)"

definition emit :: "string \<Rightarrow> (string \<times> string) option \<Rightarrow> (string \<times> string) option" where
  "emit p r = map_option (\<lambda>(x, t). (p @ x, t)) r"

lemma emit_simps [simp]:
  "emit p None = None" "emit p (Some (x, t)) = Some (p @ x, t)"
  by (simp_all add: emit_def)

text \<open>The rest of a string after its opening quote: its contents and what follows it.\<close>

fun parse_str :: "string \<Rightarrow> (string \<times> string) option" where
  "parse_str [] = None"
| "parse_str (c # s) =
     (if c = CHR 0x22 then Some ([], s)
      else if c = CHR 0x5C then
        (case s of
           [] \<Rightarrow> None
         | e # s' \<Rightarrow>
             if e = CHR ''u'' then
               (case hex4 s' of
                  None \<Rightarrow> None
                | Some u \<Rightarrow>
                    if 0xD800 \<le> u \<and> u < 0xE000 then
                      (case low_surrogate u (drop 4 s') of
                         Some w \<Rightarrow> emit (utf8_encode w) (parse_str (drop 10 s'))
                       | None \<Rightarrow> emit replacement (parse_str (drop 4 s')))
                    else emit (utf8_encode u) (parse_str (drop 4 s')))
             else
               (case unescape e of
                  None \<Rightarrow> None
                | Some x \<Rightarrow> emit [x] (parse_str s')))
      else if (of_char c :: nat) < 32 then None
      else if utf8_len c s = 0 then emit replacement (parse_str s)
      else emit (c # take (utf8_len c s - 1) s) (parse_str (drop (utf8_len c s - 1) s)))"

declare parse_str.simps [simp del]

definition is_ws :: "char \<Rightarrow> bool" where
  "is_ws c = (c = CHR 0x20 \<or> c = CHR 0x09 \<or> c = CHR 0x0A \<or> c = CHR 0x0D)"

definition skip_ws :: "string \<Rightarrow> string" where
  "skip_ws = dropWhile is_ws"

definition starts :: "char \<Rightarrow> string \<Rightarrow> bool" where
  "starts c s = (case s of [] \<Rightarrow> False | x # _ \<Rightarrow> x = c)"

definition digits_of :: "string \<Rightarrow> (string \<times> string) option" where
  "digits_of s =
     (let ds = takeWhile is_digit s in if ds = [] then None else Some (ds, drop (length ds) s))"

definition parse_int :: "string \<Rightarrow> (string \<times> string) option" where
  "parse_int s = (if starts CHR ''0'' s then Some (''0'', drop 1 s) else digits_of s)"

definition parse_frac :: "string \<Rightarrow> (string \<times> string) option" where
  "parse_frac s =
     (if starts CHR ''.'' s then emit ''.'' (digits_of (drop 1 s)) else Some ([], s))"

definition parse_signed :: "string \<Rightarrow> (string \<times> string) option" where
  "parse_signed s =
     (if starts CHR ''+'' s \<or> starts CHR ''-'' s then emit (take 1 s) (digits_of (drop 1 s))
      else digits_of s)"

definition parse_exp :: "string \<Rightarrow> (string \<times> string) option" where
  "parse_exp s =
     (if starts CHR ''e'' s \<or> starts CHR ''E'' s then emit (take 1 s) (parse_signed (drop 1 s))
      else Some ([], s))"

definition parse_unsigned :: "string \<Rightarrow> (string \<times> string) option" where
  "parse_unsigned s =
     (case parse_int s of
        None \<Rightarrow> None
      | Some (i, t) \<Rightarrow>
          emit i (case parse_frac t of
                    None \<Rightarrow> None
                  | Some (f, u) \<Rightarrow> emit f (parse_exp u)))"

definition parse_num :: "string \<Rightarrow> (string \<times> string) option" where
  "parse_num s =
     (if starts CHR ''-'' s then emit ''-'' (parse_unsigned (drop 1 s)) else parse_unsigned s)"

fun parse_val :: "nat \<Rightarrow> string \<Rightarrow> (json \<times> string) option"
  and parse_elems :: "nat \<Rightarrow> string \<Rightarrow> (json list \<times> string) option"
  and parse_members :: "nat \<Rightarrow> string \<Rightarrow> ((string \<times> json) list \<times> string) option"
where
  "parse_val 0 s = None"
| "parse_val (Suc n) s =
     (case skip_ws s of
        [] \<Rightarrow> None
      | c # r \<Rightarrow>
          if c = CHR 0x22 then map_option (\<lambda>(x, t). (JStr x, t)) (parse_str r)
          else if c = CHR ''{'' then
            (if take 1 (skip_ws r) = ''}'' then Some (JObj [], drop 1 (skip_ws r))
             else map_option (\<lambda>(ms, t). (JObj ms, t)) (parse_members n r))
          else if c = CHR ''['' then
            (if take 1 (skip_ws r) = '']'' then Some (JArr [], drop 1 (skip_ws r))
             else map_option (\<lambda>(vs, t). (JArr vs, t)) (parse_elems n r))
          else if take 4 (c # r) = ''null'' then Some (JNull, drop 4 (c # r))
          else if take 4 (c # r) = ''true'' then Some (JBool True, drop 4 (c # r))
          else if take 5 (c # r) = ''false'' then Some (JBool False, drop 5 (c # r))
          else map_option (\<lambda>(x, t). (JNum x, t)) (parse_num (c # r)))"
| "parse_elems 0 s = None"
| "parse_elems (Suc n) s =
     (case parse_val n s of
        None \<Rightarrow> None
      | Some (v, t) \<Rightarrow>
          (case skip_ws t of
             [] \<Rightarrow> None
           | c # t' \<Rightarrow>
               if c = CHR '','' then map_option (\<lambda>(vs, u). (v # vs, u)) (parse_elems n t')
               else if c = CHR '']'' then Some ([v], t')
               else None))"
| "parse_members 0 s = None"
| "parse_members (Suc n) s =
     (case skip_ws s of
        [] \<Rightarrow> None
      | c # r \<Rightarrow>
          if c \<noteq> CHR 0x22 then None
          else
            (case parse_str r of
               None \<Rightarrow> None
             | Some (k, t) \<Rightarrow>
                 if take 1 (skip_ws t) \<noteq> '':'' then None
                 else
                   (case parse_val n (drop 1 (skip_ws t)) of
                      None \<Rightarrow> None
                    | Some (v, u) \<Rightarrow>
                        (case skip_ws u of
                           [] \<Rightarrow> None
                         | c # u' \<Rightarrow>
                             if c = CHR '','' then
                               map_option (\<lambda>(ms, w). ((k, v) # ms, w)) (parse_members n u')
                             else if c = CHR ''}'' then Some ([(k, v)], u')
                             else None))))"

fun json_depth :: "json \<Rightarrow> nat" where
  "json_depth (JArr vs) = Suc (fold max (map json_depth vs) 0)"
| "json_depth (JObj ms) = Suc (fold max (map (\<lambda>(k, v). json_depth v) ms) 0)"
| "json_depth _ = 0"

text \<open>
  The whole input is one value, and nesting deeper than 10000 is an error. Every recursive call
  of the parser consumes input, so twice its length is fuel enough (\<open>parse_fuel\<close> below).
\<close>

definition json_parse :: "string \<Rightarrow> json option" where
  "json_parse s =
     (case parse_val (2 * length s + 1) s of
        None \<Rightarrow> None
      | Some (v, t) \<Rightarrow> if skip_ws t = [] \<and> json_depth v \<le> 10000 then Some v else None)"

section \<open>Printing then parsing\<close>

definition num_ok :: "string \<Rightarrow> bool" where
  "num_ok l = (parse_num l = Some (l, []))"

fun json_ok :: "json \<Rightarrow> bool" where
  "json_ok (JNum l) = num_ok l"
| "json_ok (JStr s) = valid_utf8 s"
| "json_ok (JArr vs) = list_all json_ok vs"
| "json_ok (JObj ms) = list_all (\<lambda>(k, v). valid_utf8 k \<and> json_ok v) ms"
| "json_ok _ = True"

lemma parse_str_quote [simp]: "parse_str (CHR 0x22 # s) = Some ([], s)"
  by (simp add: parse_str.simps)

lemma hex_val_hex_char [simp]: "d < 16 \<Longrightarrow> hex_val (hex_char d) = Some d"
  by (auto simp: hex_val_def hex_char_def Let_def)

lemma hex_val_0 [simp]: "hex_val (CHR ''0'') = Some 0"
  by (simp add: hex_val_def)

lemma of_char_control:
  "(of_char c :: nat) = 8 \<Longrightarrow> c = CHR 0x08"
  "(of_char c :: nat) = 9 \<Longrightarrow> c = CHR 0x09"
  "(of_char c :: nat) = 10 \<Longrightarrow> c = CHR 0x0A"
  "(of_char c :: nat) = 12 \<Longrightarrow> c = CHR 0x0C"
  "(of_char c :: nat) = 13 \<Longrightarrow> c = CHR 0x0D"
  using of_char_eq_iff [of c "CHR 0x08", where ?'a = nat] of_char_eq_iff [of c "CHR 0x09", where ?'a = nat]
    of_char_eq_iff [of c "CHR 0x0A", where ?'a = nat] of_char_eq_iff [of c "CHR 0x0C", where ?'a = nat]
    of_char_eq_iff [of c "CHR 0x0D", where ?'a = nat] by simp_all

lemma parse_str_ascii:
  assumes "(of_char c :: nat) < 128"
  shows "parse_str (escape_ascii c @ t) = emit [c] (parse_str t)"
proof -
  have hex: "hex4 (CHR ''0'' # CHR ''0'' # hex_char (of_char c div 16) # hex_char (of_char c mod 16) # t)
      = Some (of_char c)"
    using assms by simp
  have enc: "utf8_encode (of_char c) = [c]"
    using assms by (simp add: utf8_encode_def)
  show ?thesis
    using assms hex enc
    by (auto simp: escape_ascii_def Let_def parse_str.simps unescape_def utf8_len_ascii
        dest: of_char_control split: option.splits)
qed

lemma in_ranges_take: "in_ranges rs s \<Longrightarrow> in_ranges rs (take (length rs) s @ t)"
  by (induction rs s rule: in_ranges.induct) auto

lemma utf8_len_take:
  "utf8_len c s = Suc m \<Longrightarrow> utf8_len c (take m s @ t) = Suc m"
  by (auto simp: utf8_len_def in_ranges_take split: option.splits if_splits)

lemma utf8_len_E2: "utf8_len (CHR 0xE2) s = 0 \<or> utf8_len (CHR 0xE2) s = 3"
  by (simp add: utf8_len_def utf8_tail_def)

lemma char_of_separator:
  "char_of (226 :: nat) = CHR 0xE2" "char_of (128 :: nat) = CHR 0x80"
  "char_of (168 :: nat) = CHR 0xA8" "char_of (169 :: nat) = CHR 0xA9"
  by (simp_all add: char_of_def bit_Suc_0_iff)

lemma parse_str_separator:
  "parse_str (CHR 0x5C # ''u2028'' @ t) = emit [CHR 0xE2, CHR 0x80, CHR 0xA8] (parse_str t)"
  "parse_str (CHR 0x5C # ''u2029'' @ t) = emit [CHR 0xE2, CHR 0x80, CHR 0xA9] (parse_str t)"
  by (simp_all add: parse_str.simps hex_val_def utf8_encode_def char_of_separator)

lemma parse_str_multibyte:
  assumes "128 \<le> (of_char c :: nat)" "utf8_len c s = Suc m"
  shows "parse_str (c # take m s @ t) = emit (c # take m s) (parse_str t)"
proof -
  have len: "length (take m s) = m"
    using utf8_len_le [of c s] assms(2) by simp
  have "c \<noteq> CHR 0x22" "c \<noteq> CHR 0x5C" using assms(1) by auto
  then have "parse_str (c # take m s @ t)
      = emit (c # take m (take m s @ t)) (parse_str (drop m (take m s @ t)))"
    using assms by (subst parse_str.simps) (simp add: utf8_len_take)
  also have "\<dots> = emit (c # take m s) (parse_str t)"
    by (metis append_eq_conv_conj len)
  finally show ?thesis .
qed

lemma take2_split: "take 2 s = [a, b] \<Longrightarrow> s = a # b # drop 2 s"
  by (metis append_Cons append_Nil append_take_drop_id)

lemma parse_str_escape:
  "valid_utf8 s \<Longrightarrow> parse_str (json_escape s @ CHR 0x22 # t) = Some (s, t)"
proof (induction s rule: json_escape.induct)
  case 1
  then show ?case by simp
next
  case (2 c s)
  let ?n = "utf8_len c s"
  from "2.prems" have n: "0 < ?n" and v: "valid_utf8 (drop (?n - 1) s)"
    by (simp_all add: Let_def)
  consider (ascii) "(of_char c :: nat) < 128"
    | (sep) b where "\<not> (of_char c :: nat) < 128" "c = CHR 0xE2" "take 2 s = [CHR 0x80, b]"
        "b = CHR 0xA8 \<or> b = CHR 0xA9"
    | (other) "\<not> (of_char c :: nat) < 128"
        "\<not> (c = CHR 0xE2 \<and> take 2 s = [CHR 0x80, CHR 0xA8])"
        "\<not> (c = CHR 0xE2 \<and> take 2 s = [CHR 0x80, CHR 0xA9])"
    by blast
  then show ?case
  proof cases
    case ascii
    with v have "valid_utf8 s" by (simp add: utf8_len_ascii)
    with 2 ascii show ?thesis by (simp add: parse_str_ascii)
  next
    case sep
    then have "?n = 3" using n utf8_len_E2 [of s] by simp
    with v have "valid_utf8 (drop 2 s)" by simp
    then have "parse_str (json_escape (drop 2 s) @ CHR 0x22 # t) = Some (drop 2 s, t)"
      using 2 sep n by auto
    with sep n parse_str_separator [of "json_escape (drop 2 s) @ CHR 0x22 # t"]
    have "parse_str (json_escape (c # s) @ CHR 0x22 # t) = Some (c # CHR 0x80 # b # drop 2 s, t)"
      by auto
    with take2_split [OF sep(3)] show ?thesis by simp
  next
    case other
    then have "parse_str (json_escape (drop (?n - 1) s) @ CHR 0x22 # t) = Some (drop (?n - 1) s, t)"
      using 2 n v by simp
    with other n show ?thesis
      by (cases ?n) (auto simp: parse_str_multibyte)
  qed
qed

lemma parse_str_print: "valid_utf8 s \<Longrightarrow> parse_str (json_escape s @ CHR 0x22 # t) = Some (s, t)"
  by (rule parse_str_escape)

text \<open>What follows a number must not extend it.\<close>

definition delim :: "string \<Rightarrow> bool" where
  "delim r = (case r of [] \<Rightarrow> True | c # _ \<Rightarrow> c \<in> {CHR '','', CHR '']'', CHR ''}''} \<or> is_ws c)"

lemma delim_Cons [simp]:
  "delim []" "delim (CHR '','' # r)" "delim (CHR '']'' # r)" "delim (CHR ''}'' # r)"
  by (simp_all add: delim_def)

lemma delim_not_num:
  "delim (c # r) \<Longrightarrow> \<not> is_digit c \<and> c \<notin> {CHR ''.'', CHR ''e'', CHR ''E'', CHR ''+'', CHR ''-''}"
  by (auto simp: delim_def is_ws_def is_digit_def)

lemma starts_simps [simp]: "starts c [] = False" "starts c (x # s) = (x = c)"
  by (simp_all add: starts_def)

lemma starts_append: "s \<noteq> [] \<Longrightarrow> starts c (s @ r) = starts c s"
  by (cases s) simp_all

lemma starts_delim:
  "delim r \<Longrightarrow> c \<in> {CHR ''.'', CHR ''e'', CHR ''E'', CHR ''+'', CHR ''-'', CHR ''0''} \<Longrightarrow> \<not> starts c r"
  by (cases r) (auto simp: delim_def is_ws_def)

lemma starts_Cons_drop: "starts c s \<Longrightarrow> s = c # drop 1 s"
  by (cases s) auto

lemma emit_Some: "emit p r = Some (x, t) \<longleftrightarrow> (\<exists>y. x = p @ y \<and> r = Some (y, t))"
  by (auto simp: emit_def)

lemma takeWhile_digit_delim:
  "delim r \<Longrightarrow> takeWhile is_digit (s @ r) = takeWhile is_digit s"
proof (induction s)
  case Nil
  then show ?case by (cases r) (auto dest: delim_not_num)
qed simp

lemma digits_of_delim:
  "delim r \<Longrightarrow> digits_of s = Some (x, t) \<Longrightarrow> digits_of (s @ r) = Some (x, t @ r)"
  by (auto simp: digits_of_def Let_def takeWhile_digit_delim length_takeWhile_le split: if_splits)

lemma digits_of_nonempty: "digits_of s = Some (x, t) \<Longrightarrow> s \<noteq> []"
  by (auto simp: digits_of_def)

lemma parse_int_delim:
  "delim r \<Longrightarrow> parse_int s = Some (x, t) \<Longrightarrow> parse_int (s @ r) = Some (x, t @ r)"
  using digits_of_delim [of r s x t] digits_of_nonempty [of s x t]
  by (cases s) (auto simp: parse_int_def split: if_splits)

lemma parse_frac_delim:
  "delim r \<Longrightarrow> parse_frac s = Some (x, t) \<Longrightarrow> parse_frac (s @ r) = Some (x, t @ r)"
  using starts_delim [of r "CHR ''.''"]
  by (cases s) (auto simp: parse_frac_def emit_Some digits_of_delim split: if_splits)

lemma parse_signed_delim:
  "delim r \<Longrightarrow> parse_signed s = Some (x, t) \<Longrightarrow> parse_signed (s @ r) = Some (x, t @ r)"
  using digits_of_delim [of r s x t] digits_of_nonempty [of s x t]
  by (cases s) (auto simp: parse_signed_def emit_Some digits_of_delim split: if_splits)

lemma parse_exp_delim:
  "delim r \<Longrightarrow> parse_exp s = Some (x, t) \<Longrightarrow> parse_exp (s @ r) = Some (x, t @ r)"
  using starts_delim [of r "CHR ''e''"] starts_delim [of r "CHR ''E''"]
  by (cases s) (auto simp: parse_exp_def emit_Some parse_signed_delim split: if_splits)

lemma parse_unsigned_delim:
  "delim r \<Longrightarrow> parse_unsigned s = Some (x, t) \<Longrightarrow> parse_unsigned (s @ r) = Some (x, t @ r)"
  by (fastforce simp: parse_unsigned_def emit_Some parse_int_delim parse_frac_delim parse_exp_delim
      split: option.splits prod.splits)

lemma parse_unsigned_nonempty: "parse_unsigned s = Some (x, t) \<Longrightarrow> s \<noteq> []"
  by (auto simp: parse_unsigned_def parse_int_def digits_of_def)

lemma parse_num_delim:
  "delim r \<Longrightarrow> parse_num s = Some (x, t) \<Longrightarrow> parse_num (s @ r) = Some (x, t @ r)"
  using parse_unsigned_delim [of r s x t] parse_unsigned_nonempty [of s x t]
  by (cases s) (auto simp: parse_num_def emit_Some parse_unsigned_delim split: if_splits)

lemma num_ok_hd:
  assumes "num_ok l"
  shows "\<exists>c l'. l = c # l' \<and> (is_digit c \<or> c = CHR ''-'')"
proof (cases l)
  case Nil
  with assms show ?thesis by (simp add: num_ok_def parse_num_def parse_unsigned_def parse_int_def digits_of_def)
next
  case (Cons c l')
  with assms show ?thesis
    by (auto simp: num_ok_def parse_num_def parse_unsigned_def parse_int_def digits_of_def is_digit_def
        split: if_splits option.splits)
qed

lemma nat_str_zero: "starts CHR ''0'' (nat_str n) \<Longrightarrow> nat_str n = ''0''"
proof (induction n rule: nat_str.induct)
  case (1 n)
  show ?case
  proof (cases "n < 10")
    case True
    then have "nat_str n = [digit_char n]" by (subst nat_str.simps) simp
    with "1.prems" show ?thesis by simp
  next
    case False
    then have eq: "nat_str n = nat_str (n div 10) @ [digit_char (n mod 10)]"
      by (subst nat_str.simps) simp
    with "1.prems" have "starts CHR ''0'' (nat_str (n div 10))"
      by (simp add: starts_append)
    with 1 False have "nat_str (n div 10) = ''0''" by simp
    then have "digits_val (nat_str (n div 10)) = 0" by (simp add: digits_val_def digit_val_def)
    then have "n div 10 = 0" by simp
    with False show ?thesis by simp
  qed
qed

lemma parse_unsigned_nat_str: "parse_unsigned (nat_str n) = Some (nat_str n, [])"
proof -
  have tw: "takeWhile is_digit (nat_str n) = nat_str n"
    using nat_str_digits [of n] by (simp add: takeWhile_eq_all_conv list_all_iff)
  have "parse_int (nat_str n) = Some (nat_str n, [])"
  proof (cases "starts CHR ''0'' (nat_str n)")
    case True
    with nat_str_zero [OF True] show ?thesis by (simp add: parse_int_def)
  next
    case False
    with tw show ?thesis unfolding parse_int_def digits_of_def Let_def tw by simp
  qed
  then show ?thesis by (simp add: parse_unsigned_def parse_frac_def parse_exp_def)
qed

lemma num_ok_itoa [simp]: "num_ok (itoa i)"
  using take1_nat_str(1) [of "nat i"] parse_unsigned_nat_str [of "nat i"]
  by (cases "nat_str (nat i)") (auto simp: num_ok_def itoa_def parse_num_def parse_unsigned_nat_str)

section \<open>The round trip\<close>

lemma skip_ws_id [simp]: "\<not> is_ws c \<Longrightarrow> skip_ws (c # s) = c # s"
  by (simp add: skip_ws_def)

lemma skip_ws_Nil [simp]: "skip_ws [] = []"
  by (simp add: skip_ws_def)

lemma not_ws [simp]:
  "\<not> is_ws CHR 0x22" "\<not> is_ws CHR '','' " "\<not> is_ws CHR '':''" "\<not> is_ws CHR ''[''"
  "\<not> is_ws CHR '']''" "\<not> is_ws CHR ''{''" "\<not> is_ws CHR ''}''" "\<not> is_ws CHR ''-''"
  "\<not> is_ws CHR ''n''" "\<not> is_ws CHR ''t''" "\<not> is_ws CHR ''f''"
  by (simp_all add: is_ws_def)

lemma digit_not_special:
  "is_digit c \<Longrightarrow> \<not> is_ws c \<and> c \<notin> {CHR 0x22, CHR ''{'', CHR ''['', CHR '']'', CHR ''}'', CHR ''n'', CHR ''t'', CHR ''f''}"
  by (auto simp: is_digit_def is_ws_def)

text \<open>The first character of a printed value tells its kind and is neither white space nor a closing bracket.\<close>

lemma json_print_hd:
  "json_ok v \<Longrightarrow> \<exists>c s. json_print v = c # s \<and> \<not> is_ws c \<and> c \<noteq> CHR '']'' \<and> c \<noteq> CHR ''}''"
proof (cases v)
  case (JNum l)
  assume "json_ok v"
  with JNum obtain c l' where "l = c # l'" "is_digit c \<or> c = CHR ''-''"
    using num_ok_hd [of l] by auto
  with JNum show ?thesis by (auto dest: digit_not_special)
qed (auto simp: json_quote_def)

fun json_size :: "json \<Rightarrow> nat" where
  "json_size (JArr vs) = 2 + sum_list (map (\<lambda>v. Suc (json_size v)) vs)"
| "json_size (JObj ms) = 2 + sum_list (map (\<lambda>(k, v). Suc (json_size v)) ms)"
| "json_size _ = 1"

definition parses :: "json \<Rightarrow> bool" where
  "parses v \<longleftrightarrow> (\<forall>n r. json_size v \<le> n \<longrightarrow> delim r \<longrightarrow> parse_val n (json_print v @ r) = Some (v, r))"

lemma parsesD: "parses v \<Longrightarrow> json_size v \<le> n \<Longrightarrow> delim r \<Longrightarrow> parse_val n (json_print v @ r) = Some (v, r)"
  by (simp add: parses_def)

lemma parse_elems_print:
  "list_all parses vs \<Longrightarrow> vs \<noteq> [] \<Longrightarrow> sum_list (map (\<lambda>v. Suc (json_size v)) vs) \<le> n \<Longrightarrow>
   parse_elems n (join '','' (map json_print vs) @ CHR '']'' # r) = Some (vs, r)"
proof (induction vs arbitrary: n)
  case Nil
  then show ?case by simp
next
  case (Cons v vs)
  then obtain m where n: "n = Suc m" by (cases n) auto
  show ?case
  proof (cases vs)
    case Nil
    have "parse_val m (json_print v @ CHR '']'' # r) = Some (v, CHR '']'' # r)"
      using Cons.prems n by (intro parsesD) auto
    with Nil n show ?thesis by simp
  next
    case (Cons w ws)
    let ?r = "CHR '','' # join '','' (map json_print vs) @ CHR '']'' # r"
    have "parse_val m (json_print v @ ?r) = Some (v, ?r)"
      using Cons.prems n by (intro parsesD) auto
    moreover have "parse_elems m (join '','' (map json_print vs) @ CHR '']'' # r) = Some (vs, r)"
      using Cons.prems n Cons by (intro Cons.IH) auto
    ultimately show ?thesis using n Cons by simp
  qed
qed

abbreviation print_member :: "string \<times> json \<Rightarrow> string" where
  "print_member m \<equiv> (case m of (k, v) \<Rightarrow> json_quote k @ '':'' @ json_print v)"

lemma parse_members_print:
  "list_all (\<lambda>(k, v). valid_utf8 k \<and> json_ok v \<and> parses v) ms \<Longrightarrow> ms \<noteq> [] \<Longrightarrow>
   sum_list (map (\<lambda>(k, v). Suc (json_size v)) ms) \<le> n \<Longrightarrow>
   parse_members n (join '','' (map print_member ms) @ CHR ''}'' # r) = Some (ms, r)"
proof (induction ms arbitrary: n)
  case Nil
  then show ?case by simp
next
  case (Cons m ms)
  obtain k v where m: "m = (k, v)" by force
  obtain n' where n: "n = Suc n'" using Cons.prems m by (cases n) auto
  have k: "\<And>t. parse_str (json_escape k @ CHR 0x22 # t) = Some (k, t)"
    using Cons.prems m by (intro parse_str_escape) auto
  obtain c s where hd: "json_print v = c # s" "\<not> is_ws c"
    using json_print_hd [of v] Cons.prems m by auto
  show ?case
  proof (cases ms)
    case Nil
    have "parse_val n' (json_print v @ CHR ''}'' # r) = Some (v, CHR ''}'' # r)"
      using Cons.prems n m by (intro parsesD) auto
    with Nil n m k hd show ?thesis by (simp add: json_quote_def)
  next
    case (Cons m' ms')
    let ?r = "CHR '','' # join '','' (map print_member ms) @ CHR ''}'' # r"
    have "parse_val n' (json_print v @ ?r) = Some (v, ?r)"
      using Cons.prems n m by (intro parsesD) auto
    moreover have "parse_members n' (join '','' (map print_member ms) @ CHR ''}'' # r) = Some (ms, r)"
      using Cons.prems n m Cons by (intro Cons.IH) auto
    ultimately show ?thesis using n m k hd Cons by (simp add: json_quote_def)
  qed
qed

lemma join_hd:
  "\<exists>x xs. vs = x # xs \<and> (\<exists>c s. f x = c # s \<and> P c) \<Longrightarrow> \<exists>c s. join sep (map f vs) @ t = c # s \<and> P c"
  by (cases vs; cases "tl vs") auto

lemma json_print_parses: "json_ok v \<Longrightarrow> parses v"
proof (induction v)
  case JNull
  show ?case unfolding parses_def
    by (clarify, case_tac n) simp_all
next
  case (JBool b)
  show ?case unfolding parses_def
    by (clarify, case_tac n) simp_all
next
  case (JNum l)
  then obtain c l' where l: "l = c # l'" and c: "is_digit c \<or> c = CHR ''-''"
    using num_ok_hd [of l] by auto
  then have c': "\<not> is_ws c" "c \<noteq> CHR 0x22" "c \<noteq> CHR ''{''" "c \<noteq> CHR ''[''"
      "c \<noteq> CHR ''n''" "c \<noteq> CHR ''t''" "c \<noteq> CHR ''f''"
    by (auto dest: digit_not_special)
  show ?case unfolding parses_def
  proof (intro allI impI)
    fix n r
    assume n: "json_size (JNum l) \<le> n" and r: "delim r"
    have "parse_num (l @ r) = Some (l, r)"
      using parse_num_delim [OF r, of l l "[]"] JNum by (simp add: num_ok_def)
    with n l c' show "parse_val n (json_print (JNum l) @ r) = Some (JNum l, r)"
      by (cases n) simp_all
  qed
next
  case (JStr s)
  then have "\<And>r. parse_str (json_escape s @ CHR 0x22 # r) = Some (s, r)"
    by (simp add: parse_str_escape)
  then show ?case unfolding parses_def
    by (clarify, case_tac n) (simp_all add: json_quote_def)
next
  case (JArr vs)
  then have all: "list_all parses vs" by (auto simp: list_all_iff)
  show ?case unfolding parses_def
  proof (intro allI impI)
    fix n r
    assume n: "json_size (JArr vs) \<le> n" and r: "delim r"
    then obtain m where m: "n = Suc m" "sum_list (map (\<lambda>v. Suc (json_size v)) vs) \<le> m"
      by (cases n) auto
    show "parse_val n (json_print (JArr vs) @ r) = Some (JArr vs, r)"
    proof (cases "vs = []")
      case True
      with m show ?thesis by simp
    next
      case False
      then have "\<exists>x xs. vs = x # xs \<and> (\<exists>c s. json_print x = c # s \<and> \<not> is_ws c \<and> c \<noteq> CHR '']'')"
        using JArr.prems json_print_hd by (cases vs) fastforce+
      from join_hd [OF this, of "'',''" "CHR '']'' # r"]
      obtain c s where "join '','' (map json_print vs) @ CHR '']'' # r = c # s" "\<not> is_ws c" "c \<noteq> CHR '']''"
        by blast
      with m parse_elems_print [OF all False m(2), of r] show ?thesis by simp
    qed
  qed
next
  case (JObj ms)
  then have all: "list_all (\<lambda>(k, v). valid_utf8 k \<and> json_ok v \<and> parses v) ms"
    by (fastforce simp: list_all_iff)
  show ?case unfolding parses_def
  proof (intro allI impI)
    fix n r
    assume n: "json_size (JObj ms) \<le> n" and r: "delim r"
    then obtain m where m: "n = Suc m" "sum_list (map (\<lambda>(k, v). Suc (json_size v)) ms) \<le> m"
      by (cases n) auto
    show "parse_val n (json_print (JObj ms) @ r) = Some (JObj ms, r)"
    proof (cases "ms = []")
      case True
      with m show ?thesis by simp
    next
      case False
      then have "\<exists>x xs. ms = x # xs \<and> (\<exists>c s. print_member x = c # s \<and> c = CHR 0x22)"
        by (cases ms) (auto simp: json_quote_def)
      from join_hd [OF this, of "'',''" "CHR ''}'' # r"]
      obtain s where "join '','' (map print_member ms) @ CHR ''}'' # r = CHR 0x22 # s"
        by blast
      with m parse_members_print [OF all False m(2), of r] show ?thesis by simp
    qed
  qed
qed

lemma length_join:
  "length (join '','' xs) + 1 = (if xs = [] then 1 else sum_list (map (\<lambda>x. Suc (length x)) xs))"
  by (induction "'',''" xs rule: join.induct) auto

lemma json_size_le: "json_ok v \<Longrightarrow> json_size v \<le> 2 * length (json_print v)"
proof (induction v)
  case (JNum l)
  then show ?case using num_ok_hd [of l] by auto
next
  case (JArr vs)
  have "sum_list (map (\<lambda>v. Suc (json_size v)) vs) \<le> sum_list (map (\<lambda>v. 2 * Suc (length (json_print v))) vs)"
    using JArr by (intro sum_list_mono) (fastforce simp: list_all_iff)
  also have "\<dots> = 2 * sum_list (map (\<lambda>x. Suc (length x)) (map json_print vs))"
    by (induction vs) auto
  finally show ?case using length_join [of "map json_print vs"] by (cases vs) auto
next
  case (JObj ms)
  have "sum_list (map (\<lambda>(k, v). Suc (json_size v)) ms)
      \<le> sum_list (map (\<lambda>m. 2 * Suc (length (print_member m))) ms)"
    using JObj by (intro sum_list_mono) (fastforce simp: list_all_iff)
  also have "\<dots> = 2 * sum_list (map (\<lambda>x. Suc (length x)) (map print_member ms))"
    by (induction ms) auto
  finally show ?case using length_join [of "map print_member ms"] by (cases ms) auto
qed (auto simp: json_quote_def)

theorem json_roundtrip:
  "json_ok v \<Longrightarrow> json_depth v \<le> 10000 \<Longrightarrow> json_parse (json_print v) = Some v"
  using json_size_le [of v] parsesD [OF json_print_parses, of v "2 * length (json_print v) + 1" "[]"]
  by (simp add: json_parse_def)

section \<open>Fuel\<close>

lemma emit_shorter: "emit p r = Some (x, t) \<Longrightarrow> (\<And>y t. r = Some (y, t) \<Longrightarrow> length t < n) \<Longrightarrow> length t < n"
  by (auto simp: emit_Some)

lemma parse_str_shorter: "parse_str s = Some (x, t) \<Longrightarrow> length t < length s"
proof (induction "length s" arbitrary: s x t rule: less_induct)
  case less
  have IH: "length t' < length s" if "emit p (parse_str u) = Some (x', t')" "length u < length s" for p u x' t'
    using that less.hyps by (fastforce simp: emit_Some)
  show ?case
  proof (cases s)
    case Nil
    with less.prems show ?thesis by (simp add: parse_str.simps)
  next
    case (Cons c u)
    from less.prems [unfolded Cons parse_str.simps] show ?thesis
      by (auto simp: Cons split: if_splits option.splits list.splits dest!: IH)
  qed
qed

lemma skip_ws_length: "length (skip_ws s) \<le> length s"
  by (simp add: skip_ws_def length_dropWhile_le)

lemma digits_of_shorter: "digits_of s = Some (x, t) \<Longrightarrow> length t < length s"
  by (cases s) (auto simp: digits_of_def Let_def split: if_splits)

lemma parse_num_shorter: "parse_num s = Some (x, t) \<Longrightarrow> length t < length s"
proof -
  have fr: "parse_frac s = Some (x, t) \<Longrightarrow> length t \<le> length s" for s x t
    by (cases s) (auto simp: parse_frac_def emit_Some dest!: digits_of_shorter split: if_splits)
  have sg: "parse_signed s = Some (x, t) \<Longrightarrow> length t \<le> length s" for s x t
    by (cases s) (fastforce simp: parse_signed_def emit_Some dest: digits_of_shorter split: if_splits)+
  have ex: "parse_exp s = Some (x, t) \<Longrightarrow> length t \<le> length s" for s x t
    by (cases s) (fastforce simp: parse_exp_def emit_Some dest: sg split: if_splits)+
  have it: "parse_int s = Some (x, t) \<Longrightarrow> length t < length s" for s x t
    by (cases s) (auto simp: parse_int_def dest!: digits_of_shorter split: if_splits)
  have un: "parse_unsigned s = Some (x, t) \<Longrightarrow> length t < length s" for s x t
    by (fastforce simp: parse_unsigned_def emit_Some dest: it fr ex split: option.splits)
  show "parse_num s = Some (x, t) \<Longrightarrow> length t < length s"
    by (cases s) (fastforce simp: parse_num_def emit_Some dest: un split: if_splits)+
qed

lemma skip_ws_Cons: "skip_ws s = c # r \<Longrightarrow> Suc (length r) \<le> length s"
  using skip_ws_length [of s] by simp

lemma drop_skip_ws_le: "length (drop n (skip_ws s)) \<le> length s"
  using skip_ws_length [of s] by simp

lemma parse_shorter:
  "parse_val n s = Some (v, t) \<Longrightarrow> length t < length s"
  "parse_elems n s = Some (vs, t) \<Longrightarrow> length t < length s"
  "parse_members n s = Some (ms, t) \<Longrightarrow> length t < length s"
proof (induction n s and n s and n s arbitrary: v t and vs t and ms t
    rule: parse_val_parse_elems_parse_members.induct)
  case (2 n s)
  then obtain c r where s: "skip_ws s = c # r" by (auto split: list.splits)
  note [dest!] = parse_str_shorter parse_num_shorter
  from 2 s skip_ws_Cons [OF s] show ?case
    using drop_skip_ws_le [of 1 r]
    by (force split: if_splits)
next
  case (4 n s)
  then obtain v u c r where v: "parse_val n s = Some (v, u)" "skip_ws u = c # r"
    by (auto split: option.splits list.splits)
  with "4.IH"(1) have "length u < length s" by blast
  with 4 v skip_ws_Cons [OF v(2)] show ?case by (fastforce split: if_splits)
next
  case (6 n s)
  then obtain c r k t1 v u d w where c: "skip_ws s = c # r" "c = CHR 0x22" "parse_str r = Some (k, t1)"
      "take 1 (skip_ws t1) = '':''" "parse_val n (drop 1 (skip_ws t1)) = Some (v, u)" "skip_ws u = d # w"
    by (auto split: option.splits list.splits if_splits)
  have "length u < length (drop 1 (skip_ws t1))" using "6.IH"(1) c by blast
  then have "length w < length s"
    using skip_ws_Cons [OF c(1)] parse_str_shorter [OF c(3)] drop_skip_ws_le [of 1 t1] skip_ws_Cons [OF c(6)]
    by linarith
  with 6 c show ?case by (fastforce split: if_splits)
qed simp_all

text \<open>
  Past twice the length of the input, more fuel changes nothing: running out of fuel is never
  the reason for a failed parse.
\<close>

lemma parse_fuel_all:
  "(\<forall>s m. 2 * length s < n \<longrightarrow> 2 * length s < m \<longrightarrow> parse_val n s = parse_val m s) \<and>
   (\<forall>s m. 2 * length s + 1 < n \<longrightarrow> 2 * length s + 1 < m \<longrightarrow> parse_elems n s = parse_elems m s) \<and>
   (\<forall>s m. 2 * length s < n \<longrightarrow> 2 * length s < m \<longrightarrow> parse_members n s = parse_members m s)"
  (is "?V n \<and> ?E n \<and> ?M n")
proof (induction n)
  case 0
  then show ?case by simp
next
  case (Suc n)
  then have "?V n" "?E n" "?M n" by blast+
  note V = this(1) [rule_format] and E = this(2) [rule_format] and M = this(3) [rule_format]
  have "?V (Suc n)"
  proof (intro allI impI)
    fix s m
    assume n: "2 * length s < Suc n" and m: "2 * length (s :: string) < m"
    then obtain m' where m': "m = Suc m'" by (cases m) auto
    show "parse_val (Suc n) s = parse_val m s"
    proof (cases "skip_ws s")
      case Nil
      with m' show ?thesis by simp
    next
      case (Cons c r)
      have "parse_elems n r = parse_elems m' r" "parse_members n r = parse_members m' r"
        using n m m' skip_ws_Cons [OF Cons] by (auto intro!: E M)
      with m' Cons show ?thesis by simp
    qed
  qed
  moreover have "?E (Suc n)"
  proof (intro allI impI)
    fix s m
    assume n: "2 * length s + 1 < Suc n" and m: "2 * length (s :: string) + 1 < m"
    then obtain m' where m': "m = Suc m'" by (cases m) auto
    have v: "parse_val n s = parse_val m' s" using n m m' by (intro V) auto
    show "parse_elems (Suc n) s = parse_elems m s"
    proof (cases "parse_val n s")
      case None
      with v m' show ?thesis by simp
    next
      case (Some vt)
      obtain v u where vu: "vt = (v, u)" by force
      have "length u < length s" using parse_shorter(1) Some vu by simp
      have "parse_elems n r = parse_elems m' r" if "skip_ws u = c # r" for c r
        using n m m' skip_ws_Cons [OF that] \<open>length u < length s\<close> by (intro E) auto
      with v [symmetric] m' Some vu show ?thesis by (simp split: list.splits)
    qed
  qed
  moreover have "?M (Suc n)"
  proof (intro allI impI)
    fix s m
    assume n: "2 * length s < Suc n" and m: "2 * length (s :: string) < m"
    then obtain m' where m': "m = Suc m'" by (cases m) auto
    show "parse_members (Suc n) s = parse_members m s"
    proof (cases "\<exists>r k t. skip_ws s = CHR 0x22 # r \<and> parse_str r = Some (k, t)")
      case False
      with m' show ?thesis by (auto split: list.splits option.splits)
    next
      case True
      then obtain r k t where r: "skip_ws s = CHR 0x22 # r" "parse_str r = Some (k, t)" by blast
      let ?t = "drop 1 (skip_ws t)"
      have t: "Suc (length ?t) < length s"
        using skip_ws_Cons [OF r(1)] parse_str_shorter [OF r(2)] drop_skip_ws_le [of 1 t] by linarith
      then have v: "parse_val n ?t = parse_val m' ?t" using n m m' t by (intro V) auto
      show ?thesis
      proof (cases "parse_val n ?t")
        case None
        with r v m' show ?thesis by simp
      next
        case (Some vu)
        obtain x u where vu: "vu = (x, u)" by force
        show ?thesis
        proof (cases "skip_ws u")
          case Nil
          with r v m' Some vu show ?thesis by simp
        next
          case (Cons c w)
          then have "parse_members n w = parse_members m' w"
            using n m m' t skip_ws_Cons [OF Cons] parse_shorter(1) [of n ?t x u] Some vu by (intro M) auto
          with r v m' Some vu Cons show ?thesis by simp
        qed
      qed
    qed
  qed
  ultimately show ?case by blast
qed

theorem parse_fuel: "2 * length s < n \<Longrightarrow> 2 * length s < m \<Longrightarrow> parse_val n s = parse_val m s"
  using parse_fuel_all [of n] by blast

section \<open>Decoding into Go values\<close>

text \<open>
  A struct or map target takes an object, or \<open>null\<close>, which leaves it as it is. A map keeps the
  last of several equal keys.
\<close>

type_synonym obj = "(string \<times> json) list"

definition unmarshal_obj :: "bytes \<Rightarrow> obj option" where
  "unmarshal_obj s =
     (case json_parse s of
        Some (JObj ms) \<Rightarrow> Some ms
      | Some JNull \<Rightarrow> Some []
      | _ \<Rightarrow> None)"

definition obj_get :: "string \<Rightarrow> obj \<Rightarrow> json option" where
  "obj_get k ms = map_of (rev ms) k"

text \<open>The type assertion \<open>v.(string)\<close> on a map lookup.\<close>

definition as_string :: "json option \<Rightarrow> string option" where
  "as_string v = (case v of Some (JStr s) \<Rightarrow> Some s | _ \<Rightarrow> None)"

text \<open>
  Struct fields match their key up to case; every occurrence is decoded in order onto the
  field, \<open>null\<close> leaving it alone; a value of the wrong type is an error of the whole decoding.
\<close>

definition field_vals :: "string \<Rightarrow> obj \<Rightarrow> json list" where
  "field_vals name ms = map snd (filter (\<lambda>(k, v). equal_fold k name) ms)"

fun decode_vals :: "(json \<Rightarrow> 'a option) \<Rightarrow> 'a \<Rightarrow> json list \<Rightarrow> 'a option" where
  "decode_vals f x [] = Some x"
| "decode_vals f x (v # vs) =
     (case v of
        JNull \<Rightarrow> decode_vals f x vs
      | _ \<Rightarrow> (case f v of None \<Rightarrow> None | Some y \<Rightarrow> decode_vals f y vs))"

fun json_str :: "json \<Rightarrow> string option" where
  "json_str (JStr s) = Some s"
| "json_str _ = None"

fun json_int :: "json \<Rightarrow> int option" where
  "json_int (JNum l) = atoi l"
| "json_int _ = None"

definition str_field :: "string \<Rightarrow> obj \<Rightarrow> string option" where
  "str_field name ms = decode_vals json_str [] (field_vals name ms)"

definition int_field :: "string \<Rightarrow> obj \<Rightarrow> int option" where
  "int_field name ms = decode_vals json_int 0 (field_vals name ms)"

lemma field_vals_Cons:
  "field_vals name ((k, v) # ms) =
     (if equal_fold k name then v # field_vals name ms else field_vals name ms)"
  by (simp add: field_vals_def)

lemma field_vals_Nil [simp]: "field_vals name [] = []"
  by (simp add: field_vals_def)

end
