(* ===== verification/Kweb.thy ===== *)
theory Kweb
  imports GoTime Json
begin

text \<open>
  The HTTP client of the kcli web API (internal/kweb/client.go): its errors, the classification of
  responses, the calls, the health cache, and the interface through which the handlers and the
  monitor see it, with its contract.

  net/http, the rate limiter and the clock are the parameter \<open>T\<close>, a record of the calls made on a
  state \<open>'n\<close> (the network and the kweb at its other end). The text of an \<open>encoding/json\<close> error is
  not modelled: \<open>json_err\<close> stands for it where an error is printed.
\<close>

section \<open>Errors and data\<close>

datatype kweb_error =
    ErrKwebUnreachable
  | ErrConflict
  | ErrKwebNotFound
  | KwebError int string
  | RateLimited string
  | ParseErr string
  | HttpErr string

definition kweb_error_text :: "string \<Rightarrow> kweb_error \<Rightarrow> string" where
  "kweb_error_text json_err e =
     (case e of
        ErrKwebUnreachable \<Rightarrow> ''kweb is unreachable''
      | ErrConflict \<Rightarrow> ''resource already exists''
      | ErrKwebNotFound \<Rightarrow> ''resource not found in kweb''
      | KwebError status reason \<Rightarrow>
          (if reason \<noteq> '''' then ''kweb error '' @ itoa status @ '': '' @ reason
           else ''kweb error '' @ itoa status)
      | RateLimited err \<Rightarrow> ''rate limiter: '' @ err
      | ParseErr what \<Rightarrow> ''parsing '' @ what @ '': '' @ json_err
      | HttpErr err \<Rightarrow> err)"

record VMInfo =
  vi_name :: string
  vi_status :: string
  vi_ip :: string
  vi_id :: string
  vi_numcpus :: int
  vi_memory :: int
  vi_profile :: string
  vi_plan :: string
  vi_kube :: string
  vi_kubetype :: string
  vi_creationdate :: string
  vi_user :: string

record ClusterInfo =
  ci_name :: string
  ci_status :: string
  ci_version :: string
  ci_type :: string
  ci_plan :: string
  ci_vms :: string
  ci_nodes :: "string list list"

type_synonym params = "(string \<times> json) list"

text \<open>The interface; a nil slice of VMs is \<open>None\<close>.\<close>

record 'k KwebClient =
  kc_create_vm :: "string \<Rightarrow> string \<Rightarrow> params \<Rightarrow> 'k \<Rightarrow> kweb_error option \<times> 'k"
  kc_list_vms :: "'k \<Rightarrow> (kweb_error + VMInfo list option) \<times> 'k"
  kc_get_vm :: "string \<Rightarrow> 'k \<Rightarrow> (kweb_error + VMInfo) \<times> 'k"
  kc_delete_vm :: "string \<Rightarrow> 'k \<Rightarrow> kweb_error option \<times> 'k"
  kc_list_profiles :: "'k \<Rightarrow> (kweb_error + string list) \<times> 'k"
  kc_create_cluster :: "string \<Rightarrow> string \<Rightarrow> params \<Rightarrow> 'k \<Rightarrow> kweb_error option \<times> 'k"
  kc_list_clusters :: "'k \<Rightarrow> (kweb_error + ClusterInfo list) \<times> 'k"
  kc_get_cluster :: "string \<Rightarrow> 'k \<Rightarrow> (kweb_error + ClusterInfo) \<times> 'k"
  kc_get_kubeconfig :: "string \<Rightarrow> 'k \<Rightarrow> (kweb_error + string) \<times> 'k"
  kc_delete_cluster :: "string \<Rightarrow> 'k \<Rightarrow> kweb_error option \<times> 'k"
  kc_check_health :: "'k \<Rightarrow> (bool \<times> kweb_error option) \<times> 'k"

text \<open>
  What the clients rely on, on states that every call keeps well-formed (\<open>inv\<close>): a VM that is returned has a name, a cluster has the name it was asked
  for, names in a listing of clusters or profiles are not repeated, and an error of the health
  check never comes with a healthy verdict.
\<close>

locale kweb_client =
  fixes K :: "'k KwebClient"
    and inv :: "'k \<Rightarrow> bool"
  assumes get_vm_named: "inv k \<Longrightarrow> kc_get_vm K n k = (Inr vm, k') \<Longrightarrow> vi_name vm \<noteq> ''''"
    and get_cluster_named: "inv k \<Longrightarrow> kc_get_cluster K n k = (Inr cl, k') \<Longrightarrow> ci_name cl = n"
    and list_clusters_distinct:
      "inv k \<Longrightarrow> kc_list_clusters K k = (Inr cls, k') \<Longrightarrow> distinct (map ci_name cls)"
    and list_profiles_distinct: "inv k \<Longrightarrow> kc_list_profiles K k = (Inr ps, k') \<Longrightarrow> distinct ps"
    and health_err: "inv k \<Longrightarrow> kc_check_health K k = ((ok, Some e), k') \<Longrightarrow> \<not> ok"
    and create_vm_inv: "inv k \<Longrightarrow> inv (snd (kc_create_vm K n p kvs k))"
    and list_vms_inv: "inv k \<Longrightarrow> inv (snd (kc_list_vms K k))"
    and get_vm_inv: "inv k \<Longrightarrow> inv (snd (kc_get_vm K n k))"
    and delete_vm_inv: "inv k \<Longrightarrow> inv (snd (kc_delete_vm K n k))"
    and list_profiles_inv: "inv k \<Longrightarrow> inv (snd (kc_list_profiles K k))"
    and create_cluster_inv: "inv k \<Longrightarrow> inv (snd (kc_create_cluster K n p kvs k))"
    and list_clusters_inv: "inv k \<Longrightarrow> inv (snd (kc_list_clusters K k))"
    and get_cluster_inv: "inv k \<Longrightarrow> inv (snd (kc_get_cluster K n k))"
    and get_kubeconfig_inv: "inv k \<Longrightarrow> inv (snd (kc_get_kubeconfig K n k))"
    and delete_cluster_inv: "inv k \<Longrightarrow> inv (snd (kc_delete_cluster K n k))"
    and check_health_inv: "inv k \<Longrightarrow> inv (snd (kc_check_health K k))"

section \<open>Decoding\<close>

text \<open>A slice is replaced by the decoded array, \<open>null\<close> makes it nil; a map is added to.\<close>

fun decode_all :: "('j \<Rightarrow> 'a option) \<Rightarrow> 'j list \<Rightarrow> 'a list option" where
  "decode_all f [] = Some []"
| "decode_all f (v # vs) =
     (case f v of
        None \<Rightarrow> None
      | Some x \<Rightarrow> (case decode_all f vs of None \<Rightarrow> None | Some xs \<Rightarrow> Some (x # xs)))"

fun decode_slice :: "(json \<Rightarrow> 'a option) \<Rightarrow> 'a list option \<Rightarrow> json list \<Rightarrow> 'a list option option" where
  "decode_slice f acc [] = Some acc"
| "decode_slice f acc (JNull # vs) = decode_slice f None vs"
| "decode_slice f acc (JArr es # vs) =
     (case decode_all f es of None \<Rightarrow> None | Some xs \<Rightarrow> decode_slice f (Some xs) vs)"
| "decode_slice f acc (_ # vs) = None"

fun decode_map :: "obj \<Rightarrow> json list \<Rightarrow> obj option" where
  "decode_map acc [] = Some acc"
| "decode_map acc (JNull # vs) = decode_map [] vs"
| "decode_map acc (JObj ms # vs) = decode_map (acc @ ms) vs"
| "decode_map acc (_ # vs) = None"

fun struct_of :: "json \<Rightarrow> obj option" where
  "struct_of (JObj ms) = Some ms"
| "struct_of JNull = Some []"
| "struct_of _ = None"

definition vm_info_of :: "obj \<Rightarrow> VMInfo option" where
  "vm_info_of ms =
     (case (str_field ''name'' ms, str_field ''status'' ms, str_field ''ip'' ms, str_field ''id'' ms,
            int_field ''numcpus'' ms, int_field ''memory'' ms) of
        (Some name, Some status, Some ip, Some i, Some cpus, Some memory) \<Rightarrow>
          (case (str_field ''profile'' ms, str_field ''plan'' ms, str_field ''kube'' ms,
                 str_field ''kubetype'' ms, str_field ''creationdate'' ms, str_field ''user'' ms) of
             (Some profile, Some plan, Some kube, Some kubetype, Some created, Some user) \<Rightarrow>
               Some \<lparr>vi_name = name, vi_status = status, vi_ip = ip, vi_id = i, vi_numcpus = cpus,
                     vi_memory = memory, vi_profile = profile, vi_plan = plan, vi_kube = kube,
                     vi_kubetype = kubetype, vi_creationdate = created, vi_user = user\<rparr>
           | _ \<Rightarrow> None)
      | _ \<Rightarrow> None)"

definition vm_of_json :: "json \<Rightarrow> VMInfo option" where
  "vm_of_json v = (case struct_of v of None \<Rightarrow> None | Some ms \<Rightarrow> vm_info_of ms)"

definition parse_vm_list :: "bytes \<Rightarrow> kweb_error + VMInfo list option" where
  "parse_vm_list data =
     (case unmarshal_obj data of
        None \<Rightarrow> Inl (ParseErr ''vm list'')
      | Some ms \<Rightarrow>
          (case decode_slice vm_of_json None (field_vals ''vms'' ms) of
             None \<Rightarrow> Inl (ParseErr ''vm list'')
           | Some vms \<Rightarrow> Inr vms))"

definition parse_vm :: "bytes \<Rightarrow> kweb_error + VMInfo" where
  "parse_vm data =
     (case Option.bind (unmarshal_obj data) vm_info_of of
        None \<Rightarrow> Inl (ParseErr ''vm info'')
      | Some vm \<Rightarrow> (if vi_name vm = '''' then Inl ErrKwebNotFound else Inr vm))"

text \<open>The keys of a map, each once; their order is unspecified in Go.\<close>

definition map_keys :: "obj \<Rightarrow> string list" where
  "map_keys ms = remdups (map fst ms)"

definition parse_profiles :: "bytes \<Rightarrow> kweb_error + string list" where
  "parse_profiles data =
     (case unmarshal_obj data of
        None \<Rightarrow> Inl (ParseErr ''profiles'')
      | Some ms \<Rightarrow>
          (case decode_map [] (field_vals ''profiles'' ms) of
             None \<Rightarrow> Inl (ParseErr ''profiles'')
           | Some profiles \<Rightarrow> Inr (map_keys profiles)))"

definition empty_cluster :: "string \<Rightarrow> ClusterInfo" where
  "empty_cluster name =
     \<lparr>ci_name = name, ci_status = '''', ci_version = '''', ci_type = '''', ci_plan = '''',
      ci_vms = '''', ci_nodes = []\<rparr>"

definition cluster_entry :: "string \<Rightarrow> json option \<Rightarrow> ClusterInfo" where
  "cluster_entry name raw =
     (case Option.bind raw struct_of of
        None \<Rightarrow> empty_cluster name
      | Some ms \<Rightarrow>
          (case (str_field ''type'' ms, str_field ''plan'' ms, str_field ''vms'' ms) of
             (Some ty, Some plan, Some vms) \<Rightarrow>
               (empty_cluster name)\<lparr>ci_type := ty, ci_plan := plan, ci_vms := vms\<rparr>
           | _ \<Rightarrow> empty_cluster name))"

definition parse_cluster_list :: "bytes \<Rightarrow> kweb_error + ClusterInfo list" where
  "parse_cluster_list data =
     (case unmarshal_obj data of
        None \<Rightarrow> Inl (ParseErr ''cluster list'')
      | Some ms \<Rightarrow>
          (case decode_map [] (field_vals ''kubes'' ms) of
             None \<Rightarrow> Inl (ParseErr ''cluster list'')
           | Some kubes \<Rightarrow>
               Inr (map (\<lambda>name. cluster_entry name (obj_get name kubes)) (map_keys kubes))))"

fun str_or_null :: "json \<Rightarrow> string option" where
  "str_or_null (JStr s) = Some s"
| "str_or_null JNull = Some ''''"
| "str_or_null _ = None"

fun strings_of :: "json \<Rightarrow> string list option" where
  "strings_of (JArr vs) = decode_all str_or_null vs"
| "strings_of JNull = Some []"
| "strings_of _ = None"

fun nodes_of :: "json \<Rightarrow> string list list option" where
  "nodes_of (JArr vs) = decode_all strings_of vs"
| "nodes_of JNull = Some []"
| "nodes_of _ = None"

definition parse_cluster :: "string \<Rightarrow> bytes \<Rightarrow> kweb_error + ClusterInfo" where
  "parse_cluster name data =
     (case unmarshal_obj data of
        None \<Rightarrow> Inl (ParseErr ''cluster info'')
      | Some raw \<Rightarrow>
          (if raw = [] then Inl ErrKwebNotFound
           else
             (let version = (case as_string (obj_get ''version'' raw) of None \<Rightarrow> '''' | Some v \<Rightarrow> v);
                  nodes = (case Option.bind (obj_get ''nodes'' raw) nodes_of of None \<Rightarrow> [] | Some ns \<Rightarrow> ns) in
              Inr ((empty_cluster name)\<lparr>ci_version := version, ci_nodes := nodes,
                     ci_status := (if nodes \<noteq> [] then ''active'' else '''')\<rparr>))))"

section \<open>Responses\<close>

record http_resp =
  hr_status :: int
  hr_body :: bytes
  hr_read_err :: "string option"

definition max_response_size :: int where
  "max_response_size = 10 * 1048576"

text \<open>\<open>io.ReadAll(io.LimitReader(body, maxResponseSize))\<close>.\<close>

definition read_limited :: "http_resp \<Rightarrow> string + bytes" where
  "read_limited resp =
     (case hr_read_err resp of
        Some err \<Rightarrow> Inl err
      | None \<Rightarrow>
          Inr (if int (length (hr_body resp)) \<le> max_response_size then hr_body resp
               else take (nat max_response_size) (hr_body resp)))"

definition parse_error_body :: "int \<Rightarrow> bytes \<Rightarrow> kweb_error" where
  "parse_error_body status_code data =
     (let raw_error =
        (let raw = trim_space data in
         if raw = '''' \<or> raw = ''{}'' then KwebError status_code ''''
         else if str_contains raw ''<html'' \<or> str_contains raw ''<!DOCTYPE'' then
           KwebError status_code (''kweb returned HTML error (HTTP '' @ itoa status_code @ '')'')
         else KwebError status_code raw) in
      case unmarshal_obj data of
        None \<Rightarrow> raw_error
      | Some structured \<Rightarrow>
          (case as_string (obj_get ''reason'' structured) of
             Some reason \<Rightarrow>
               (if reason \<noteq> '''' then
                  (if str_contains (to_lower reason) ''already exists'' \<or>
                      str_contains (to_lower reason) ''conflict'' then ErrConflict
                   else KwebError status_code reason)
                else if as_string (obj_get ''result'' structured) = Some ''failure'' then
                  KwebError status_code reason
                else raw_error)
           | None \<Rightarrow>
               (if as_string (obj_get ''result'' structured) = Some ''failure'' then
                  KwebError status_code ''''
                else raw_error)))"

definition parse_response :: "http_resp \<Rightarrow> kweb_error option" where
  "parse_response resp =
     (case read_limited resp of
        Inl err \<Rightarrow> Some (HttpErr err)
      | Inr data \<Rightarrow>
          (if 200 \<le> hr_status resp \<and> hr_status resp < 300 then
             (if \<not> str_contains data ''failure'' then None
              else
                (case unmarshal_obj data of
                   None \<Rightarrow> None
                 | Some structured \<Rightarrow>
                     (if as_string (obj_get ''result'' structured) = Some ''failure'' then
                        (let reason =
                           (case as_string (obj_get ''reason'' structured) of None \<Rightarrow> '''' | Some r \<Rightarrow> r) in
                         if str_contains (to_lower reason) ''already exists'' then Some ErrConflict
                         else Some (KwebError (hr_status resp) reason))
                      else None)))
           else Some (parse_error_body (hr_status resp) data)))"

section \<open>Calls\<close>

text \<open>
  \<open>tr_new_request\<close> is the error of \<open>http.NewRequestWithContext\<close> for a method and a URL,
  \<open>tr_wait\<close> is \<open>limiter.Wait\<close>, \<open>tr_do\<close> is \<open>httpClient.Do\<close> with method, URL and body, and
  \<open>tr_now\<close> reads the clock.
\<close>

record 'n transport =
  tr_new_request :: "string \<Rightarrow> string \<Rightarrow> string option"
  tr_wait :: "'n \<Rightarrow> string option \<times> 'n"
  tr_do :: "string \<Rightarrow> string \<Rightarrow> bytes \<Rightarrow> 'n \<Rightarrow> (string + http_resp) \<times> 'n"
  tr_now :: "'n \<Rightarrow> time \<times> 'n"

text \<open>\<open>cl_requests\<close> is the counter \<open>KwebRequestsTotal\<close> by operation and result.\<close>

record 'n Client =
  cl_net :: 'n
  cl_requests :: "string \<Rightarrow> string \<Rightarrow> nat"
  cl_health_cached :: bool
  cl_health_ok :: bool
  cl_health_err :: "kweb_error option"
  cl_health_checked :: time

definition health_cache_ttl :: duration where
  "health_cache_ttl = 5 * second"

definition trim_right_slash :: "string \<Rightarrow> string" where
  "trim_right_slash s = rev (dropWhile (\<lambda>c. c = CHR ''/'') (rev s))"

definition new_client :: "'n \<Rightarrow> 'n Client" where
  "new_client net =
     \<lparr>cl_net = net, cl_requests = (\<lambda>_ _. 0), cl_health_cached = False, cl_health_ok = False,
      cl_health_err = None, cl_health_checked = 0\<rparr>"

text \<open>\<open>url.PathEscape\<close>.\<close>

definition path_safe :: "char \<Rightarrow> bool" where
  "path_safe c =
     (let n = of_char c :: nat in
      48 \<le> n \<and> n \<le> 57 \<or> 65 \<le> n \<and> n \<le> 90 \<or> 97 \<le> n \<and> n \<le> 122 \<or>
      c \<in> set ''-_.~$&+:=@'')"

definition upper_hex :: "nat \<Rightarrow> char" where
  "upper_hex d = char_of (if d < 10 then 48 + d else 55 + d)"

fun path_escape :: "string \<Rightarrow> string" where
  "path_escape [] = []"
| "path_escape (c # s) =
     (if path_safe c then [c]
      else [CHR ''%'', upper_hex (of_char c div 16), upper_hex (of_char c mod 16)]) @ path_escape s"

definition record_kweb :: "string \<Rightarrow> kweb_error option \<Rightarrow> 'n Client \<Rightarrow> 'n Client" where
  "record_kweb operation err c =
     (let result = (if err = None then ''success'' else ''error'') in
      c\<lparr>cl_requests :=
        (cl_requests c)(operation := (cl_requests c operation)(result := cl_requests c operation result + 1))\<rparr>)"

text \<open>
  The common part of \<open>doGet\<close>, \<open>doPost\<close> and \<open>doDelete\<close>: build the request, wait for the limiter,
  send it.
\<close>

definition send ::
  "'n transport \<Rightarrow> string \<Rightarrow> string \<Rightarrow> bytes \<Rightarrow> 'n \<Rightarrow> (kweb_error + http_resp) \<times> 'n" where
  "send T meth url body net =
     (case tr_new_request T meth url of
        Some err \<Rightarrow> (Inl (HttpErr err), net)
      | None \<Rightarrow>
          (case tr_wait T net of
             (Some err, net) \<Rightarrow> (Inl (RateLimited err), net)
           | (None, net) \<Rightarrow>
               (case tr_do T meth url body net of
                  (Inl _, net) \<Rightarrow> (Inl ErrKwebUnreachable, net)
                | (Inr resp, net) \<Rightarrow> (Inr resp, net))))"

definition do_get :: "'n transport \<Rightarrow> string \<Rightarrow> string \<Rightarrow> 'n \<Rightarrow> (kweb_error + bytes) \<times> 'n" where
  "do_get T base path net =
     (case send T ''GET'' (base @ path) [] net of
        (Inl err, net) \<Rightarrow> (Inl err, net)
      | (Inr resp, net) \<Rightarrow>
          (case read_limited resp of
             Inl err \<Rightarrow> (Inl (HttpErr err), net)
           | Inr data \<Rightarrow>
               (if 400 \<le> hr_status resp then (Inl (parse_error_body (hr_status resp) data), net)
                else (Inr data, net))))"

text \<open>
  \<open>json.Marshal\<close> of a map writes its keys in order, at every level. Numbers keep the form they
  have; Go prints those that went through \<open>float64\<close> anew.
\<close>

fun canon :: "json \<Rightarrow> json" where
  "canon (JArr vs) = JArr (map canon vs)"
| "canon (JObj ms) =
     JObj (sort_key fst (AList.clearjunk (rev (map (\<lambda>(k, v). (k, canon v)) ms))))"
| "canon v = v"

definition do_post :: "'n transport \<Rightarrow> string \<Rightarrow> string \<Rightarrow> params \<Rightarrow> 'n \<Rightarrow> kweb_error option \<times> 'n" where
  "do_post T base path body net =
     (case send T ''POST'' (base @ path) (json_print (canon (JObj body))) net of
        (Inl err, net) \<Rightarrow> (Some err, net)
      | (Inr resp, net) \<Rightarrow> (parse_response resp, net))"

definition do_delete :: "'n transport \<Rightarrow> string \<Rightarrow> string \<Rightarrow> 'n \<Rightarrow> kweb_error option \<times> 'n" where
  "do_delete T base path net =
     (case send T ''DELETE'' (base @ path) [] net of
        (Inl err, net) \<Rightarrow> (Some err, net)
      | (Inr resp, net) \<Rightarrow> (parse_response resp, net))"

definition on_net :: "('n \<Rightarrow> 'r \<times> 'n) \<Rightarrow> 'n Client \<Rightarrow> 'r \<times> 'n Client" where
  "on_net f c = (case f (cl_net c) of (r, net) \<Rightarrow> (r, c\<lparr>cl_net := net\<rparr>))"

fun err_of :: "'e + 'a \<Rightarrow> 'e option" where
  "err_of (Inl e) = Some e"
| "err_of (Inr _) = None"

definition add_params :: "params \<Rightarrow> params \<Rightarrow> params" where
  "add_params params body = fold (\<lambda>(k, v) m. map_set k v m) params body"

definition client_create_vm ::
  "'n transport \<Rightarrow> string \<Rightarrow> string \<Rightarrow> string \<Rightarrow> params \<Rightarrow> 'n Client \<Rightarrow> kweb_error option \<times> 'n Client" where
  "client_create_vm T base name profile params c =
     (let body = add_params params [(''name'', JStr name), (''profile'', JStr profile)] in
      case on_net (do_post T base ''/vms'' body) c of
        (err, c) \<Rightarrow> (err, record_kweb ''create_vm'' err c))"

definition client_list_vms ::
  "'n transport \<Rightarrow> string \<Rightarrow> 'n Client \<Rightarrow> (kweb_error + VMInfo list option) \<times> 'n Client" where
  "client_list_vms T base c =
     (case on_net (do_get T base ''/vms'') c of
        (r, c) \<Rightarrow>
          (case r of Inl err \<Rightarrow> Inl err | Inr data \<Rightarrow> parse_vm_list data,
           record_kweb ''list_vms'' (err_of r) c))"

definition client_get_vm ::
  "'n transport \<Rightarrow> string \<Rightarrow> string \<Rightarrow> 'n Client \<Rightarrow> (kweb_error + VMInfo) \<times> 'n Client" where
  "client_get_vm T base name c =
     (case on_net (do_get T base (''/vms/'' @ path_escape name)) c of
        (r, c) \<Rightarrow>
          (case r of Inl err \<Rightarrow> Inl err | Inr data \<Rightarrow> parse_vm data,
           record_kweb ''get_vm'' (err_of r) c))"

definition client_delete_vm ::
  "'n transport \<Rightarrow> string \<Rightarrow> string \<Rightarrow> 'n Client \<Rightarrow> kweb_error option \<times> 'n Client" where
  "client_delete_vm T base name c =
     (case on_net (do_delete T base (''/vms/'' @ path_escape name)) c of
        (err, c) \<Rightarrow> (err, record_kweb ''delete_vm'' err c))"

definition client_list_profiles ::
  "'n transport \<Rightarrow> string \<Rightarrow> 'n Client \<Rightarrow> (kweb_error + string list) \<times> 'n Client" where
  "client_list_profiles T base c =
     (case on_net (do_get T base ''/vmprofiles'') c of
        (r, c) \<Rightarrow>
          (case r of Inl err \<Rightarrow> Inl err | Inr data \<Rightarrow> parse_profiles data,
           record_kweb ''list_profiles'' (err_of r) c))"

definition client_create_cluster ::
  "'n transport \<Rightarrow> string \<Rightarrow> string \<Rightarrow> string \<Rightarrow> params \<Rightarrow> 'n Client \<Rightarrow> kweb_error option \<times> 'n Client" where
  "client_create_cluster T base name cluster_type params c =
     (let body = add_params params [(''cluster'', JStr name), (''kubetype'', JStr cluster_type)] in
      case on_net (do_post T base ''/kubes'' body) c of
        (err, c) \<Rightarrow> (err, record_kweb ''create_cluster'' err c))"

definition client_list_clusters ::
  "'n transport \<Rightarrow> string \<Rightarrow> 'n Client \<Rightarrow> (kweb_error + ClusterInfo list) \<times> 'n Client" where
  "client_list_clusters T base c =
     (case on_net (do_get T base ''/kubes'') c of
        (r, c) \<Rightarrow>
          (case r of Inl err \<Rightarrow> Inl err | Inr data \<Rightarrow> parse_cluster_list data,
           record_kweb ''list_clusters'' (err_of r) c))"

definition client_get_cluster ::
  "'n transport \<Rightarrow> string \<Rightarrow> string \<Rightarrow> 'n Client \<Rightarrow> (kweb_error + ClusterInfo) \<times> 'n Client" where
  "client_get_cluster T base name c =
     (case on_net (do_get T base (''/kubes/'' @ path_escape name)) c of
        (r, c) \<Rightarrow>
          (case r of Inl err \<Rightarrow> Inl err | Inr data \<Rightarrow> parse_cluster name data,
           record_kweb ''get_cluster'' (err_of r) c))"

definition client_get_kubeconfig ::
  "'n transport \<Rightarrow> string \<Rightarrow> string \<Rightarrow> 'n Client \<Rightarrow> (kweb_error + string) \<times> 'n Client" where
  "client_get_kubeconfig T base name c =
     (case on_net (do_get T base (''/kubes/'' @ path_escape name @ ''/kubeconfig'')) c of
        (r, c) \<Rightarrow>
          (case r of Inl err \<Rightarrow> Inl err | Inr data \<Rightarrow> Inr (trim_space data),
           record_kweb ''get_kubeconfig'' (err_of r) c))"

definition client_delete_cluster ::
  "'n transport \<Rightarrow> string \<Rightarrow> string \<Rightarrow> 'n Client \<Rightarrow> kweb_error option \<times> 'n Client" where
  "client_delete_cluster T base name c =
     (case on_net (do_delete T base (''/kubes/'' @ path_escape name)) c of
        (err, c) \<Rightarrow> (err, record_kweb ''delete_cluster'' err c))"

text \<open>
  The health check. The uncached one waits for the limiter before it builds the request; its
  result carries the error that goes into the metric, which differs from the one returned.
\<close>

definition check_health_uncached ::
  "'n transport \<Rightarrow> string \<Rightarrow> 'n \<Rightarrow> ((bool \<times> kweb_error option) \<times> kweb_error option) \<times> 'n" where
  "check_health_uncached T base net =
     (case tr_wait T net of
        (Some err, net) \<Rightarrow> (((False, Some (RateLimited err)), Some (HttpErr err)), net)
      | (None, net) \<Rightarrow>
          (case tr_new_request T ''GET'' (base @ ''/host'') of
             Some err \<Rightarrow> (((False, Some (HttpErr err)), Some (HttpErr err)), net)
           | None \<Rightarrow>
               (case tr_do T ''GET'' (base @ ''/host'') [] net of
                  (Inl _, net) \<Rightarrow> (((False, Some ErrKwebUnreachable), Some ErrKwebUnreachable), net)
                | (Inr resp, net) \<Rightarrow>
                    (if hr_status resp = 200 then (((True, None), None), net)
                     else (((False, None), Some (HttpErr (''HTTP '' @ itoa (hr_status resp)))), net)))))"

definition client_check_health ::
  "'n transport \<Rightarrow> string \<Rightarrow> 'n Client \<Rightarrow> (bool \<times> kweb_error option) \<times> 'n Client" where
  "client_check_health T base c =
     (let (fresh, c) =
        (if cl_health_cached c then
           (case on_net (tr_now T) c of
              (now, c) \<Rightarrow> (time_sub now (cl_health_checked c) < health_cache_ttl, c))
         else (False, c)) in
      if fresh then ((cl_health_ok c, cl_health_err c), c)
      else
        (case on_net (check_health_uncached T base) c of
           ((hr, metric_err), c) \<Rightarrow>
             (case on_net (tr_now T) (record_kweb ''health_check'' metric_err c) of
                (now, c) \<Rightarrow>
                  (hr, c\<lparr>cl_health_cached := True, cl_health_ok := fst hr, cl_health_err := snd hr,
                         cl_health_checked := now\<rparr>))))"

definition kweb_ops :: "'n transport \<Rightarrow> string \<Rightarrow> 'n Client KwebClient" where
  "kweb_ops T base =
     \<lparr>kc_create_vm = client_create_vm T base, kc_list_vms = client_list_vms T base,
      kc_get_vm = client_get_vm T base, kc_delete_vm = client_delete_vm T base,
      kc_list_profiles = client_list_profiles T base,
      kc_create_cluster = client_create_cluster T base,
      kc_list_clusters = client_list_clusters T base, kc_get_cluster = client_get_cluster T base,
      kc_get_kubeconfig = client_get_kubeconfig T base,
      kc_delete_cluster = client_delete_cluster T base,
      kc_check_health = client_check_health T base\<rparr>"

section \<open>The contract\<close>

definition client_inv :: "'n Client \<Rightarrow> bool" where
  "client_inv c \<longleftrightarrow> (cl_health_err c \<noteq> None \<longrightarrow> \<not> cl_health_ok c)"

lemmas client_defs = client_create_vm_def client_list_vms_def client_get_vm_def client_delete_vm_def
  client_list_profiles_def client_create_cluster_def client_list_clusters_def client_get_cluster_def
  client_get_kubeconfig_def client_delete_cluster_def

lemma record_kweb_inv [simp]: "client_inv (record_kweb op err c) = client_inv c"
  by (simp add: client_inv_def record_kweb_def Let_def)

lemma on_net_inv: "client_inv c \<Longrightarrow> on_net f c = (r, c') \<Longrightarrow> client_inv c'"
  by (auto simp: client_inv_def on_net_def split: prod.splits)

lemma on_net_health:
  assumes "on_net f c = (r, c')"
  shows "cl_health_cached c' = cl_health_cached c" "cl_health_ok c' = cl_health_ok c"
    "cl_health_err c' = cl_health_err c" "cl_health_checked c' = cl_health_checked c"
    "cl_requests c' = cl_requests c"
  using assms by (auto simp: on_net_def split: prod.splits)

lemma health_uncached_err:
  "check_health_uncached T base net = ((((ok, Some e), m), net')) \<Longrightarrow> \<not> ok"
  by (auto simp: check_health_uncached_def split: prod.splits option.splits sum.splits if_splits)

lemma check_health_inv:
  assumes "client_inv c" "client_check_health T base c = ((ok, e), c')"
  shows "client_inv c'" and "e \<noteq> None \<Longrightarrow> \<not> ok"
proof -
  have u: "snd hr = None \<or> \<not> fst hr" if "on_net (check_health_uncached T base) d = ((hr, m), d')" for d hr m d'
    using that health_uncached_err [of T base "cl_net d" "fst hr"]
    by (cases hr; cases "snd hr") (auto simp: on_net_def split: prod.splits)
  from assms show "client_inv c'" "e \<noteq> None \<Longrightarrow> \<not> ok"
    by (auto simp: client_check_health_def client_inv_def Let_def dest: u on_net_health
        split: prod.splits if_splits)
qed

lemma parse_cluster_name: "parse_cluster name data = Inr cl \<Longrightarrow> ci_name cl = name"
  by (auto simp: parse_cluster_def empty_cluster_def Let_def split: option.splits if_splits)

lemma cluster_entry_name [simp]: "ci_name (cluster_entry name raw) = name"
  by (auto simp: cluster_entry_def empty_cluster_def split: option.splits)

lemma parse_cluster_list_distinct:
  "parse_cluster_list data = Inr cls \<Longrightarrow> distinct (map ci_name cls)"
  by (auto simp: parse_cluster_list_def map_keys_def comp_def split: option.splits)

lemma parse_profiles_distinct: "parse_profiles data = Inr ps \<Longrightarrow> distinct ps"
  by (auto simp: parse_profiles_def map_keys_def split: option.splits)

lemma parse_vm_name: "parse_vm data = Inr vm \<Longrightarrow> vi_name vm \<noteq> ''''"
  by (auto simp: parse_vm_def split: option.splits if_splits)

interpretation kweb: kweb_client "kweb_ops T base" client_inv for T base
proof (unfold_locales, unfold kweb_ops_def KwebClient.simps)
  fix k :: "'a Client" and n p kvs vm cl cls ok e and k' :: "'a Client"
  assume k: "client_inv k"
  show "vi_name vm \<noteq> ''''" if "client_get_vm T base n k = (Inr vm, k')"
    using that parse_vm_name by (auto simp: client_get_vm_def split: prod.splits sum.splits)
  show "ci_name cl = n" if "client_get_cluster T base n k = (Inr cl, k')"
    using that parse_cluster_name by (auto simp: client_get_cluster_def split: prod.splits sum.splits)
  show "distinct (map ci_name cls)" if "client_list_clusters T base k = (Inr cls, k')"
    using that parse_cluster_list_distinct
    by (auto simp: client_list_clusters_def split: prod.splits sum.splits)
  show "distinct ps" if "client_list_profiles T base k = (Inr ps, k')" for ps
    using that parse_profiles_distinct
    by (auto simp: client_list_profiles_def split: prod.splits sum.splits)
  show "\<not> ok" if "client_check_health T base k = ((ok, Some e), k')"
    using check_health_inv(2) [OF k that] by simp
  show "client_inv (snd (client_check_health T base k))"
    using check_health_inv(1) [OF k] by (metis prod.collapse)
  show "client_inv (snd (client_create_vm T base n p kvs k))"
    "client_inv (snd (client_list_vms T base k))"
    "client_inv (snd (client_get_vm T base n k))"
    "client_inv (snd (client_delete_vm T base n k))"
    "client_inv (snd (client_list_profiles T base k))"
    "client_inv (snd (client_create_cluster T base n p kvs k))"
    "client_inv (snd (client_list_clusters T base k))"
    "client_inv (snd (client_get_cluster T base n k))"
    "client_inv (snd (client_get_kubeconfig T base n k))"
    "client_inv (snd (client_delete_cluster T base n k))"
    using k by (auto simp: client_defs dest: on_net_inv split: prod.splits)
qed

section \<open>Properties\<close>

definition failure_body :: "string \<Rightarrow> bytes" where
  "failure_body reason = json_print (JObj [(''result'', JStr ''failure''), (''reason'', JStr reason)])"

lemma failure_body_parsed:
  assumes "valid_utf8 reason"
  shows "unmarshal_obj (failure_body reason) = Some [(''result'', JStr ''failure''), (''reason'', JStr reason)]"
proof -
  have "json_parse (failure_body reason) = Some (JObj [(''result'', JStr ''failure''), (''reason'', JStr reason)])"
    unfolding failure_body_def using assms
    by (intro json_roundtrip) (auto simp: utf8_len_ascii Let_def)
  then show ?thesis by (simp add: unmarshal_obj_def)
qed

lemma failure_body_marked: "str_contains (failure_body reason) ''failure''"
proof -
  have "failure_body reason =
    (''{'' @ json_quote ''result'' @ '':'' @ [CHR 0x22]) @ ''failure'' @
    ([CHR 0x22] @ '','' @ json_quote ''reason'' @ '':'' @ json_quote reason @ ''}'')"
    by (simp add: failure_body_def json_quote_def escape_ascii_def)
  then show ?thesis by (simp only: str_containsI)
qed



text \<open>
  The health cache. The verdict of a health check is repeated, without a request to kweb and
  without a change of the cache or the counters, as long as the clock stays within five seconds of
  the moment it was recorded; a check after that asks kweb and counts one request.
\<close>

theorem health_cache:
  assumes "client_check_health T base c = (hr, c')"
    and "tr_now T (cl_net c') = (now, net)"
  shows "if time_sub now (cl_health_checked c') < health_cache_ttl
    then client_check_health T base c' = (hr, c'\<lparr>cl_net := net\<rparr>)
    else (\<exists>res. cl_requests (snd (client_check_health T base c')) ''health_check'' res =
            Suc (cl_requests c' ''health_check'' res))"
proof -
  have cached: "cl_health_cached c'" "hr = (cl_health_ok c', cl_health_err c')"
    using assms(1)
    by (auto simp: client_check_health_def Let_def dest: on_net_health split: prod.splits if_splits)
  have now: "on_net (tr_now T) c' = (now, c'\<lparr>cl_net := net\<rparr>)"
    using assms(2) by (simp add: on_net_def)
  show ?thesis
  proof (cases "time_sub now (cl_health_checked c') < health_cache_ttl")
    case True
    with cached now show ?thesis by (simp add: client_check_health_def)
  next
    case False
    obtain hr2 m d where u: "on_net (check_health_uncached T base) (c'\<lparr>cl_net := net\<rparr>) = ((hr2, m), d)"
      by (metis surj_pair)
    obtain t d2 where t: "on_net (tr_now T) (record_kweb ''health_check'' m d) = (t, d2)" by force
    have "cl_requests d2 = cl_requests (record_kweb ''health_check'' m d)"
      using on_net_health(5) [OF t] .
    moreover have "cl_requests d = cl_requests c'" using on_net_health(5) [OF u] by simp
    moreover have "cl_requests (snd (client_check_health T base c')) = cl_requests d2"
      using cached now False u t by (simp add: client_check_health_def)
    ultimately have "\<exists>res. cl_requests (snd (client_check_health T base c')) ''health_check'' res =
            Suc (cl_requests c' ''health_check'' res)"
      by (auto simp: record_kweb_def Let_def)
    with False show ?thesis by simp
  qed
qed

text \<open>A kweb that is always up, with a clock that advances by a second at every reading.\<close>

definition up_transport :: "int transport" where
  "up_transport =
     \<lparr>tr_new_request = (\<lambda>meth url. None), tr_wait = (\<lambda>n. (None, n)),
      tr_do = (\<lambda>meth url body n. (Inr \<lparr>hr_status = 200, hr_body = ''{}'', hr_read_err = None\<rparr>, n)),
      tr_now = (\<lambda>n. (n, n + second))\<rparr>"

theorem health_cache_witness:
  "let (hr, c') = client_check_health up_transport ''http://kweb'' (new_client 0) in
   hr = (True, None) \<and>
   client_check_health up_transport ''http://kweb'' c' = (hr, c'\<lparr>cl_net := cl_net c' + second\<rparr>)"
proof -
  obtain hr c' where c: "client_check_health up_transport ''http://kweb'' (new_client 0) = (hr, c')"
    by (metis surj_pair)
  then have s: "hr = (True, None)" "cl_health_checked c' = 0" "cl_net c' = second"
    by (auto simp: client_check_health_def new_client_def on_net_def check_health_uncached_def
        up_transport_def record_kweb_def Let_def)
  have now: "tr_now up_transport (cl_net c') = (second, cl_net c' + second)"
    by (simp add: up_transport_def s)
  show ?thesis using health_cache [OF c now] s c
    by (simp add: time_sub_def health_cache_ttl_def second_def min_int64_def max_int64_def)
qed

end
