(* ===== verification/Api_Types.thy ===== *)
theory Api_Types
  imports Kweb
begin

text \<open>
  The data of the REST API (internal/api/server/server.gen.go): the schemas as records, a pointer
  being an option, the response objects of each operation, and the JSON codec of the two
  specifications, whose unknown members are kept as additional properties.

  A repeated member of a nested object is decoded onto the value that is already there, as
  \<open>encoding/json\<close> does; a repeated \<open>spec\<close> takes the last.
\<close>

section \<open>Schemas\<close>

record Access =
  ac_ssh_public_key :: "string option"

record GuestOS =
  go_type :: string

record Memory =
  me_size :: string

record ServiceMetadata =
  sm_labels :: "(string \<times> string) list option"
  sm_name :: string

record Disk =
  di_capacity :: string
  di_name :: string

record Storage =
  st_disks :: "Disk list option"

record Vcpu =
  vc_count :: "int option"

record NodeCount =
  nc_count :: "int option"

record Nodes =
  no_control_plane :: "NodeCount option"
  no_workers :: "NodeCount option"

type_synonym ProviderHints = obj

record VMSpec =
  vs_access :: "Access option"
  vs_guest_os :: "GuestOS option"
  vs_memory :: "Memory option"
  vs_metadata :: "ServiceMetadata option"
  vs_provider_hints :: "ProviderHints option"
  vs_service_type :: string
  vs_storage :: "Storage option"
  vs_vcpu :: "Vcpu option"
  vs_additional :: obj

record VM =
  vm_id :: "string option"
  vm_ip :: "string option"
  vm_path :: "string option"
  vm_spec :: VMSpec
  vm_ssh_user :: "string option"
  vm_status :: "string option"

record VMList =
  vl_next_page_token :: "string option"
  vl_results :: "VM list option"

record ClusterSpec =
  cs_metadata :: "ServiceMetadata option"
  cs_nodes :: "Nodes option"
  cs_provider_hints :: "ProviderHints option"
  cs_service_type :: string
  cs_version :: "string option"
  cs_additional :: obj

record Cluster =
  cl_api_endpoint :: "string option"
  cl_id :: "string option"
  cl_kubeconfig :: "string option"
  cl_path :: "string option"
  cl_spec :: ClusterSpec
  cl_status :: "string option"

record ClusterList =
  cll_next_page_token :: "string option"
  cll_results :: "Cluster list option"

record Error =
  er_detail :: "string option"
  er_instance :: "string option"
  er_status :: "int option"
  er_title :: string
  er_type :: string

datatype HealthStatus = Healthy | Unhealthy

text \<open>The uptime is kept as the duration it is computed from.\<close>

record Health =
  he_message :: "string option"
  he_status :: "HealthStatus option"
  he_uptime :: "duration option"
  he_version :: "string option"

record ListParams =
  lp_max_page_size :: "int option"
  lp_page_token :: "string option"

section \<open>Response objects\<close>

datatype ListVMsResponse =
    ListVMs200 VMList
  | ListVMsDefault Error int

datatype CreateVMResponse =
    CreateVM201 VM
  | CreateVM400 Error
  | CreateVM409 Error
  | CreateVMDefault Error int

datatype GetVMResponse =
    GetVM200 VM
  | GetVM404 Error
  | GetVMDefault Error int

datatype DeleteVMResponse =
    DeleteVM204
  | DeleteVM404 Error
  | DeleteVMDefault Error int

datatype ListClustersResponse =
    ListClusters200 ClusterList
  | ListClustersDefault Error int

datatype CreateClusterResponse =
    CreateCluster201 Cluster
  | CreateCluster400 Error
  | CreateCluster409 Error
  | CreateClusterDefault Error int

datatype GetClusterResponse =
    GetCluster200 Cluster
  | GetCluster404 Error
  | GetClusterDefault Error int

datatype DeleteClusterResponse =
    DeleteCluster204
  | DeleteCluster404 Error
  | DeleteClusterDefault Error int

datatype HealthResponse =
    Health200 Health
  | Health503 Health

section \<open>Encoding\<close>

definition opt_member :: "string \<Rightarrow> ('a \<Rightarrow> json) \<Rightarrow> 'a option \<Rightarrow> obj" where
  "opt_member name enc v = (case v of None \<Rightarrow> [] | Some x \<Rightarrow> [(name, enc x)])"

text \<open>A Go map is written with its keys in order.\<close>

definition map_json :: "obj \<Rightarrow> json" where
  "map_json ms = JObj (sort_key fst (AList.clearjunk ms))"

definition int_json :: "int \<Rightarrow> json" where "int_json i = JNum (itoa i)"

definition access_json :: "Access \<Rightarrow> json" where
  "access_json a = JObj (opt_member ''ssh_public_key'' JStr (ac_ssh_public_key a))"

definition guest_os_json :: "GuestOS \<Rightarrow> json" where
  "guest_os_json g = JObj [(''type'', JStr (go_type g))]"

definition memory_json :: "Memory \<Rightarrow> json" where
  "memory_json m = JObj [(''size'', JStr (me_size m))]"

definition metadata_json :: "ServiceMetadata \<Rightarrow> json" where
  "metadata_json m =
     JObj (opt_member ''labels'' (\<lambda>ls. map_json (map (\<lambda>(k, v). (k, JStr v)) ls)) (sm_labels m)
           @ [(''name'', JStr (sm_name m))])"

definition disk_json :: "Disk \<Rightarrow> json" where
  "disk_json d = JObj [(''capacity'', JStr (di_capacity d)), (''name'', JStr (di_name d))]"

definition storage_json :: "Storage \<Rightarrow> json" where
  "storage_json s = JObj (opt_member ''disks'' (\<lambda>ds. JArr (map disk_json ds)) (st_disks s))"

definition vcpu_json :: "Vcpu \<Rightarrow> json" where
  "vcpu_json v = JObj (opt_member ''count'' int_json (vc_count v))"

definition node_count_json :: "NodeCount \<Rightarrow> json" where
  "node_count_json n = JObj (opt_member ''count'' int_json (nc_count n))"

definition nodes_json :: "Nodes \<Rightarrow> json" where
  "nodes_json n =
     JObj (opt_member ''control_plane'' node_count_json (no_control_plane n)
           @ opt_member ''workers'' node_count_json (no_workers n))"

text \<open>
  \<open>MarshalJSON\<close> of the specifications: the members that are set, then the additional properties,
  which overwrite; the map they form is written in key order.
\<close>

definition vm_spec_json :: "VMSpec \<Rightarrow> json" where
  "vm_spec_json s =
     (let object =
        opt_member ''access'' access_json (vs_access s)
        @ opt_member ''guest_os'' guest_os_json (vs_guest_os s)
        @ opt_member ''memory'' memory_json (vs_memory s)
        @ opt_member ''metadata'' metadata_json (vs_metadata s)
        @ opt_member ''provider_hints'' (\<lambda>h. canon (JObj h)) (vs_provider_hints s)
        @ [(''service_type'', JStr (vs_service_type s))]
        @ opt_member ''storage'' storage_json (vs_storage s)
        @ opt_member ''vcpu'' vcpu_json (vs_vcpu s) in
      map_json (fold (\<lambda>(k, v) m. map_set k (canon v) m) (vs_additional s) object))"

definition cluster_spec_json :: "ClusterSpec \<Rightarrow> json" where
  "cluster_spec_json s =
     (let object =
        opt_member ''metadata'' metadata_json (cs_metadata s)
        @ opt_member ''nodes'' nodes_json (cs_nodes s)
        @ opt_member ''provider_hints'' (\<lambda>h. canon (JObj h)) (cs_provider_hints s)
        @ [(''service_type'', JStr (cs_service_type s))]
        @ opt_member ''version'' JStr (cs_version s) in
      map_json (fold (\<lambda>(k, v) m. map_set k (canon v) m) (cs_additional s) object))"

definition vm_json :: "VM \<Rightarrow> json" where
  "vm_json v =
     JObj (opt_member ''id'' JStr (vm_id v) @ opt_member ''ip'' JStr (vm_ip v)
           @ opt_member ''path'' JStr (vm_path v) @ [(''spec'', vm_spec_json (vm_spec v))]
           @ opt_member ''ssh_user'' JStr (vm_ssh_user v) @ opt_member ''status'' JStr (vm_status v))"

definition cluster_json :: "Cluster \<Rightarrow> json" where
  "cluster_json c =
     JObj (opt_member ''api_endpoint'' JStr (cl_api_endpoint c) @ opt_member ''id'' JStr (cl_id c)
           @ opt_member ''kubeconfig'' JStr (cl_kubeconfig c) @ opt_member ''path'' JStr (cl_path c)
           @ [(''spec'', cluster_spec_json (cl_spec c))] @ opt_member ''status'' JStr (cl_status c))"

definition vm_list_json :: "VMList \<Rightarrow> json" where
  "vm_list_json l =
     JObj (opt_member ''next_page_token'' JStr (vl_next_page_token l)
           @ opt_member ''results'' (\<lambda>vs. JArr (map vm_json vs)) (vl_results l))"

definition cluster_list_json :: "ClusterList \<Rightarrow> json" where
  "cluster_list_json l =
     JObj (opt_member ''next_page_token'' JStr (cll_next_page_token l)
           @ opt_member ''results'' (\<lambda>cs. JArr (map cluster_json cs)) (cll_results l))"

definition error_json :: "Error \<Rightarrow> json" where
  "error_json e =
     JObj (opt_member ''detail'' JStr (er_detail e) @ opt_member ''instance'' JStr (er_instance e)
           @ opt_member ''status'' int_json (er_status e)
           @ [(''title'', JStr (er_title e)), (''type'', JStr (er_type e))])"

section \<open>Decoding\<close>

text \<open>
  A pointer field is set by each occurrence of its member and cleared by \<open>null\<close>; the target of a
  pointer to a struct or a map is allocated once and then decoded onto.
\<close>

fun ptr_val :: "(json \<Rightarrow> 'a option) \<Rightarrow> 'a option \<Rightarrow> json list \<Rightarrow> 'a option option" where
  "ptr_val f acc [] = Some acc"
| "ptr_val f acc (v # vs) =
     (case v of
        JNull \<Rightarrow> ptr_val f None vs
      | _ \<Rightarrow> (case f v of None \<Rightarrow> None | Some x \<Rightarrow> ptr_val f (Some x) vs))"

fun ptr_obj :: "obj option \<Rightarrow> json list \<Rightarrow> obj option option" where
  "ptr_obj acc [] = Some acc"
| "ptr_obj acc (JNull # vs) = ptr_obj None vs"
| "ptr_obj acc (JObj ms # vs) =
     ptr_obj (Some (case acc of None \<Rightarrow> ms | Some old \<Rightarrow> old @ ms)) vs"
| "ptr_obj acc (_ # vs) = None"

fun map_opt :: "('a \<Rightarrow> 'b option) \<Rightarrow> 'a option \<Rightarrow> 'b option option" where
  "map_opt f None = Some None"
| "map_opt f (Some x) = (case f x of None \<Rightarrow> None | Some y \<Rightarrow> Some (Some y))"

definition ptr_struct :: "string \<Rightarrow> (obj \<Rightarrow> 'a option) \<Rightarrow> obj \<Rightarrow> 'a option option" where
  "ptr_struct name f ms = Option.bind (ptr_obj None (field_vals name ms)) (map_opt f)"

definition access_of :: "obj \<Rightarrow> Access option" where
  "access_of ms =
     map_option (\<lambda>k. \<lparr>ac_ssh_public_key = k\<rparr>) (ptr_val json_str None (field_vals ''ssh_public_key'' ms))"

definition guest_os_of :: "obj \<Rightarrow> GuestOS option" where
  "guest_os_of ms = map_option (\<lambda>t. \<lparr>go_type = t\<rparr>) (str_field ''type'' ms)"

definition memory_of :: "obj \<Rightarrow> Memory option" where
  "memory_of ms = map_option (\<lambda>t. \<lparr>me_size = t\<rparr>) (str_field ''size'' ms)"

text \<open>A map holds each key once, the last occurrence; it is listed in key order.\<close>

definition go_map :: "(string \<times> 'a) list \<Rightarrow> (string \<times> 'a) list" where
  "go_map ms = sort_key fst (AList.clearjunk (rev ms))"

definition labels_of :: "obj \<Rightarrow> (string \<times> string) list option" where
  "labels_of ms = map_option go_map (decode_all (\<lambda>(k, v). map_option (Pair k) (str_or_null v)) ms)"

definition metadata_of :: "obj \<Rightarrow> ServiceMetadata option" where
  "metadata_of ms =
     (case (ptr_struct ''labels'' labels_of ms, str_field ''name'' ms) of
        (Some labels, Some name) \<Rightarrow> Some \<lparr>sm_labels = labels, sm_name = name\<rparr>
      | _ \<Rightarrow> None)"

definition disk_of :: "json \<Rightarrow> Disk option" where
  "disk_of v =
     (case struct_of v of
        None \<Rightarrow> None
      | Some ms \<Rightarrow>
          (case (str_field ''capacity'' ms, str_field ''name'' ms) of
             (Some capacity, Some name) \<Rightarrow> Some \<lparr>di_capacity = capacity, di_name = name\<rparr>
           | _ \<Rightarrow> None))"

definition storage_of :: "obj \<Rightarrow> Storage option" where
  "storage_of ms =
     map_option (\<lambda>ds. \<lparr>st_disks = ds\<rparr>) (decode_slice disk_of None (field_vals ''disks'' ms))"

definition vcpu_of :: "obj \<Rightarrow> Vcpu option" where
  "vcpu_of ms = map_option (\<lambda>c. \<lparr>vc_count = c\<rparr>) (ptr_val json_int None (field_vals ''count'' ms))"

definition node_count_of :: "obj \<Rightarrow> NodeCount option" where
  "node_count_of ms = map_option (\<lambda>c. \<lparr>nc_count = c\<rparr>) (ptr_val json_int None (field_vals ''count'' ms))"

definition nodes_spec_of :: "obj \<Rightarrow> Nodes option" where
  "nodes_spec_of ms =
     (case (ptr_struct ''control_plane'' node_count_of ms, ptr_struct ''workers'' node_count_of ms) of
        (Some cp, Some ws) \<Rightarrow> Some \<lparr>no_control_plane = cp, no_workers = ws\<rparr>
      | _ \<Rightarrow> None)"

text \<open>An \<open>interface{}\<close> target: maps with each key once, at every level.\<close>

definition hints_of :: "obj \<Rightarrow> ProviderHints option" where
  "hints_of ms = struct_of (canon (JObj ms))"

text \<open>
  \<open>UnmarshalJSON\<close> of the specifications. The object is decoded into a map, so member names are
  exact here; \<open>member\<close> decodes one known member into its pointer, and what is left over becomes
  the additional properties.
\<close>

definition member :: "string \<Rightarrow> (obj \<Rightarrow> 'a option) \<Rightarrow> obj \<Rightarrow> 'a option option" where
  "member name f object =
     (case obj_get name object of
        None \<Rightarrow> Some None
      | Some JNull \<Rightarrow> Some None
      | Some (JObj ms) \<Rightarrow> map_option Some (f ms)
      | Some _ \<Rightarrow> None)"

definition str_member :: "string \<Rightarrow> obj \<Rightarrow> string option" where
  "str_member name object =
     (case obj_get name object of None \<Rightarrow> Some '''' | Some v \<Rightarrow> str_or_null v)"

definition str_ptr_member :: "string \<Rightarrow> obj \<Rightarrow> string option option" where
  "str_ptr_member name object =
     (case obj_get name object of
        None \<Rightarrow> Some None
      | Some JNull \<Rightarrow> Some None
      | Some (JStr s) \<Rightarrow> Some (Some s)
      | Some _ \<Rightarrow> None)"

definition leftover :: "string list \<Rightarrow> obj \<Rightarrow> obj" where
  "leftover known object =
     go_map (map (\<lambda>(k, v). (k, canon v)) (filter (\<lambda>(k, v). k \<notin> set known) object))"

definition vm_spec_known :: "string list" where
  "vm_spec_known = [''access'', ''guest_os'', ''memory'', ''metadata'', ''provider_hints'',
     ''service_type'', ''storage'', ''vcpu'']"

definition vm_spec_of :: "json \<Rightarrow> VMSpec option" where
  "vm_spec_of v =
     (case struct_of v of
        None \<Rightarrow> None
      | Some object \<Rightarrow>
          (case (member ''access'' access_of object, member ''guest_os'' guest_os_of object,
                 member ''memory'' memory_of object, member ''metadata'' metadata_of object) of
             (Some access, Some guest_os, Some memory, Some metadata) \<Rightarrow>
               (case (member ''provider_hints'' hints_of object, str_member ''service_type'' object,
                      member ''storage'' storage_of object, member ''vcpu'' vcpu_of object) of
                  (Some hints, Some service_type, Some storage, Some vcpu) \<Rightarrow>
                    Some \<lparr>vs_access = access, vs_guest_os = guest_os, vs_memory = memory,
                          vs_metadata = metadata, vs_provider_hints = hints,
                          vs_service_type = service_type, vs_storage = storage, vs_vcpu = vcpu,
                          vs_additional = leftover vm_spec_known object\<rparr>
                | _ \<Rightarrow> None)
           | _ \<Rightarrow> None))"

definition cluster_spec_known :: "string list" where
  "cluster_spec_known = [''metadata'', ''nodes'', ''provider_hints'', ''service_type'', ''version'']"

definition cluster_spec_of :: "json \<Rightarrow> ClusterSpec option" where
  "cluster_spec_of v =
     (case struct_of v of
        None \<Rightarrow> None
      | Some object \<Rightarrow>
          (case (member ''metadata'' metadata_of object, member ''nodes'' nodes_spec_of object,
                 member ''provider_hints'' hints_of object) of
             (Some metadata, Some nodes, Some hints) \<Rightarrow>
               (case (str_member ''service_type'' object, str_ptr_member ''version'' object) of
                  (Some service_type, Some version) \<Rightarrow>
                    Some \<lparr>cs_metadata = metadata, cs_nodes = nodes, cs_provider_hints = hints,
                          cs_service_type = service_type, cs_version = version,
                          cs_additional = leftover cluster_spec_known object\<rparr>
                | _ \<Rightarrow> None)
           | _ \<Rightarrow> None))"

definition empty_vm_spec :: VMSpec where
  "empty_vm_spec =
     \<lparr>vs_access = None, vs_guest_os = None, vs_memory = None, vs_metadata = None,
      vs_provider_hints = None, vs_service_type = '''', vs_storage = None, vs_vcpu = None,
      vs_additional = []\<rparr>"

definition empty_cluster_spec :: ClusterSpec where
  "empty_cluster_spec =
     \<lparr>cs_metadata = None, cs_nodes = None, cs_provider_hints = None, cs_service_type = '''',
      cs_version = None, cs_additional = []\<rparr>"

definition vm_of :: "json \<Rightarrow> VM option" where
  "vm_of v =
     (case struct_of v of
        None \<Rightarrow> None
      | Some ms \<Rightarrow>
          (case (ptr_val json_str None (field_vals ''id'' ms), ptr_val json_str None (field_vals ''ip'' ms),
                 ptr_val json_str None (field_vals ''path'' ms),
                 decode_vals vm_spec_of empty_vm_spec (field_vals ''spec'' ms)) of
             (Some i, Some ip, Some path, Some spec) \<Rightarrow>
               (case (ptr_val json_str None (field_vals ''ssh_user'' ms),
                      ptr_val json_str None (field_vals ''status'' ms)) of
                  (Some user, Some status) \<Rightarrow>
                    Some \<lparr>vm_id = i, vm_ip = ip, vm_path = path, vm_spec = spec, vm_ssh_user = user,
                          vm_status = status\<rparr>
                | _ \<Rightarrow> None)
           | _ \<Rightarrow> None))"

definition cluster_of :: "json \<Rightarrow> Cluster option" where
  "cluster_of v =
     (case struct_of v of
        None \<Rightarrow> None
      | Some ms \<Rightarrow>
          (case (ptr_val json_str None (field_vals ''api_endpoint'' ms),
                 ptr_val json_str None (field_vals ''id'' ms),
                 ptr_val json_str None (field_vals ''kubeconfig'' ms),
                 ptr_val json_str None (field_vals ''path'' ms)) of
             (Some ep, Some i, Some kc, Some path) \<Rightarrow>
               (case (decode_vals cluster_spec_of empty_cluster_spec (field_vals ''spec'' ms),
                      ptr_val json_str None (field_vals ''status'' ms)) of
                  (Some spec, Some status) \<Rightarrow>
                    Some \<lparr>cl_api_endpoint = ep, cl_id = i, cl_kubeconfig = kc, cl_path = path,
                          cl_spec = spec, cl_status = status\<rparr>
                | _ \<Rightarrow> None)
           | _ \<Rightarrow> None))"

end
