(* ===== verification/Helpers.thy ===== *)
theory Helpers
  imports Api_Types
begin

text \<open>
  The helpers of internal/api/server/helpers.go and impl.go: problem details, the allowlist through
  which provider hints reach kweb, the memory size, the tables of cluster types and the names.
\<close>

section \<open>Problem details\<close>

definition status_text :: "int \<Rightarrow> string" where
  "status_text code =
     (if code = 400 then ''Bad Request''
      else if code = 404 then ''Not Found''
      else if code = 409 then ''Conflict''
      else if code = 500 then ''Internal Server Error''
      else if code = 502 then ''Bad Gateway''
      else ''Error'')"

definition problem_error :: "int \<Rightarrow> string \<Rightarrow> Error" where
  "problem_error status detail =
     \<lparr>er_detail = Some detail, er_instance = None, er_status = Some status,
      er_title = status_text status, er_type = ''about:blank''\<rparr>"

section \<open>Identifiers and names\<close>

definition dcm_prefix :: string where "dcm_prefix = ''dcm-''"

text \<open>An ID given by the client, unless it is empty; otherwise a fresh UUID.\<close>

definition given :: "string option \<Rightarrow> string option" where
  "given client_id = (case client_id of None \<Rightarrow> None | Some i \<Rightarrow> (if i = '''' then None else Some i))"

definition resolve_id :: "string option \<Rightarrow> string \<Rightarrow> string" where
  "resolve_id client_id uuid = (case given client_id of Some i \<Rightarrow> i | None \<Rightarrow> uuid)"

definition truncate63 :: "string \<Rightarrow> string" where
  "truncate63 name = (if 63 < length name then take 63 name else name)"

definition resolve_name :: "ServiceMetadata option \<Rightarrow> string option \<Rightarrow> string \<Rightarrow> string" where
  "resolve_name metadata client_id uuid =
     (let fallback = (case given client_id of Some i \<Rightarrow> truncate63 i | None \<Rightarrow> take 8 uuid) in
      case metadata of
        Some m \<Rightarrow> (if sm_name m \<noteq> '''' then sm_name m else fallback)
      | None \<Rightarrow> fallback)"

section \<open>Provider hints\<close>

definition allowed_kcli_hint_keys :: "string list" where
  "allowed_kcli_hint_keys =
     [''image'', ''network'', ''pool'', ''numcpus'',
      ''memory'', ''disks'', ''nets'', ''dns'',
      ''domain'', ''reservedns'', ''reservehost'',
      ''start'', ''keys'', ''iso'', ''cloudinit'',
      ''autostart'', ''flavor'', ''storemetadata'',
      ''sharedfolders'', ''kernel'', ''initrd'',
      ''cmdline'', ''placement'', ''yamlinventory'',
      ''cpuhotplug'', ''memoryhotplug'', ''numa'',
      ''pcidevices'', ''tpm'', ''rng'', ''zerotier_net'',
      ''virttype'', ''tags'',
      ''ctlplanes'', ''workers'', ''version'',
      ''sdn'', ''network_type'', ''api_ip'']"

fun slice_contains :: "string list \<Rightarrow> string \<Rightarrow> bool" where
  "slice_contains [] s = False"
| "slice_contains (v # ss) s = (v = s \<or> slice_contains ss s)"

lemma slice_contains_iff [simp]: "slice_contains ss s \<longleftrightarrow> s \<in> set ss"
  by (induction ss) auto

text \<open>The \<open>kcli\<close> section of the hints, when it is an object.\<close>

definition kcli_section :: "ProviderHints option \<Rightarrow> obj option" where
  "kcli_section hints =
     (case hints of
        None \<Rightarrow> None
      | Some h \<Rightarrow> (case obj_get ''kcli'' h of Some (JObj m) \<Rightarrow> Some m | _ \<Rightarrow> None))"

fun merge_hints :: "string list \<Rightarrow> obj \<Rightarrow> params \<Rightarrow> params" where
  "merge_hints exclude_keys [] params = params"
| "merge_hints exclude_keys ((k, v) # m) params =
     (if slice_contains exclude_keys k then merge_hints exclude_keys m params
      else if k \<notin> set allowed_kcli_hint_keys then merge_hints exclude_keys m params
      else if map_of params k = None then merge_hints exclude_keys m (map_set k v params)
      else merge_hints exclude_keys m params)"

definition merge_kcli_hints :: "ProviderHints option \<Rightarrow> params \<Rightarrow> string list \<Rightarrow> params" where
  "merge_kcli_hints hints params exclude_keys =
     (case kcli_section hints of None \<Rightarrow> params | Some m \<Rightarrow> merge_hints exclude_keys m params)"

text \<open>A string hint that overrides what the specification says.\<close>

definition hint_string :: "string \<Rightarrow> ProviderHints option \<Rightarrow> string option" where
  "hint_string key hints =
     (case kcli_section hints of
        None \<Rightarrow> None
      | Some m \<Rightarrow> given (as_string (obj_get key m)))"

section \<open>Memory sizes\<close>

text \<open>
  The result is the value and whether there was an error; the product wraps at 64 bits. On a
  malformed number \<open>Atoi\<close> returns 0 and, out of range, the nearest bound, with an error: the
  caller ignores the value then, so an error carries none here.
\<close>

definition parse_memory_size :: "string \<Rightarrow> int option" where
  "parse_memory_size sz =
     (let sz = trim_space sz in
      if has_suffix sz ''TB'' then
        map_option (\<lambda>v. wrap64 (wrap64 (v * 1024) * 1024)) (atoi (trim_suffix sz ''TB''))
      else if has_suffix sz ''GB'' then
        map_option (\<lambda>v. wrap64 (v * 1024)) (atoi (trim_suffix sz ''GB''))
      else if has_suffix sz ''MB'' then atoi (trim_suffix sz ''MB'')
      else None)"

section \<open>Cluster types\<close>

definition supported_cluster_types :: "(string \<times> string) list" where
  "supported_cluster_types =
     [(''generic'', ''generic''), (''k3s'', ''k3s''), (''openshift'', ''openshift''),
      (''microshift'', ''microshift''), (''hypershift'', ''hypershift'')]"

definition rejected_cluster_types :: "string list" where
  "rejected_cluster_types = [''kind'']"

text \<open>Go joins the names in an unspecified order.\<close>

definition join_supported_types :: string where
  "join_supported_types = join '', '' (map fst supported_cluster_types)"

definition resolve_cluster_type :: "ClusterSpec \<Rightarrow> string" where
  "resolve_cluster_type spec =
     (case hint_string ''cluster_type'' (cs_provider_hints spec) of
        Some ct \<Rightarrow> ct
      | None \<Rightarrow> ''generic'')"

definition resolve_vm_profile :: "VMSpec \<Rightarrow> string" where
  "resolve_vm_profile spec =
     (case hint_string ''profile'' (vs_provider_hints spec) of
        Some p \<Rightarrow> p
      | None \<Rightarrow>
          (case vs_guest_os spec of
             Some os \<Rightarrow> go_type os
           | None \<Rightarrow> ''fedora41''))"

definition resolve_vm_name :: "VMSpec \<Rightarrow> string option \<Rightarrow> string \<Rightarrow> string" where
  "resolve_vm_name spec client_id uuid = resolve_name (vs_metadata spec) client_id uuid"

definition resolve_cluster_name :: "ClusterSpec \<Rightarrow> string option \<Rightarrow> string \<Rightarrow> string" where
  "resolve_cluster_name spec client_id uuid = resolve_name (cs_metadata spec) client_id uuid"

section \<open>Lemmas\<close>

definition blocked_keys :: "string list" where
  "blocked_keys = [''cmds'', ''scripts'', ''files'', ''rhnregister'', ''networkwait'', ''enableroot'', ''rootpassword'']"

lemma blocked_not_allowed: "k \<in> set blocked_keys \<Longrightarrow> k \<notin> set allowed_kcli_hint_keys"
  by (auto simp: blocked_keys_def allowed_kcli_hint_keys_def)

lemma distinct_map_of_rev: "distinct (map fst ms) \<Longrightarrow> map_of (rev ms) = map_of ms"
  by (rule map_of_inject_set [THEN iffD2]) (simp_all flip: rev_map)

lemma merge_hints_map_of:
  "map_of (merge_hints ex m params) k =
     (case map_of params k of
        Some v \<Rightarrow> Some v
      | None \<Rightarrow> (if k \<notin> set ex \<and> k \<in> set allowed_kcli_hint_keys then map_of m k else None))"
  by (induction ex m params rule: merge_hints.induct) (auto split: option.splits)

lemma merge_kcli_hints_map_of:
  "map_of (merge_kcli_hints hints params ex) k =
     (case map_of params k of
        Some v \<Rightarrow> Some v
      | None \<Rightarrow>
          (if k \<notin> set ex \<and> k \<in> set allowed_kcli_hint_keys
           then Option.bind (kcli_section hints) (\<lambda>m. map_of m k) else None))"
  by (auto simp: merge_kcli_hints_def merge_hints_map_of split: option.splits)

lemma merge_hints_distinct:
  "distinct (map fst params) \<Longrightarrow> distinct (map fst (merge_hints ex m params))"
  by (induction ex m params rule: merge_hints.induct) auto

lemma merge_kcli_hints_distinct:
  "distinct (map fst params) \<Longrightarrow> distinct (map fst (merge_kcli_hints hints params ex))"
  by (auto simp: merge_kcli_hints_def intro: merge_hints_distinct split: option.splits)

lemma allowed_keys_safe:
  "''name'' \<notin> set allowed_kcli_hint_keys" "''profile'' \<notin> set allowed_kcli_hint_keys"
  "''cluster'' \<notin> set allowed_kcli_hint_keys" "''kubetype'' \<notin> set allowed_kcli_hint_keys"
  "''parameters[memory]'' \<notin> set allowed_kcli_hint_keys"
  "''parameters[numcpus]'' \<notin> set allowed_kcli_hint_keys"
  "''parameters[keys]'' \<notin> set allowed_kcli_hint_keys"
  by (simp_all add: allowed_kcli_hint_keys_def)

lemma add_params_map_of:
  "map_of (add_params params body) k = (case map_of (rev params) k of Some v \<Rightarrow> Some v | None \<Rightarrow> map_of body k)"
  unfolding add_params_def
proof (induction params arbitrary: body)
  case Nil
  then show ?case by simp
next
  case (Cons p ps)
  obtain a b where "p = (a, b)" by force
  with Cons show ?case by (auto simp: map_add_def split: option.splits)
qed

lemma add_params_distinct:
  "distinct (map fst params) \<Longrightarrow>
   map_of (add_params params body) k = (case map_of params k of Some v \<Rightarrow> Some v | None \<Rightarrow> map_of body k)"
  by (simp add: add_params_map_of distinct_map_of_rev)

lemma itoa_hd: "hd (itoa i) = CHR ''-'' \<or> is_digit (hd (itoa i))" "itoa i \<noteq> []"
  by (simp_all add: itoa_def nat_str_hd_digit)

lemma hd_itoa_not_space: "hd (itoa i) \<notin> set (map hd space_seqs)"
  using itoa_hd(1) [of i] by (auto simp: space_seqs_def is_digit_def)

lemma trim_space_size:
  assumes "u \<in> {''MB'', ''GB'', ''TB''}"
  shows "trim_space (itoa i @ u) = itoa i @ u"
proof (rule trim_space_id)
  show "itoa i @ u \<noteq> []" using assms by auto
  show "hd (itoa i @ u) \<notin> set (map hd space_seqs)"
    using hd_itoa_not_space [of i] itoa_hd(2) [of i] by simp
  show "last (itoa i @ u) \<notin> set (map last space_seqs)"
    using assms by (auto simp: space_seqs_def)
qed

lemma unit_suffixes:
  "has_suffix (s @ ''MB'') ''TB'' = False" "has_suffix (s @ ''MB'') ''GB'' = False"
  "has_suffix (s @ ''GB'') ''TB'' = False"
  by (simp_all add: has_suffix_def suffix_def)

definition mb_per :: "string \<Rightarrow> int" where
  "mb_per u = (if u = ''TB'' then 1048576 else if u = ''GB'' then 1024 else 1)"

lemma parse_memory_value:
  assumes "u \<in> {''MB'', ''GB'', ''TB''}"
  shows "parse_memory_size (itoa n @ u) =
      (if min_int64 \<le> n \<and> n \<le> max_int64 then Some (wrap64 (n * mb_per u)) else None)"
  using assms
  by (auto simp: parse_memory_size_def trim_space_size unit_suffixes atoi_itoa_any wrap64_mult
      wrap64_id mb_per_def mult.assoc)

section \<open>Properties\<close>

text \<open>
  C35: a memory size is read as the number of megabytes it names: for every count and unit, the
  result is the count times the megabytes of the unit, reduced to 64 bits, and so exactly that
  product whenever it fits; a count that does not fit in 64 bits itself is an error.
\<close>

theorem memory_size_value:
  assumes "u \<in> {''MB'', ''GB'', ''TB''}"
  shows "parse_memory_size (itoa n @ u) =
      (if min_int64 \<le> n \<and> n \<le> max_int64 then Some (wrap64 (n * mb_per u)) else None) \<and>
    (min_int64 \<le> n * mb_per u \<and> n * mb_per u \<le> max_int64 \<longrightarrow>
      parse_memory_size (itoa n @ u) = Some (n * mb_per u))"
proof -
  note p = parse_memory_value [OF assms]
  have "min_int64 \<le> n \<and> n \<le> max_int64" if "min_int64 \<le> n * mb_per u" "n * mb_per u \<le> max_int64"
    using that assms by (auto simp: mb_per_def min_int64_def max_int64_def)
  with p wrap64_id show ?thesis by auto
qed

theorem memory_size_value_witness:
  "''GB'' \<in> {''MB'', ''GB'', ''TB''} \<and> parse_memory_size (itoa 16 @ ''GB'') = Some 16384"
  using memory_size_value [of "''GB''" 16] by (simp add: mb_per_def min_int64_def max_int64_def wrap64_def)

text \<open>
  the product is not guarded against overflow: a request for 18014398509481985 GB, which is
  one gigabyte more than 2 to the power of 64 megabytes, is read as a request for 1024 MB.
\<close>

theorem memory_size_wraps: "parse_memory_size ''18014398509481985GB'' = Some 1024"
proof -
  have "itoa 18014398509481985 = ''18014398509481985''"
    by (simp add: itoa_def nat_str.simps digit_char_def char_of_def bit_Suc_0_iff)
  then show ?thesis
    using parse_memory_value [of "''GB''" 18014398509481985]
    by (simp add: mb_per_def wrap64_def min_int64_def max_int64_def)
qed

end
