(* ===== verification/Events.thy ===== *)
theory Events
  imports GoTime Json
begin

text \<open>
  Publishing of status events (internal/events/publisher.go): the event, the \<open>Publisher\<close> interface
  as a record with its contract as locales, the NATS-backed publisher and the no-op one.

  The NATS connection and the CloudEvents SDK are not part of the repository: they are the
  parameter \<open>N\<close>, and the locale \<open>nats_contract\<close> states what the publisher relies on.
\<close>

section \<open>Events and the interface\<close>

record StatusEvent =
  ev_id :: string
  ev_status :: string
  ev_message :: string
  ev_timestamp :: time

datatype pub_error =
    CtxErr string
  | NotConnectedError string
  | SetDataErr
  | MarshalErr string
  | NatsErr string

definition vm_subject :: string where "vm_subject = ''dcm.vm''"
definition cluster_subject :: string where "cluster_subject = ''dcm.cluster''"
definition vm_source :: string where "vm_source = ''dcm/providers/kcli-vm''"
definition cluster_source :: string where "cluster_source = ''dcm/providers/kcli-cluster''"
definition vm_event_type :: string where "vm_event_type = ''dcm.status.vm''"
definition cluster_event_type :: string where "cluster_event_type = ''dcm.status.cluster''"

text \<open>The first argument of a publishing method is \<open>ctx.Err()\<close> at the time of the call.\<close>

record 'p Publisher =
  pub_vm_event :: "string option \<Rightarrow> StatusEvent \<Rightarrow> 'p \<Rightarrow> pub_error option \<times> 'p"
  pub_cluster_event :: "string option \<Rightarrow> StatusEvent \<Rightarrow> 'p \<Rightarrow> pub_error option \<times> 'p"
  pub_close :: "'p \<Rightarrow> 'p"
  pub_connected :: "'p \<Rightarrow> bool"

text \<open>\<open>encoding/json\<close> of an event; it fails on a year of more than four digits.\<close>

definition event_bytes :: "StatusEvent \<Rightarrow> bytes option" where
  "event_bytes e =
     (case fmt_time (ev_timestamp e) of
        None \<Rightarrow> None
      | Some t \<Rightarrow>
          Some (json_print (JObj [(''id'', JStr (ev_id e)), (''status'', JStr (ev_status e)),
                  (''message'', JStr (ev_message e)), (''timestamp'', JStr t)])))"

definition event_ok :: "StatusEvent \<Rightarrow> bool" where
  "event_ok e \<longleftrightarrow>
     valid_utf8 (ev_id e) \<and> valid_utf8 (ev_status e) \<and> valid_utf8 (ev_message e) \<and>
     fmt_time (ev_timestamp e) \<noteq> None"

text \<open>What a subscriber reads back from the data of an event.\<close>

fun ev_time :: "json \<Rightarrow> time option" where
  "ev_time (JStr s) = parse_time s"
| "ev_time _ = None"

definition event_of_bytes :: "bytes \<Rightarrow> StatusEvent option" where
  "event_of_bytes data =
     (case unmarshal_obj data of
        None \<Rightarrow> None
      | Some ms \<Rightarrow>
          (case (str_field ''id'' ms, str_field ''status'' ms, str_field ''message'' ms,
                 decode_vals ev_time 0 (field_vals ''timestamp'' ms)) of
             (Some i, Some st, Some m, Some t) \<Rightarrow>
               Some \<lparr>ev_id = i, ev_status = st, ev_message = m, ev_timestamp = t\<rparr>
           | _ \<Rightarrow> None))"

lemma event_fields:
  "str_field ''id'' [(''id'', JStr a), (''status'', JStr b), (''message'', JStr c), (''timestamp'', JStr t)] = Some a"
  "str_field ''status'' [(''id'', JStr a), (''status'', JStr b), (''message'', JStr c), (''timestamp'', JStr t)] = Some b"
  "str_field ''message'' [(''id'', JStr a), (''status'', JStr b), (''message'', JStr c), (''timestamp'', JStr t)] = Some c"
  "field_vals ''timestamp'' [(''id'', JStr a), (''status'', JStr b), (''message'', JStr c), (''timestamp'', JStr t)] = [JStr t]"
  by (simp_all add: str_field_def field_vals_def equal_fold_def fold_case_ascii lower_char_def Let_def)

lemma event_of_bytes_ok:
  assumes "event_ok e" and "event_bytes e = Some data"
  shows "event_of_bytes data = Some e"
proof -
  from assms(2) obtain t where t: "fmt_time (ev_timestamp e) = Some t"
    and data: "data = json_print (JObj [(''id'', JStr (ev_id e)), (''status'', JStr (ev_status e)),
                  (''message'', JStr (ev_message e)), (''timestamp'', JStr t)])"
    by (auto simp: event_bytes_def split: option.splits)
  have "valid_utf8 t" using fmt_time_ascii [OF t] by (rule valid_utf8_ascii)
  then have "json_parse data = Some (JObj [(''id'', JStr (ev_id e)), (''status'', JStr (ev_status e)),
                  (''message'', JStr (ev_message e)), (''timestamp'', JStr t)])"
    unfolding data using assms(1)
    by (intro json_roundtrip) (auto simp: event_ok_def utf8_len_ascii Let_def)
  then show ?thesis
    by (simp add: event_of_bytes_def unmarshal_obj_def event_fields parse_fmt_time [OF t])
qed

text \<open>
  The contract of a publisher. \<open>sent\<close> is the sequence of events that left the provider, with their
  subjects. A publishing call sends the event at most once and nothing else, a failed one sends
  nothing; a reliable publisher has sent the event whenever the call reports success.
\<close>

locale publisher =
  fixes P :: "'p Publisher"
    and sent :: "'p \<Rightarrow> (string \<times> StatusEvent) list"
  assumes vm_event_sent:
      "event_ok e \<Longrightarrow> pub_vm_event P cx e p = (r, p') \<Longrightarrow>
       sent p' = sent p \<or> r = None \<and> sent p' = sent p @ [(vm_subject, e)]"
    and cluster_event_sent:
      "event_ok e \<Longrightarrow> pub_cluster_event P cx e p = (r, p') \<Longrightarrow>
       sent p' = sent p \<or> r = None \<and> sent p' = sent p @ [(cluster_subject, e)]"

locale reliable_publisher = publisher +
  assumes vm_event_ok:
      "event_ok e \<Longrightarrow> pub_vm_event P cx e p = (None, p') \<Longrightarrow> sent p' = sent p @ [(vm_subject, e)]"
    and cluster_event_ok:
      "event_ok e \<Longrightarrow> pub_cluster_event P cx e p = (None, p') \<Longrightarrow>
       sent p' = sent p @ [(cluster_subject, e)]"

section \<open>The NATS publisher\<close>

record CloudEvent =
  ce_id :: string
  ce_source :: string
  ce_type :: string
  ce_subject :: string
  ce_data :: bytes

text \<open>
  \<open>na_uuid\<close> is \<open>uuid.New\<close>, which draws from the environment; \<open>na_encode\<close> is \<open>json.Marshal\<close> of the
  SDK's event.
\<close>

record 'c nats =
  na_connect :: "string \<Rightarrow> string + 'c"
  na_connected :: "'c \<Rightarrow> bool"
  na_uuid :: "'c \<Rightarrow> string \<times> 'c"
  na_encode :: "CloudEvent \<Rightarrow> string + bytes"
  na_publish :: "string \<Rightarrow> bytes \<Rightarrow> 'c \<Rightarrow> string option \<times> 'c"
  na_flush :: "'c \<Rightarrow> 'c"
  na_close :: "'c \<Rightarrow> 'c"

text \<open>
  \<open>np_published\<close> is the counter \<open>NATSEventsPublished\<close> by event type; \<open>np_left\<close> is the connection
  as \<open>Close\<close> left it, when it has run.
\<close>

record 'c NATSPublisher =
  np_conn :: "'c option"
  np_left :: "'c option"
  np_published :: "string \<Rightarrow> nat"

definition new_nats_publisher :: "'c nats \<Rightarrow> string \<Rightarrow> string + 'c NATSPublisher" where
  "new_nats_publisher N nats_url =
     (case na_connect N nats_url of
        Inl err \<Rightarrow> Inl (''connecting to NATS: '' @ err)
      | Inr conn \<Rightarrow> Inr \<lparr>np_conn = Some conn, np_left = None, np_published = (\<lambda>_. 0)\<rparr>)"

definition np_is_connected :: "'c nats \<Rightarrow> 'c NATSPublisher \<Rightarrow> bool" where
  "np_is_connected N p = (case np_conn p of None \<Rightarrow> False | Some conn \<Rightarrow> na_connected N conn)"

definition np_publish ::
  "'c nats \<Rightarrow> string \<Rightarrow> string \<Rightarrow> string \<Rightarrow> StatusEvent \<Rightarrow> 'c \<Rightarrow> pub_error option \<times> 'c" where
  "np_publish N subject source event_type data conn =
     (case na_uuid N conn of
        (i, conn) \<Rightarrow>
          (case event_bytes data of
             None \<Rightarrow> (Some SetDataErr, conn)
           | Some bs \<Rightarrow>
               (case na_encode N \<lparr>ce_id = i, ce_source = source, ce_type = event_type,
                                  ce_subject = subject, ce_data = bs\<rparr> of
                  Inl err \<Rightarrow> (Some (MarshalErr err), conn)
                | Inr payload \<Rightarrow>
                    (case na_publish N subject payload conn of
                       (None, conn) \<Rightarrow> (None, conn)
                     | (Some err, conn) \<Rightarrow> (Some (NatsErr err), conn)))))"

definition np_publish_event ::
  "'c nats \<Rightarrow> string \<Rightarrow> string \<Rightarrow> string \<Rightarrow> string \<Rightarrow> string option \<Rightarrow> StatusEvent \<Rightarrow>
   'c NATSPublisher \<Rightarrow> pub_error option \<times> 'c NATSPublisher" where
  "np_publish_event N what subject source event_type ctx_err event p =
     (case ctx_err of
        Some err \<Rightarrow> (Some (CtxErr err), p)
      | None \<Rightarrow>
          (if \<not> np_is_connected N p then
             (Some (NotConnectedError (''publishing '' @ what @ '' event'')), p)
           else
             (case np_conn p of
                None \<Rightarrow> (Some (NotConnectedError (''publishing '' @ what @ '' event'')), p)
              | Some conn \<Rightarrow>
                  (case np_publish N subject source event_type event conn of
                     (err, conn) \<Rightarrow>
                       (err, p\<lparr>np_conn := Some conn,
                               np_published :=
                                 (if err = None
                                  then (np_published p)(event_type := np_published p event_type + 1)
                                  else np_published p)\<rparr>)))))"

definition np_publish_vm_event ::
  "'c nats \<Rightarrow> string option \<Rightarrow> StatusEvent \<Rightarrow> 'c NATSPublisher \<Rightarrow> pub_error option \<times> 'c NATSPublisher" where
  "np_publish_vm_event N = np_publish_event N ''VM'' vm_subject vm_source vm_event_type"

definition np_publish_cluster_event ::
  "'c nats \<Rightarrow> string option \<Rightarrow> StatusEvent \<Rightarrow> 'c NATSPublisher \<Rightarrow> pub_error option \<times> 'c NATSPublisher" where
  "np_publish_cluster_event N =
     np_publish_event N ''cluster'' cluster_subject cluster_source cluster_event_type"

definition np_close :: "'c nats \<Rightarrow> 'c NATSPublisher \<Rightarrow> 'c NATSPublisher" where
  "np_close N p =
     (case np_conn p of
        None \<Rightarrow> p
      | Some conn \<Rightarrow> p\<lparr>np_conn := None, np_left := Some (na_close N (na_flush N conn))\<rparr>)"

definition nats_publisher :: "'c nats \<Rightarrow> 'c NATSPublisher Publisher" where
  "nats_publisher N =
     \<lparr>pub_vm_event = np_publish_vm_event N, pub_cluster_event = np_publish_cluster_event N,
      pub_close = np_close N, pub_connected = np_is_connected N\<rparr>"

text \<open>
  The contract of the connection. \<open>wire\<close> is what it accepted for delivery, \<open>decode\<close> is how a
  subscriber reads a CloudEvent.
\<close>

locale nats_contract =
  fixes N :: "'c nats"
    and wire :: "'c \<Rightarrow> (string \<times> bytes) list"
    and decode :: "bytes \<Rightarrow> CloudEvent option"
  assumes encode_decode: "na_encode N ce = Inr payload \<Longrightarrow> decode payload = Some ce"
    and uuid_wire: "na_uuid N c = (i, c') \<Longrightarrow> wire c' = wire c"
    and publish_wire: "na_publish N s payload c = (None, c') \<Longrightarrow> wire c' = wire c @ [(s, payload)]"
    and publish_err_wire: "na_publish N s payload c = (Some err, c') \<Longrightarrow> wire c' = wire c"

definition subscribed ::
  "(bytes \<Rightarrow> CloudEvent option) \<Rightarrow> (string \<times> bytes) list \<Rightarrow> (string \<times> StatusEvent) list" where
  "subscribed decode msgs =
     List.map_filter
       (\<lambda>(s, payload).
          case decode payload of
            None \<Rightarrow> None
          | Some ce \<Rightarrow> (case event_of_bytes (ce_data ce) of None \<Rightarrow> None | Some e \<Rightarrow> Some (s, e)))
       msgs"

definition nats_sent ::
  "('c \<Rightarrow> (string \<times> bytes) list) \<Rightarrow> (bytes \<Rightarrow> CloudEvent option) \<Rightarrow> 'c NATSPublisher \<Rightarrow>
   (string \<times> StatusEvent) list" where
  "nats_sent wire decode p =
     subscribed decode
       (case np_conn p of
          Some conn \<Rightarrow> wire conn
        | None \<Rightarrow> (case np_left p of Some conn \<Rightarrow> wire conn | None \<Rightarrow> []))"

lemma subscribed_append: "subscribed decode (xs @ ys) = subscribed decode xs @ subscribed decode ys"
  by (simp add: subscribed_def List.map_filter_def)

context nats_contract
begin

lemma np_publish_sent:
  assumes "event_ok e" and "np_publish N s source ty e c = (r, c')"
  shows "subscribed decode (wire c') = subscribed decode (wire c) @ (if r = None then [(s, e)] else [])"
proof -
  obtain i c1 where u: "na_uuid N c = (i, c1)" by force
  have w1: "wire c1 = wire c" using u by (rule uuid_wire)
  from assms(1) obtain bs where bs: "event_bytes e = Some bs"
    by (auto simp: event_ok_def event_bytes_def)
  let ?ce = "\<lparr>ce_id = i, ce_source = source, ce_type = ty, ce_subject = s, ce_data = bs\<rparr>"
  show ?thesis
  proof (cases "na_encode N ?ce")
    case (Inl err)
    with assms(2) u bs w1 show ?thesis by (auto simp: np_publish_def)
  next
    case (Inr payload)
    obtain q c2 where q: "na_publish N s payload c1 = (q, c2)" by force
    have "subscribed decode [(s, payload)] = [(s, e)]"
      using encode_decode [OF Inr] event_of_bytes_ok [OF assms(1) bs]
      by (simp add: subscribed_def List.map_filter_def)
    with assms(2) u bs Inr q w1 publish_wire [of s payload c1 c2] publish_err_wire [of s payload c1 _ c2]
    show ?thesis by (cases q) (auto simp: np_publish_def subscribed_append)
  qed
qed

lemma np_publish_event_sent:
  assumes "event_ok e" and "np_publish_event N what s source ty cx e p = (r, p')"
  shows "nats_sent wire decode p' = nats_sent wire decode p @ (if r = None then [(s, e)] else [])"
  using assms np_publish_sent [OF assms(1)]
  by (fastforce simp: np_publish_event_def nats_sent_def np_is_connected_def
      split: option.splits if_splits prod.splits)

end

sublocale nats_contract \<subseteq> pub: reliable_publisher "nats_publisher N" "nats_sent wire decode"
proof (unfold_locales, unfold nats_publisher_def Publisher.simps np_publish_vm_event_def np_publish_cluster_event_def)
  fix e cx r p p'
  assume e: "event_ok e"
  show "nats_sent wire decode p' = nats_sent wire decode p \<or>
      r = None \<and> nats_sent wire decode p' = nats_sent wire decode p @ [(vm_subject, e)]"
    if "np_publish_event N ''VM'' vm_subject vm_source vm_event_type cx e p = (r, p')"
    using np_publish_event_sent [OF e that] by simp
  show "nats_sent wire decode p' = nats_sent wire decode p \<or>
      r = None \<and> nats_sent wire decode p' = nats_sent wire decode p @ [(cluster_subject, e)]"
    if "np_publish_event N ''cluster'' cluster_subject cluster_source cluster_event_type cx e p = (r, p')"
    using np_publish_event_sent [OF e that] by simp
  show "nats_sent wire decode p' = nats_sent wire decode p @ [(vm_subject, e)]"
    if "np_publish_event N ''VM'' vm_subject vm_source vm_event_type cx e p = (None, p')"
    using np_publish_event_sent [OF e that] by simp
  show "nats_sent wire decode p' = nats_sent wire decode p @ [(cluster_subject, e)]"
    if "np_publish_event N ''cluster'' cluster_subject cluster_source cluster_event_type cx e p = (None, p')"
    using np_publish_event_sent [OF e that] by simp
qed

section \<open>A connection\<close>

text \<open>
  A connection that keeps what it accepts, and refuses events whose strings are not UTF-8; its
  CloudEvents are arrays of the five attributes.
\<close>

record conn =
  cn_up :: bool
  cn_log :: "(string \<times> bytes) list"
  cn_ids :: nat

definition cn_encode :: "CloudEvent \<Rightarrow> string + bytes" where
  "cn_encode ce =
     (let fields = [ce_id ce, ce_source ce, ce_type ce, ce_subject ce, ce_data ce] in
      if list_all valid_utf8 fields then Inr (json_print (JArr (map JStr fields)))
      else Inl ''invalid UTF-8'')"

definition cn_decode :: "bytes \<Rightarrow> CloudEvent option" where
  "cn_decode payload =
     (case json_parse payload of
        Some (JArr [JStr i, JStr s, JStr t, JStr u, JStr d]) \<Rightarrow>
          Some \<lparr>ce_id = i, ce_source = s, ce_type = t, ce_subject = u, ce_data = d\<rparr>
      | _ \<Rightarrow> None)"

definition conn_nats :: "conn nats" where
  "conn_nats =
     \<lparr>na_connect = (\<lambda>url. if url = '''' then Inl ''no servers'' else Inr \<lparr>cn_up = True, cn_log = [], cn_ids = 0\<rparr>),
      na_connected = cn_up,
      na_uuid = (\<lambda>c. (nat_str (cn_ids c), c\<lparr>cn_ids := Suc (cn_ids c)\<rparr>)),
      na_encode = cn_encode,
      na_publish = (\<lambda>s payload c.
        if cn_up c then (None, c\<lparr>cn_log := cn_log c @ [(s, payload)]\<rparr>)
        else (Some ''connection closed'', c)),
      na_flush = (\<lambda>c. c),
      na_close = (\<lambda>c. c\<lparr>cn_up := False\<rparr>)\<rparr>"

lemma cn_decode_encode: "cn_encode ce = Inr payload \<Longrightarrow> cn_decode payload = Some ce"
proof -
  assume a: "cn_encode ce = Inr payload"
  let ?v = "JArr (map JStr [ce_id ce, ce_source ce, ce_type ce, ce_subject ce, ce_data ce])"
  from a have p: "payload = json_print ?v" and ok: "json_ok ?v"
    by (auto simp: cn_encode_def Let_def split: if_splits)
  have "json_parse payload = Some ?v" unfolding p using ok by (rule json_roundtrip) simp
  then show ?thesis by (simp add: cn_decode_def)
qed

interpretation cn: nats_contract conn_nats cn_log cn_decode
  by unfold_locales (auto simp: conn_nats_def cn_decode_encode split: if_splits)

text \<open>The publisher used when no NATS URL is configured.\<close>

definition noop_publisher :: "'p Publisher" where
  "noop_publisher =
     \<lparr>pub_vm_event = (\<lambda>_ _ p. (None, p)), pub_cluster_event = (\<lambda>_ _ p. (None, p)),
      pub_close = (\<lambda>p. p), pub_connected = (\<lambda>_. True)\<rparr>"

interpretation noop: publisher noop_publisher "\<lambda>_. []"
  by unfold_locales (auto simp: noop_publisher_def)

end
