(* ===== verification/StoreIface.thy ===== *)
theory StoreIface
  imports GoTime Json
begin

text \<open>
  The interface behind which the handlers and the monitor see the persistent store: the resource
  entry, the errors, the methods of \<open>StateStore\<close> (internal/api/server/impl.go and
  internal/monitor/interfaces.go) as a record, and the contract its clients rely on as a locale.
  The bbolt-backed provider is theory Store, which proves the contract.
\<close>

record ResourceEntry =
  re_id :: string
  re_kcli_name :: string
  re_type :: string
  re_status :: string
  re_created_at :: time

datatype store_error =
    ErrNotFound
  | JsonError
  | BoltError string
  | GoPanic

record 's StateStore =
  ss_put :: "ResourceEntry \<Rightarrow> 's \<Rightarrow> store_error option \<times> 's"
  ss_get :: "string \<Rightarrow> 's \<Rightarrow> store_error + ResourceEntry"
  ss_list :: "string \<Rightarrow> 's \<Rightarrow> store_error + ResourceEntry list"
  ss_list_all :: "'s \<Rightarrow> store_error + ResourceEntry list"
  ss_delete :: "string \<Rightarrow> 's \<Rightarrow> store_error option \<times> 's"
  ss_update_status :: "string \<Rightarrow> string \<Rightarrow> 's \<Rightarrow> store_error option \<times> 's"
  ss_resolve_kcli_name :: "string \<Rightarrow> 's \<Rightarrow> store_error + string"
  ss_find_by_kcli_name :: "string \<Rightarrow> 's \<Rightarrow> store_error + ResourceEntry"

text \<open>
  An entry that JSON can hold without loss: its strings are valid UTF-8 and its creation time
  has a four-digit year.
\<close>

definition entry_ok :: "ResourceEntry \<Rightarrow> bool" where
  "entry_ok e \<longleftrightarrow>
     valid_utf8 (re_id e) \<and> valid_utf8 (re_kcli_name e) \<and> valid_utf8 (re_type e) \<and>
     valid_utf8 (re_status e) \<and> fmt_time (re_created_at e) \<noteq> None"

lemma entry_ok_status:
  "entry_ok e \<Longrightarrow> valid_utf8 st \<Longrightarrow> entry_ok (e\<lparr>re_status := st\<rparr>)"
  by (simp add: entry_ok_def)

text \<open>
  The contract. \<open>view\<close> is what the store holds, a partial map from IDs to entries; \<open>inv\<close> is its
  well-formedness; \<open>ready\<close> says that it can be read (the database is open). Writes may always fail
  (a full disk), and then change nothing.
\<close>

locale state_store =
  fixes S :: "'s StateStore"
    and view :: "'s \<Rightarrow> string \<Rightarrow> ResourceEntry option"
    and inv :: "'s \<Rightarrow> bool"
    and ready :: "'s \<Rightarrow> bool"
  assumes get_ready:
      "inv s \<Longrightarrow> ready s \<Longrightarrow>
       ss_get S i s = (case view s i of None \<Rightarrow> Inl ErrNotFound | Some e \<Rightarrow> Inr e)"
    and get_found: "inv s \<Longrightarrow> ss_get S i s = Inr e \<Longrightarrow> view s i = Some e"
    and get_missing: "inv s \<Longrightarrow> ss_get S i s = Inl ErrNotFound \<Longrightarrow> view s i = None"
    and view_id: "inv s \<Longrightarrow> view s i = Some e \<Longrightarrow> re_id e = i \<and> entry_ok e"
    and list_ready: "inv s \<Longrightarrow> ready s \<Longrightarrow> \<exists>es. ss_list S t s = Inr es"
    and list_set:
      "inv s \<Longrightarrow> ss_list S t s = Inr es \<Longrightarrow>
       distinct (map re_id es) \<and> set es = {e. view s (re_id e) = Some e \<and> re_type e = t}"
    and put_ok:
      "inv s \<Longrightarrow> entry_ok e \<Longrightarrow> ss_put S e s = (None, s') \<Longrightarrow>
       inv s' \<and> ready s' = ready s \<and> view s' = (view s)(re_id e \<mapsto> e)"
    and put_fail: "ss_put S e s = (Some err, s') \<Longrightarrow> s' = s"
    and update_ok:
      "inv s \<Longrightarrow> valid_utf8 st \<Longrightarrow> ss_update_status S i st s = (None, s') \<Longrightarrow>
       inv s' \<and> ready s' = ready s \<and>
       (\<exists>e. view s i = Some e \<and> view s' = (view s)(i \<mapsto> e\<lparr>re_status := st\<rparr>))"
    and update_fail: "ss_update_status S i st s = (Some err, s') \<Longrightarrow> s' = s"
    and delete_ok:
      "inv s \<Longrightarrow> ss_delete S i s = (None, s') \<Longrightarrow>
       inv s' \<and> ready s' = ready s \<and> view s' = (view s)(i := None)"
    and delete_fail: "ss_delete S i s = (Some err, s') \<Longrightarrow> s' = s"
begin

lemma put_cases:
  assumes "inv s" "entry_ok e" "ss_put S e s = (r, s')"
  shows "inv s'" and "ready s' = ready s"
    and "view s' = (if r = None then (view s)(re_id e \<mapsto> e) else view s)"
  using assms put_ok put_fail by (cases r; fastforce)+

lemma update_cases:
  assumes "inv s" "valid_utf8 st" "ss_update_status S i st s = (r, s')"
  shows "inv s'" and "ready s' = ready s"
    and "view s' = view s \<or> (\<exists>e. view s i = Some e \<and> view s' = (view s)(i \<mapsto> e\<lparr>re_status := st\<rparr>))"
  using assms update_ok update_fail by (cases r; fastforce)+

lemma delete_cases:
  assumes "inv s" "ss_delete S i s = (r, s')"
  shows "inv s'" and "ready s' = ready s"
    and "view s' = (if r = None then (view s)(i := None) else view s)"
  using assms delete_ok delete_fail by (cases r; fastforce)+

lemma put_inv: "inv s \<Longrightarrow> entry_ok e \<Longrightarrow> inv (snd (ss_put S e s))"
  using put_cases(1) by (metis prod.collapse)

lemma update_inv: "inv s \<Longrightarrow> valid_utf8 st \<Longrightarrow> inv (snd (ss_update_status S i st s))"
  using update_cases(1) by (metis prod.collapse)

lemma delete_inv: "inv s \<Longrightarrow> inv (snd (ss_delete S i s))"
  using delete_cases(1) by (metis prod.collapse)

lemma list_members:
  assumes "inv s" "ss_list S t s = Inr es" "e \<in> set es"
  shows "view s (re_id e) = Some e" and "re_type e = t"
  using list_set [OF assms(1,2)] assms(3) by auto

end

end
