(* ===== verification/Store.thy ===== *)
theory Store
  imports StoreIface "HOL-Library.AList" "HOL-Library.List_Lexorder" "HOL-Library.Char_ord"
begin

text \<open>
  The bbolt-backed store of internal/store/store.go: the JSON form of an entry, the operations as
  transactions on two buckets (\<open>resources\<close> by ID, \<open>name_index\<close> by kcli name), schema versioning,
  the proof that the operations meet the contract of theory StoreIface, and what the name index
  does and does not promise.

  bbolt is not part of the repository: it is the parameter \<open>B\<close>, a record of the calls the code
  makes, and the locale \<open>bolt_contract\<close> states the documented behaviour the code relies on.
\<close>

section \<open>bbolt, a parameter\<close>

record 'db bolt =
  bo_update :: "'db \<Rightarrow> ('db \<Rightarrow> store_error + 'db) \<Rightarrow> store_error option \<times> 'db"
  bo_view_err :: "'db \<Rightarrow> store_error option"
  bo_has :: "'db \<Rightarrow> string \<Rightarrow> bool"
  bo_create :: "'db \<Rightarrow> string \<Rightarrow> store_error + 'db"
  bo_get :: "'db \<Rightarrow> string \<Rightarrow> string \<Rightarrow> bytes option"
  bo_put :: "'db \<Rightarrow> string \<Rightarrow> string \<Rightarrow> bytes \<Rightarrow> store_error + 'db"
  bo_delete :: "'db \<Rightarrow> string \<Rightarrow> string \<Rightarrow> store_error + 'db"
  bo_foreach :: "'db \<Rightarrow> string \<Rightarrow> (string \<times> bytes) list"
  bo_close :: "'db \<Rightarrow> store_error option \<times> 'db"

text \<open>
  \<open>bo_update db f\<close> is \<open>db.Update(f)\<close>: the function runs in a read-write transaction, which is
  committed as a whole or not at all; \<open>bo_view_err\<close> is the error with which \<open>db.View\<close> fails before
  it runs its function (a closed database); the rest are the bucket operations of a transaction.
\<close>

locale bolt_contract =
  fixes B :: "'db bolt"
  assumes update_commit: "bo_update B db f = (None, db') \<Longrightarrow> f db = Inr db'"
    and update_rollback: "bo_update B db f = (Some e, db') \<Longrightarrow> db' = db"
    and view_err_open: "bo_view_err B db \<noteq> Some ErrNotFound"
    and update_error: "bo_view_err B db = None \<Longrightarrow> f db = Inl e \<Longrightarrow> bo_update B db f = (Some e, db)"
    and create_has: "bo_create B db b = Inr db' \<Longrightarrow> bo_has B db' b' = (b' = b \<or> bo_has B db b')"
    and create_get: "bo_create B db b = Inr db' \<Longrightarrow> bo_get B db' = bo_get B db"
    and put_get:
      "bo_put B db b k v = Inr db' \<Longrightarrow>
       bo_get B db' b' k' = (if b' = b \<and> k' = k then Some v else bo_get B db b' k')"
    and delete_get:
      "bo_delete B db b k = Inr db' \<Longrightarrow>
       bo_get B db' b' k' = (if b' = b \<and> k' = k then None else bo_get B db b' k')"
    and delete_total: "bo_has B db b \<Longrightarrow> \<exists>db'. bo_delete B db b k = Inr db'"
    and create_open: "bo_create B db b = Inr db' \<Longrightarrow> bo_view_err B db' = bo_view_err B db"
    and put_open: "bo_put B db b k v = Inr db' \<Longrightarrow> bo_view_err B db' = bo_view_err B db"
    and delete_open: "bo_delete B db b k = Inr db' \<Longrightarrow> bo_view_err B db' = bo_view_err B db"
    and put_has: "bo_put B db b k v = Inr db' \<Longrightarrow> bo_has B db' = bo_has B db"
    and delete_has: "bo_delete B db b k = Inr db' \<Longrightarrow> bo_has B db' = bo_has B db"
    and foreach_keys: "distinct (map fst (bo_foreach B db b))"
    and foreach_get: "map_of (bo_foreach B db b) k = bo_get B db b k"

section \<open>The stored form of an entry\<close>

definition entry_json :: "ResourceEntry \<Rightarrow> string \<Rightarrow> json" where
  "entry_json e created =
     JObj [(''id'', JStr (re_id e)), (''kcli_name'', JStr (re_kcli_name e)),
           (''type'', JStr (re_type e)), (''status'', JStr (re_status e)),
           (''created_at'', JStr created)]"

definition marshal_entry :: "ResourceEntry \<Rightarrow> store_error + bytes" where
  "marshal_entry e =
     (case fmt_time (re_created_at e) of
        None \<Rightarrow> Inl JsonError
      | Some created \<Rightarrow> Inr (json_print (entry_json e created)))"

fun json_time :: "json \<Rightarrow> time option" where
  "json_time (JStr s) = parse_time s"
| "json_time _ = None"

definition unmarshal_entry :: "bytes \<Rightarrow> store_error + ResourceEntry" where
  "unmarshal_entry data =
     (case unmarshal_obj data of
        None \<Rightarrow> Inl JsonError
      | Some ms \<Rightarrow>
          (case (str_field ''id'' ms, str_field ''kcli_name'' ms, str_field ''type'' ms,
                 str_field ''status'' ms, decode_vals json_time 0 (field_vals ''created_at'' ms)) of
             (Some i, Some n, Some ty, Some st, Some t) \<Rightarrow>
               Inr \<lparr>re_id = i, re_kcli_name = n, re_type = ty, re_status = st, re_created_at = t\<rparr>
           | _ \<Rightarrow> Inl JsonError))"

section \<open>Operations\<close>

definition resources :: string where "resources = ''resources''"
definition name_index :: string where "name_index = ''name_index''"
definition meta_bucket :: string where "meta_bucket = ''meta''"
definition version_key :: string where "version_key = ''schema_version''"

definition with_view :: "'db bolt \<Rightarrow> 'db \<Rightarrow> store_error + 'a \<Rightarrow> store_error + 'a" where
  "with_view B db r = (case bo_view_err B db of Some e \<Rightarrow> Inl e | None \<Rightarrow> r)"

definition store_put :: "'db bolt \<Rightarrow> ResourceEntry \<Rightarrow> 'db \<Rightarrow> store_error option \<times> 'db" where
  "store_put B entry db =
     bo_update B db (\<lambda>tx.
       case marshal_entry entry of
         Inl err \<Rightarrow> Inl err
       | Inr data \<Rightarrow>
           (case bo_put B tx resources (re_id entry) data of
              Inl err \<Rightarrow> Inl err
            | Inr tx' \<Rightarrow> bo_put B tx' name_index (re_kcli_name entry) (re_id entry)))"

definition store_get :: "'db bolt \<Rightarrow> string \<Rightarrow> 'db \<Rightarrow> store_error + ResourceEntry" where
  "store_get B i db =
     with_view B db
       (case bo_get B db resources i of
          None \<Rightarrow> Inl ErrNotFound
        | Some data \<Rightarrow> unmarshal_entry data)"

definition type_tag_vm :: bytes where
  "type_tag_vm = CHR 0x22 # ''type'' @ CHR 0x22 # '':'' @ CHR 0x22 # ''vm'' @ [CHR 0x22]"

definition type_tag_cluster :: bytes where
  "type_tag_cluster = CHR 0x22 # ''type'' @ CHR 0x22 # '':'' @ CHR 0x22 # ''cluster'' @ [CHR 0x22]"

definition type_tag :: "string \<Rightarrow> bytes option" where
  "type_tag resource_type =
     (if resource_type = ''vm'' then Some type_tag_vm
      else if resource_type = ''cluster'' then Some type_tag_cluster
      else None)"

text \<open>
  The loop shared by the listing operations: an entry whose bytes lack the type tag is skipped
  undecoded, a decoding error ends the listing, and an entry the filter rejects is dropped.
\<close>

fun decode_each ::
  "bytes option \<Rightarrow> (ResourceEntry \<Rightarrow> bool) \<Rightarrow> (string \<times> bytes) list \<Rightarrow>
   store_error + ResourceEntry list" where
  "decode_each tag keep [] = Inr []"
| "decode_each tag keep ((k, v) # kvs) =
     (if (case tag of None \<Rightarrow> False | Some t \<Rightarrow> \<not> str_contains v t) then decode_each tag keep kvs
      else
        (case unmarshal_entry v of
           Inl err \<Rightarrow> Inl err
         | Inr entry \<Rightarrow>
             (case decode_each tag keep kvs of
                Inl err \<Rightarrow> Inl err
              | Inr es \<Rightarrow> Inr (if keep entry then entry # es else es))))"

definition store_list :: "'db bolt \<Rightarrow> string \<Rightarrow> 'db \<Rightarrow> store_error + ResourceEntry list" where
  "store_list B resource_type db =
     with_view B db
       (decode_each (type_tag resource_type) (\<lambda>entry. re_type entry = resource_type)
          (bo_foreach B db resources))"

definition store_list_by_status ::
  "'db bolt \<Rightarrow> string \<Rightarrow> string \<Rightarrow> 'db \<Rightarrow> store_error + ResourceEntry list" where
  "store_list_by_status B resource_type status db =
     with_view B db
       (decode_each (type_tag resource_type)
          (\<lambda>entry. re_type entry = resource_type \<and> re_status entry = status)
          (bo_foreach B db resources))"

definition store_list_all :: "'db bolt \<Rightarrow> 'db \<Rightarrow> store_error + ResourceEntry list" where
  "store_list_all B db =
     with_view B db (decode_each None (\<lambda>entry. True) (bo_foreach B db resources))"

text \<open>\<open>Delete\<close> drops the index entry of the stored name, ignoring a failure to do so.\<close>

definition store_delete :: "'db bolt \<Rightarrow> string \<Rightarrow> 'db \<Rightarrow> store_error option \<times> 'db" where
  "store_delete B i db =
     bo_update B db (\<lambda>tx.
       let tx' =
         (case bo_get B tx resources i of
            None \<Rightarrow> tx
          | Some data \<Rightarrow>
              (case unmarshal_entry data of
                 Inl _ \<Rightarrow> tx
               | Inr entry \<Rightarrow>
                   (case bo_delete B tx name_index (re_kcli_name entry) of
                      Inl _ \<Rightarrow> tx
                    | Inr tx' \<Rightarrow> tx')))
       in bo_delete B tx' resources i)"

definition store_update_status ::
  "'db bolt \<Rightarrow> string \<Rightarrow> string \<Rightarrow> 'db \<Rightarrow> store_error option \<times> 'db" where
  "store_update_status B i new_status db =
     bo_update B db (\<lambda>tx.
       case bo_get B tx resources i of
         None \<Rightarrow> Inl ErrNotFound
       | Some data \<Rightarrow>
           (case unmarshal_entry data of
              Inl err \<Rightarrow> Inl err
            | Inr entry \<Rightarrow>
                (case marshal_entry (entry\<lparr>re_status := new_status\<rparr>) of
                   Inl err \<Rightarrow> Inl err
                 | Inr updated \<Rightarrow> bo_put B tx resources i updated)))"

definition store_resolve_kcli_name :: "'db bolt \<Rightarrow> string \<Rightarrow> 'db \<Rightarrow> store_error + string" where
  "store_resolve_kcli_name B dcm_id db =
     (case store_get B dcm_id db of
        Inl err \<Rightarrow> Inl err
      | Inr entry \<Rightarrow> Inr (re_kcli_name entry))"

definition store_find_by_kcli_name ::
  "'db bolt \<Rightarrow> string \<Rightarrow> 'db \<Rightarrow> store_error + ResourceEntry" where
  "store_find_by_kcli_name B name db =
     with_view B db
       (case bo_get B db name_index name of
          None \<Rightarrow> Inl ErrNotFound
        | Some i \<Rightarrow>
            (case bo_get B db resources i of
               None \<Rightarrow> Inl ErrNotFound
             | Some data \<Rightarrow> unmarshal_entry data))"

definition store_ops :: "'db bolt \<Rightarrow> 'db StateStore" where
  "store_ops B =
     \<lparr>ss_put = store_put B, ss_get = store_get B, ss_list = store_list B,
      ss_list_all = store_list_all B, ss_delete = store_delete B,
      ss_update_status = store_update_status B,
      ss_resolve_kcli_name = store_resolve_kcli_name B,
      ss_find_by_kcli_name = store_find_by_kcli_name B\<rparr>"

section \<open>Opening the store\<close>

definition current_schema_version :: int where "current_schema_version = 1"

definition migrations :: "('db \<Rightarrow> store_error + 'db) list" where
  "migrations = []"

text \<open>
  The migration loop counts from the stored version up to the current one; \<open>migrations[i]\<close> with a
  negative index panics.
\<close>

fun migrate_from ::
  "('db \<Rightarrow> store_error + 'db) list \<Rightarrow> int \<Rightarrow> nat \<Rightarrow> 'db \<Rightarrow> store_error + 'db" where
  "migrate_from ms i 0 tx = Inr tx"
| "migrate_from ms i (Suc n) tx =
     (if i < int (length ms) then
        (if i < 0 then Inl GoPanic
         else
           (case (ms ! nat i) tx of
              Inl err \<Rightarrow> Inl err
            | Inr tx' \<Rightarrow> migrate_from ms (i + 1) n tx'))
      else migrate_from ms (i + 1) n tx)"

fun json_number :: "json \<Rightarrow> int option" where
  "json_number JNull = Some 0"
| "json_number v = json_int v"

definition stored_version :: "bytes option \<Rightarrow> store_error + int" where
  "stored_version v =
     (case v of
        None \<Rightarrow> Inr 0
      | Some data \<Rightarrow>
          (case json_parse data of
             None \<Rightarrow> Inl JsonError
           | Some j \<Rightarrow> (case json_number j of None \<Rightarrow> Inl JsonError | Some i \<Rightarrow> Inr i)))"

definition run_migrations :: "'db bolt \<Rightarrow> 'db \<Rightarrow> store_error + 'db" where
  "run_migrations B tx =
     (case stored_version (bo_get B tx meta_bucket version_key) of
        Inl err \<Rightarrow> Inl err
      | Inr version \<Rightarrow>
          (case migrate_from migrations version (nat (current_schema_version - version)) tx of
             Inl err \<Rightarrow> Inl err
           | Inr tx' \<Rightarrow>
               bo_put B tx' meta_bucket version_key (json_print (JNum (itoa current_schema_version)))))"

definition schema_version :: "'db bolt \<Rightarrow> 'db \<Rightarrow> store_error + int" where
  "schema_version B db =
     with_view B db
       (if \<not> bo_has B db meta_bucket then Inr 0
        else stored_version (bo_get B db meta_bucket version_key))"

text \<open>\<open>opened\<close> is what \<open>bolt.Open\<close> returned.\<close>

definition new_store :: "'db bolt \<Rightarrow> store_error + 'db \<Rightarrow> store_error + 'db" where
  "new_store B opened =
     (case opened of
        Inl err \<Rightarrow> Inl err
      | Inr db \<Rightarrow>
          (case bo_update B db (\<lambda>tx.
                  case bo_create B tx resources of
                    Inl err \<Rightarrow> Inl err
                  | Inr tx \<Rightarrow>
                      (case bo_create B tx name_index of
                         Inl err \<Rightarrow> Inl err
                       | Inr tx \<Rightarrow>
                           (case bo_create B tx meta_bucket of
                              Inl err \<Rightarrow> Inl err
                            | Inr tx \<Rightarrow> run_migrations B tx))) of
             (Some err, db') \<Rightarrow> Inl err
           | (None, db') \<Rightarrow> Inr db'))"

definition store_close :: "'db bolt \<Rightarrow> 'db \<Rightarrow> store_error option \<times> 'db" where
  "store_close B db = bo_close B db"

section \<open>The codec\<close>

lemma entry_fields:
  "str_field ''id'' [(''id'', JStr a), (''kcli_name'', JStr b), (''type'', JStr c), (''status'', JStr d), (''created_at'', JStr t)] = Some a"
  "str_field ''kcli_name'' [(''id'', JStr a), (''kcli_name'', JStr b), (''type'', JStr c), (''status'', JStr d), (''created_at'', JStr t)] = Some b"
  "str_field ''type'' [(''id'', JStr a), (''kcli_name'', JStr b), (''type'', JStr c), (''status'', JStr d), (''created_at'', JStr t)] = Some c"
  "str_field ''status'' [(''id'', JStr a), (''kcli_name'', JStr b), (''type'', JStr c), (''status'', JStr d), (''created_at'', JStr t)] = Some d"
  "field_vals ''created_at'' [(''id'', JStr a), (''kcli_name'', JStr b), (''type'', JStr c), (''status'', JStr d), (''created_at'', JStr t)] = [JStr t]"
  by (simp_all add: str_field_def field_vals_def equal_fold_def fold_case_ascii lower_char_def Let_def)

lemma fmt_time_utf8: "fmt_time t = Some s \<Longrightarrow> valid_utf8 s"
  by (rule valid_utf8_ascii) (rule fmt_time_ascii)

lemma unmarshal_marshal:
  assumes "entry_ok e" and "marshal_entry e = Inr data"
  shows "unmarshal_entry data = Inr e"
proof -
  from assms(2) obtain t where t: "fmt_time (re_created_at e) = Some t"
    and data: "data = json_print (entry_json e t)"
    by (auto simp: marshal_entry_def split: option.splits)
  have "json_parse data = Some (entry_json e t)"
    unfolding data using assms(1) fmt_time_utf8 [OF t]
    by (intro json_roundtrip) (auto simp: entry_json_def entry_ok_def utf8_len_ascii Let_def)
  then show ?thesis
    by (simp add: unmarshal_entry_def unmarshal_obj_def entry_json_def entry_fields parse_fmt_time [OF t])
qed

text \<open>The pre-filter drops nothing the filter would keep: the bytes of an entry hold the tag of its type.\<close>

lemma marshal_tag:
  assumes "marshal_entry e = Inr data" and "type_tag (re_type e) = Some tag"
  shows "str_contains data tag"
proof -
  from assms(1) obtain t where data: "data = json_print (entry_json e t)"
    by (auto simp: marshal_entry_def split: option.splits)
  define pre where "pre = ''{'' @ json_quote ''id'' @ '':'' @ json_quote (re_id e) @ '','' @
    json_quote ''kcli_name'' @ '':'' @ json_quote (re_kcli_name e) @ '',''"
  define post where "post = '','' @ json_quote ''status'' @ '':'' @ json_quote (re_status e) @ '','' @
    json_quote ''created_at'' @ '':'' @ json_quote t @ ''}''"
  have "data = pre @ (json_quote ''type'' @ '':'' @ json_quote (re_type e)) @ post"
    by (simp add: data entry_json_def pre_def post_def)
  moreover have "json_quote ''type'' @ '':'' @ json_quote (re_type e) = tag"
    using assms(2)
    by (auto simp: type_tag_def type_tag_vm_def type_tag_cluster_def json_quote_def escape_ascii_def
        split: if_splits)
  ultimately have "data = pre @ tag @ post" by metis
  then show ?thesis by (simp only: str_containsI)
qed

definition kept :: "bytes option \<Rightarrow> (ResourceEntry \<Rightarrow> bool) \<Rightarrow> bool" where
  "kept tag keep \<longleftrightarrow> (\<forall>e data t. tag = Some t \<and> keep e \<and> marshal_entry e = Inr data \<longrightarrow> str_contains data t)"

lemma decode_each_ok:
  assumes "\<forall>(k, v) \<in> set kvs. \<exists>e. entry_ok e \<and> re_id e = k \<and> marshal_entry e = Inr v"
    and "kept tag keep"
  shows "\<exists>es. decode_each tag keep kvs = Inr es \<and>
    map re_id es = map fst (filter (\<lambda>(k, v). \<exists>e. unmarshal_entry v = Inr e \<and> keep e) kvs) \<and>
    set es = {e. keep e \<and> (\<exists>v. (re_id e, v) \<in> set kvs \<and> unmarshal_entry v = Inr e)}"
  using assms(1)
proof (induction kvs)
  case Nil
  then show ?case by simp
next
  case (Cons kv kvs)
  obtain k v where kv: "kv = (k, v)" by force
  from Cons.prems kv obtain e where e: "entry_ok e" "re_id e = k" "marshal_entry e = Inr v" by auto
  have v: "unmarshal_entry v = Inr e" using e by (intro unmarshal_marshal)
  from Cons obtain es where es: "decode_each tag keep kvs = Inr es"
    "map re_id es = map fst (filter (\<lambda>(k, v). \<exists>e. unmarshal_entry v = Inr e \<and> keep e) kvs)"
    "set es = {e. keep e \<and> (\<exists>v. (re_id e, v) \<in> set kvs \<and> unmarshal_entry v = Inr e)}"
    by auto
  show ?case
  proof (cases "keep e")
    case True
    then have "\<not> (case tag of None \<Rightarrow> False | Some t \<Rightarrow> \<not> str_contains v t)"
      using assms(2) e(3) by (auto simp: kept_def split: option.splits)
    with True es kv v e show ?thesis by auto
  next
    case False
    with es kv v e show ?thesis by auto
  qed
qed

lemma kept_type: "kept (type_tag t) (\<lambda>e. re_type e = t)"
  by (auto simp: kept_def intro: marshal_tag)

lemma kept_type_status: "kept (type_tag t) (\<lambda>e. re_type e = t \<and> re_status e = st)"
  by (auto simp: kept_def intro: marshal_tag)

lemma kept_all: "kept None keep"
  by (simp add: kept_def)

section \<open>The contract\<close>

definition store_view :: "'db bolt \<Rightarrow> 'db \<Rightarrow> string \<Rightarrow> ResourceEntry option" where
  "store_view B db i =
     (case bo_get B db resources i of
        None \<Rightarrow> None
      | Some data \<Rightarrow> (case unmarshal_entry data of Inl _ \<Rightarrow> None | Inr e \<Rightarrow> Some e))"

definition store_inv :: "'db bolt \<Rightarrow> 'db \<Rightarrow> bool" where
  "store_inv B db \<longleftrightarrow>
     (\<forall>i data. bo_get B db resources i = Some data \<longrightarrow>
        (\<exists>e. entry_ok e \<and> re_id e = i \<and> marshal_entry e = Inr data))"

definition store_ready :: "'db bolt \<Rightarrow> 'db \<Rightarrow> bool" where
  "store_ready B db \<longleftrightarrow> bo_view_err B db = None"

lemma bucket_names [simp]:
  "resources \<noteq> name_index" "name_index \<noteq> resources" "resources \<noteq> meta_bucket" "meta_bucket \<noteq> resources"
  by (simp_all add: resources_def name_index_def meta_bucket_def)

lemma store_inv_view:
  assumes "store_inv B db" "bo_get B db resources i = Some data"
  obtains e where "entry_ok e" "re_id e = i" "marshal_entry e = Inr data"
    "unmarshal_entry data = Inr e" "store_view B db i = Some e"
proof -
  from assms obtain e where e: "entry_ok e" "re_id e = i" "marshal_entry e = Inr data"
    unfolding store_inv_def by blast
  then have "unmarshal_entry data = Inr e" by (intro unmarshal_marshal)
  with e assms(2) that show thesis by (simp add: store_view_def)
qed

lemma store_view_Some:
  assumes "store_inv B db" "store_view B db i = Some e"
  obtains data where "bo_get B db resources i = Some data" "entry_ok e" "re_id e = i"
    "marshal_entry e = Inr data" "unmarshal_entry data = Inr e"
proof -
  from assms(2) obtain data where d: "bo_get B db resources i = Some data"
    by (auto simp: store_view_def split: option.splits)
  from store_inv_view [OF assms(1) d] obtain e' where
    "entry_ok e'" "re_id e' = i" "marshal_entry e' = Inr data" "unmarshal_entry data = Inr e'"
    "store_view B db i = Some e'" .
  with assms(2) d that show ?thesis by simp
qed

lemma store_view_None:
  assumes "store_inv B db" "store_view B db i = None"
  shows "bo_get B db resources i = None"
proof (cases "bo_get B db resources i")
  case (Some data)
  show ?thesis using store_inv_view [OF assms(1) Some] assms(2) by simp
qed

context bolt_contract
begin

lemma inv_update:
  assumes "store_inv B db" and "entry_ok e" and "marshal_entry e = Inr data"
    and "\<And>i. bo_get B db' resources i = (if i = re_id e then Some data else bo_get B db resources i)"
  shows "store_inv B db'" and "store_view B db' = (store_view B db)(re_id e \<mapsto> e)"
  using assms unmarshal_marshal [OF assms(2,3)]
  by (auto simp: store_inv_def store_view_def fun_eq_iff split: if_splits)

lemma inv_remove:
  assumes "store_inv B db"
    and "\<And>j. bo_get B db' resources j = (if j = i then None else bo_get B db resources j)"
  shows "store_inv B db'" and "store_view B db' = (store_view B db)(i := None)"
  using assms by (auto simp: store_inv_def store_view_def fun_eq_iff)

lemma put_commit:
  assumes "store_put B e db = (None, db')"
  obtains data tx where "marshal_entry e = Inr data" "bo_put B db resources (re_id e) data = Inr tx"
    "bo_put B tx name_index (re_kcli_name e) (re_id e) = Inr db'"
  using update_commit [OF assms [unfolded store_put_def]] by (auto split: sum.splits)

lemma put_correct:
  assumes "store_inv B db" "entry_ok e" "store_put B e db = (None, db')"
  shows "store_inv B db'" "store_ready B db' = store_ready B db"
    "store_view B db' = (store_view B db)(re_id e \<mapsto> e)"
proof -
  obtain data tx where p: "marshal_entry e = Inr data" "bo_put B db resources (re_id e) data = Inr tx"
    "bo_put B tx name_index (re_kcli_name e) (re_id e) = Inr db'"
    using assms(3) by (rule put_commit)
  have g: "bo_get B db' resources i = (if i = re_id e then Some data else bo_get B db resources i)" for i
    using put_get [OF p(2)] put_get [OF p(3)] by auto
  show "store_inv B db'" "store_view B db' = (store_view B db)(re_id e \<mapsto> e)"
    using inv_update [OF assms(1,2) p(1) g] by simp_all
  show "store_ready B db' = store_ready B db"
    using put_open [OF p(2)] put_open [OF p(3)] by (simp add: store_ready_def)
qed

lemma update_status_correct:
  assumes "store_inv B db" "valid_utf8 st" "store_update_status B i st db = (None, db')"
  shows "store_inv B db'" "store_ready B db' = store_ready B db"
    "\<exists>e. store_view B db i = Some e \<and> store_view B db' = (store_view B db)(i \<mapsto> e\<lparr>re_status := st\<rparr>)"
proof -
  obtain data where d: "bo_get B db resources i = Some data"
    using update_commit [OF assms(3) [unfolded store_update_status_def]] by (auto split: option.splits)
  obtain e where e: "entry_ok e" "re_id e = i" "unmarshal_entry data = Inr e" "store_view B db i = Some e"
    using store_inv_view [OF assms(1) d] by metis
  let ?e = "e\<lparr>re_status := st\<rparr>"
  have ok: "entry_ok ?e" using e(1) assms(2) by (rule entry_ok_status)
  obtain data' where p: "marshal_entry ?e = Inr data'" "bo_put B db resources i data' = Inr db'"
    using update_commit [OF assms(3) [unfolded store_update_status_def]] d e by (auto split: sum.splits)
  have g: "bo_get B db' resources j = (if j = re_id ?e then Some data' else bo_get B db resources j)" for j
    using put_get [OF p(2)] e(2) by auto
  show "store_inv B db'"
    "\<exists>e. store_view B db i = Some e \<and> store_view B db' = (store_view B db)(i \<mapsto> e\<lparr>re_status := st\<rparr>)"
    using inv_update [OF assms(1) ok p(1) g] e by simp_all
  show "store_ready B db' = store_ready B db"
    using put_open [OF p(2)] by (simp add: store_ready_def)
qed

lemma delete_commit:
  assumes "store_delete B i db = (None, db')"
  obtains tx where "bo_delete B tx resources i = Inr db'"
    "tx = db \<or> (\<exists>data e. bo_get B db resources i = Some data \<and> unmarshal_entry data = Inr e \<and>
       bo_delete B db name_index (re_kcli_name e) = Inr tx)"
  using update_commit [OF assms [unfolded store_delete_def Let_def]]
  by (auto split: sum.splits option.splits)

lemma delete_correct:
  assumes "store_inv B db" "store_delete B i db = (None, db')"
  shows "store_inv B db'" "store_ready B db' = store_ready B db"
    "store_view B db' = (store_view B db)(i := None)"
proof -
  obtain tx where tx: "bo_delete B tx resources i = Inr db'"
    "tx = db \<or> (\<exists>data e. bo_get B db resources i = Some data \<and> unmarshal_entry data = Inr e \<and>
       bo_delete B db name_index (re_kcli_name e) = Inr tx)"
    using assms(2) by (rule delete_commit)
  have "bo_get B tx resources j = bo_get B db resources j" for j
    using tx(2) delete_get by fastforce
  then have g: "bo_get B db' resources j = (if j = i then None else bo_get B db resources j)" for j
    using delete_get [OF tx(1)] by auto
  show "store_inv B db'" "store_view B db' = (store_view B db)(i := None)"
    using inv_remove [OF assms(1) g] by simp_all
  have "bo_view_err B tx = bo_view_err B db" using tx(2) delete_open by fastforce
  then show "store_ready B db' = store_ready B db"
    using delete_open [OF tx(1)] by (simp add: store_ready_def)
qed

lemma foreach_mem: "(k, v) \<in> set (bo_foreach B db b) \<longleftrightarrow> bo_get B db b k = Some v"
  using foreach_keys [of db b] foreach_get [of db b k] by (metis map_of_eq_Some_iff)

lemma view_iff:
  "store_view B db i = Some e \<longleftrightarrow>
     (\<exists>v. bo_get B db resources i = Some v \<and> unmarshal_entry v = Inr e)"
  by (auto simp: store_view_def split: option.splits sum.splits)

lemma listing:
  assumes "store_inv B db" "kept tag keep"
  shows "\<exists>es. decode_each tag keep (bo_foreach B db resources) = Inr es \<and> distinct (map re_id es) \<and>
    set es = {e. store_view B db (re_id e) = Some e \<and> keep e}"
proof -
  let ?kvs = "bo_foreach B db resources"
  have "\<forall>(k, v) \<in> set ?kvs. \<exists>e. entry_ok e \<and> re_id e = k \<and> marshal_entry e = Inr v"
    using assms(1) by (auto simp: foreach_mem store_inv_def)
  from decode_each_ok [OF this assms(2)] obtain es where
    es: "decode_each tag keep ?kvs = Inr es"
      "map re_id es = map fst (filter (\<lambda>(k, v). \<exists>e. unmarshal_entry v = Inr e \<and> keep e) ?kvs)"
      "set es = {e. keep e \<and> (\<exists>v. (re_id e, v) \<in> set ?kvs \<and> unmarshal_entry v = Inr e)}"
    by blast
  have "distinct (map re_id es)"
    unfolding es(2) using foreach_keys by (rule distinct_map_filter)
  moreover have "set es = {e. store_view B db (re_id e) = Some e \<and> keep e}"
    unfolding es(3) foreach_mem by (rule Collect_cong) (metis view_iff)
  ultimately show ?thesis using es(1) by blast
qed

lemma list_correct:
  assumes "store_inv B db" "store_list B t db = Inr es"
  shows "distinct (map re_id es) \<and> set es = {e. store_view B db (re_id e) = Some e \<and> re_type e = t}"
  using listing [OF assms(1) kept_type [of t]] assms(2)
  by (auto simp: store_list_def with_view_def split: option.splits)

lemma list_ready_ok:
  assumes "store_inv B db" "store_ready B db"
  shows "\<exists>es. store_list B t db = Inr es"
  using listing [OF assms(1) kept_type [of t]] assms(2)
  by (auto simp: store_list_def with_view_def store_ready_def)

lemma get_cases:
  assumes "store_inv B db"
  shows "store_get B i db =
    (case bo_view_err B db of Some err \<Rightarrow> Inl err
     | None \<Rightarrow> (case store_view B db i of None \<Rightarrow> Inl ErrNotFound | Some e \<Rightarrow> Inr e))"
proof (cases "bo_get B db resources i")
  case None
  then show ?thesis by (simp add: store_get_def with_view_def store_view_def split: option.splits)
next
  case (Some data)
  obtain e where "unmarshal_entry data = Inr e" "store_view B db i = Some e"
    using store_inv_view [OF assms Some] by metis
  with Some show ?thesis by (simp add: store_get_def with_view_def split: option.splits)
qed

end

text \<open>The store over any bbolt meets the contract its clients rely on.\<close>

sublocale bolt_contract \<subseteq> store: state_store "store_ops B" "store_view B" "store_inv B" "store_ready B"
proof (unfold_locales, unfold store_ops_def StateStore.simps)
  fix s i e t es st s' err
  show "store_get B i s = (case store_view B s i of None \<Rightarrow> Inl ErrNotFound | Some e \<Rightarrow> Inr e)"
    if "store_inv B s" "store_ready B s"
    using get_cases [OF that(1)] that(2) by (simp add: store_ready_def)
  show "store_view B s i = Some e" if "store_inv B s" "store_get B i s = Inr e"
    using get_cases [OF that(1)] that(2) by (simp split: option.splits)
  show "store_view B s i = None" if "store_inv B s" "store_get B i s = Inl ErrNotFound"
    using get_cases [OF that(1)] that(2) view_err_open by (fastforce split: option.splits)
  show "re_id e = i \<and> entry_ok e" if "store_inv B s" "store_view B s i = Some e"
    using that store_view_Some by metis
  show "\<exists>es. store_list B t s = Inr es" if "store_inv B s" "store_ready B s"
    using that by (rule list_ready_ok)
  show "distinct (map re_id es) \<and> set es = {e. store_view B s (re_id e) = Some e \<and> re_type e = t}"
    if "store_inv B s" "store_list B t s = Inr es"
    using that by (rule list_correct)
  show "store_inv B s' \<and> store_ready B s' = store_ready B s \<and> store_view B s' = (store_view B s)(re_id e \<mapsto> e)"
    if "store_inv B s" "entry_ok e" "store_put B e s = (None, s')"
    using put_correct [OF that] by simp
  show "store_inv B s' \<and> store_ready B s' = store_ready B s \<and>
      (\<exists>e. store_view B s i = Some e \<and> store_view B s' = (store_view B s)(i \<mapsto> e\<lparr>re_status := st\<rparr>))"
    if "store_inv B s" "valid_utf8 st" "store_update_status B i st s = (None, s')"
    using update_status_correct [OF that] by simp
  show "store_inv B s' \<and> store_ready B s' = store_ready B s \<and> store_view B s' = (store_view B s)(i := None)"
    if "store_inv B s" "store_delete B i s = (None, s')"
    using delete_correct [OF that] by simp
  show "s' = s" if "store_put B e s = (Some err, s')"
    using that unfolding store_put_def by (rule update_rollback)
  show "s' = s" if "store_update_status B i st s = (Some err, s')"
    using that unfolding store_update_status_def by (rule update_rollback)
  show "s' = s" if "store_delete B i s = (Some err, s')"
    using that unfolding store_delete_def Let_def by (rule update_rollback)
qed

context bolt_contract
begin

lemma is_state_store: "state_store (store_ops B) (store_view B) (store_inv B) (store_ready B)"
  by (rule store.state_store_axioms)

end

section \<open>A bbolt\<close>

text \<open>
  An in-memory database that behaves as bbolt documents: a closed one refuses transactions, a
  transaction that fails leaves nothing behind, a missing bucket is a nil pointer, an empty key is
  refused, and a bucket is walked in key order.
\<close>

record kvdb =
  kv_open :: bool
  kv_buckets :: "(string \<times> (string \<times> bytes) list) list"

definition kv_get :: "kvdb \<Rightarrow> string \<Rightarrow> string \<Rightarrow> bytes option" where
  "kv_get db b k =
     (case map_of (kv_buckets db) b of None \<Rightarrow> None | Some kvs \<Rightarrow> map_of kvs k)"

text \<open>bbolt takes keys that are not empty and not longer than 32768 bytes.\<close>

definition storable :: "string \<Rightarrow> bool" where
  "storable k \<longleftrightarrow> k \<noteq> [] \<and> int (length k) \<le> 32768"

definition kv_put :: "kvdb \<Rightarrow> string \<Rightarrow> string \<Rightarrow> bytes \<Rightarrow> store_error + kvdb" where
  "kv_put db b k v =
     (case map_of (kv_buckets db) b of
        None \<Rightarrow> Inl GoPanic
      | Some kvs \<Rightarrow>
          (if k = '''' then Inl (BoltError ''key required'')
           else if \<not> storable k then Inl (BoltError ''key too large'')
           else Inr (db\<lparr>kv_buckets := AList.update b (AList.update k v kvs) (kv_buckets db)\<rparr>)))"

definition kv_delete :: "kvdb \<Rightarrow> string \<Rightarrow> string \<Rightarrow> store_error + kvdb" where
  "kv_delete db b k =
     (case map_of (kv_buckets db) b of
        None \<Rightarrow> Inl GoPanic
      | Some kvs \<Rightarrow> Inr (db\<lparr>kv_buckets := AList.update b (AList.delete k kvs) (kv_buckets db)\<rparr>))"

definition kv_create :: "kvdb \<Rightarrow> string \<Rightarrow> store_error + kvdb" where
  "kv_create db b =
     (case map_of (kv_buckets db) b of
        None \<Rightarrow> Inr (db\<lparr>kv_buckets := AList.update b [] (kv_buckets db)\<rparr>)
      | Some _ \<Rightarrow> Inr db)"

definition kv_foreach :: "kvdb \<Rightarrow> string \<Rightarrow> (string \<times> bytes) list" where
  "kv_foreach db b =
     (case map_of (kv_buckets db) b of
        None \<Rightarrow> []
      | Some kvs \<Rightarrow> sort_key fst (AList.clearjunk kvs))"

definition kv_view_err :: "kvdb \<Rightarrow> store_error option" where
  "kv_view_err db = (if kv_open db then None else Some (BoltError ''database not open''))"

definition kv_update ::
  "kvdb \<Rightarrow> (kvdb \<Rightarrow> store_error + kvdb) \<Rightarrow> store_error option \<times> kvdb" where
  "kv_update db f =
     (case kv_view_err db of
        Some e \<Rightarrow> (Some e, db)
      | None \<Rightarrow> (case f db of Inl e \<Rightarrow> (Some e, db) | Inr db' \<Rightarrow> (None, db')))"

definition kv_bolt :: "kvdb bolt" where
  "kv_bolt =
     \<lparr>bo_update = kv_update, bo_view_err = kv_view_err,
      bo_has = (\<lambda>db b. map_of (kv_buckets db) b \<noteq> None), bo_create = kv_create,
      bo_get = kv_get, bo_put = kv_put, bo_delete = kv_delete, bo_foreach = kv_foreach,
      bo_close = (\<lambda>db. (None, db\<lparr>kv_open := False\<rparr>))\<rparr>"

definition kv_empty :: kvdb where
  "kv_empty = \<lparr>kv_open = True, kv_buckets = [(resources, []), (name_index, []), (meta_bucket, [])]\<rparr>"

lemmas kv_defs = kv_bolt_def kv_get_def kv_put_def kv_delete_def kv_create_def kv_foreach_def
  kv_view_err_def kv_update_def

lemma distinct_fst_sort: "distinct (map fst kvs) \<Longrightarrow> distinct (map fst (sort_key fst kvs))"
  by (simp add: distinct_map)

lemma map_of_sort_key: "distinct (map fst kvs) \<Longrightarrow> map_of (sort_key fst kvs) = map_of kvs"
  by (rule map_of_inject_set [THEN iffD2]) (simp_all add: distinct_fst_sort)

interpretation kv: bolt_contract kv_bolt
  by unfold_locales
    (auto simp: kv_defs update_conv' delete_conv' distinct_clearjunk distinct_fst_sort fun_eq_iff map_of_sort_key map_of_clearjunk
      split: option.splits sum.splits if_splits)

section \<open>The name index\<close>

text \<open>
  The index is exact when it maps a name to an ID just when the entry of that ID has that name,
  which presupposes that no two entries share a name.
\<close>

definition index_exact :: "'db bolt \<Rightarrow> 'db \<Rightarrow> bool" where
  "index_exact B db \<longleftrightarrow>
     bo_has B db name_index \<and>
     (\<forall>n i. bo_get B db name_index n = Some i \<longleftrightarrow>
        (\<exists>e. store_view B db i = Some e \<and> re_kcli_name e = n))"

context bolt_contract
begin

lemma view_resources:
  "(\<And>i. bo_get B db' resources i = bo_get B db resources i) \<Longrightarrow> store_view B db' = store_view B db"
  by (simp add: store_view_def fun_eq_iff)

lemma put_index:
  assumes "store_put B e db = (None, db')"
  shows "bo_get B db' name_index n = (if n = re_kcli_name e then Some (re_id e) else bo_get B db name_index n)"
    and "bo_has B db' = bo_has B db"
proof -
  obtain data tx where p: "marshal_entry e = Inr data" "bo_put B db resources (re_id e) data = Inr tx"
    "bo_put B tx name_index (re_kcli_name e) (re_id e) = Inr db'"
    using assms by (rule put_commit)
  show "bo_get B db' name_index n = (if n = re_kcli_name e then Some (re_id e) else bo_get B db name_index n)"
    using put_get [OF p(2)] put_get [OF p(3)] by auto
  show "bo_has B db' = bo_has B db" using put_has [OF p(2)] put_has [OF p(3)] by simp
qed

lemma delete_index:
  assumes "store_inv B db" "bo_has B db name_index" "store_delete B i db = (None, db')"
  shows "bo_get B db' name_index n =
      (case store_view B db i of
         None \<Rightarrow> bo_get B db name_index n
       | Some e \<Rightarrow> if n = re_kcli_name e then None else bo_get B db name_index n)"
    and "bo_has B db' = bo_has B db"
proof -
  let ?drop = "\<lambda>tx. case bo_get B db resources i of None \<Rightarrow> tx = db
    | Some _ \<Rightarrow> (\<exists>e. store_view B db i = Some e \<and> bo_delete B db name_index (re_kcli_name e) = Inr tx)"
  obtain tx where tx: "?drop tx" "bo_delete B tx resources i = Inr db'"
  proof (cases "bo_get B db resources i")
    case None
    with that update_commit [OF assms(3) [unfolded store_delete_def Let_def]] show ?thesis by simp
  next
    case (Some data)
    obtain e where e: "unmarshal_entry data = Inr e" "store_view B db i = Some e"
      using store_inv_view [OF assms(1) Some] by metis
    obtain tx where "bo_delete B db name_index (re_kcli_name e) = Inr tx"
      using delete_total [OF assms(2)] by blast
    with that Some e update_commit [OF assms(3) [unfolded store_delete_def Let_def]] show ?thesis by simp
  qed
  show "bo_get B db' name_index n =
      (case store_view B db i of
         None \<Rightarrow> bo_get B db name_index n
       | Some e \<Rightarrow> if n = re_kcli_name e then None else bo_get B db name_index n)"
    using tx(1) delete_get [OF tx(2)] delete_get
    by (auto simp: store_view_def split: option.splits)
  show "bo_has B db' = bo_has B db"
    using tx(1) delete_has [OF tx(2)] delete_has by (fastforce split: option.splits)
qed

lemma index_put:
  assumes "store_inv B db" "index_exact B db" "entry_ok e" "store_put B e db = (None, db')"
    and "store_view B db (re_id e) = None"
    and "\<And>i e'. store_view B db i = Some e' \<Longrightarrow> re_kcli_name e' \<noteq> re_kcli_name e"
  shows "index_exact B db'"
  using assms(2,5,6) put_correct(3) [OF assms(1,3,4)] put_index [OF assms(4)]
  by (auto simp: index_exact_def)

lemma index_update_status:
  assumes "store_inv B db" "index_exact B db" "valid_utf8 st" "store_update_status B i st db = (None, db')"
  shows "index_exact B db'"
proof -
  obtain e where e: "store_view B db i = Some e"
    "store_view B db' = (store_view B db)(i \<mapsto> e\<lparr>re_status := st\<rparr>)"
    using update_status_correct(3) [OF assms(1,3,4)] by blast
  obtain data where p: "bo_put B db resources i data = Inr db'"
    using update_commit [OF assms(4) [unfolded store_update_status_def]]
    by (auto split: option.splits sum.splits)
  show ?thesis
    using assms(2) e put_get [OF p] put_has [OF p] by (fastforce simp: index_exact_def)
qed

lemma index_delete:
  assumes "store_inv B db" "index_exact B db" "store_delete B i db = (None, db')"
  shows "index_exact B db'"
proof -
  have h: "bo_has B db name_index" using assms(2) by (simp add: index_exact_def)
  have unique: "j = i" if "store_view B db i = Some e" "store_view B db j = Some e'"
    "re_kcli_name e' = re_kcli_name e" for j e e'
    using assms(2) that unfolding index_exact_def by (metis option.inject)
  show ?thesis
    using assms(2) delete_index [OF assms(1) h assms(3)] delete_correct(3) [OF assms(1,3)] unique
    by (auto simp: index_exact_def split: option.splits if_splits)
qed

lemma find_exact:
  assumes "store_inv B db" "store_ready B db" "index_exact B db"
  shows "store_find_by_kcli_name B n db = Inr e \<longleftrightarrow>
     store_view B db (re_id e) = Some e \<and> re_kcli_name e = n"
proof -
  have "store_view B db i = Some e \<longleftrightarrow> (\<exists>v. bo_get B db resources i = Some v \<and> unmarshal_entry v = Inr e)"
    for i by (rule view_iff)
  then have "store_find_by_kcli_name B n db = Inr e \<longleftrightarrow>
     (\<exists>i. bo_get B db name_index n = Some i \<and> store_view B db i = Some e)"
    using assms(2)
    by (auto simp: store_find_by_kcli_name_def with_view_def store_ready_def split: option.splits)
  also have "\<dots> \<longleftrightarrow> store_view B db (re_id e) = Some e \<and> re_kcli_name e = n"
    using assms(3) store_view_Some [OF assms(1)] by (fastforce simp: index_exact_def)
  finally show ?thesis .
qed

end

end
