(* ===== verification/Live.thy ===== *)
theory Live
  imports Store
begin

text \<open>
  The store when nothing outside it fails: with the database open, its buckets present and no I/O
  error, every write is accepted. \<open>live_store\<close> extends the contract of the store with that, and
  \<open>live_bolt\<close> is what it takes of bbolt.
\<close>

locale live_store = state_store +
  assumes put_live:
      "inv s \<Longrightarrow> ready s \<Longrightarrow> entry_ok e \<Longrightarrow> storable (re_id e) \<Longrightarrow> storable (re_kcli_name e) \<Longrightarrow>
       fst (ss_put S e s) = None"
    and update_live:
      "inv s \<Longrightarrow> ready s \<Longrightarrow> view s i = Some e \<Longrightarrow> valid_utf8 st \<Longrightarrow>
       fst (ss_update_status S i st s) = None"
    and delete_live: "inv s \<Longrightarrow> ready s \<Longrightarrow> fst (ss_delete S i s) = None"
begin

lemma put_ready:
  assumes "inv s" "ready s" "entry_ok e" "storable (re_id e)" "storable (re_kcli_name e)"
  obtains s' where "ss_put S e s = (None, s')" "inv s'" "ready s'" "view s' = (view s)(re_id e \<mapsto> e)"
proof -
  obtain s' where "ss_put S e s = (None, s')" using put_live [OF assms] by (metis prod.collapse)
  with that put_ok [OF assms(1,3)] assms(2) show thesis by blast
qed

lemma update_ready:
  assumes "inv s" "ready s" "view s i = Some e" "valid_utf8 st"
  obtains s' where "ss_update_status S i st s = (None, s')" "inv s'" "ready s'"
    "view s' = (view s)(i \<mapsto> e\<lparr>re_status := st\<rparr>)"
proof -
  obtain s' where u: "ss_update_status S i st s = (None, s')"
    using update_live [OF assms] by (metis prod.collapse)
  with that update_ok [OF assms(1,4) u] assms(2,3) show thesis by auto
qed

lemma delete_ready:
  assumes "inv s" "ready s"
  obtains s' where "ss_delete S i s = (None, s')" "inv s'" "ready s'" "view s' = (view s)(i := None)"
proof -
  obtain s' where "ss_delete S i s = (None, s')" using delete_live [OF assms] by (metis prod.collapse)
  with that delete_ok [OF assms(1)] assms(2) show thesis by blast
qed

text \<open>What a delete request does to the store: mark, and then remove or put the status back.\<close>

lemma deleting_steps:
  assumes "inv s" "ready s" "view s i = Some e"
  shows "\<exists>s1 s2 s3. ss_update_status S i ''DELETING'' s = (None, s1) \<and>
    ss_update_status S i (re_status e) s1 = (None, s2) \<and> inv s2 \<and> ready s2 \<and> view s2 = view s \<and>
    ss_delete S i s1 = (None, s3) \<and> inv s3 \<and> ready s3 \<and> view s3 = (view s)(i := None)"
proof -
  have "valid_utf8 ''DELETING''" by (simp add: utf8_len_ascii Let_def)
  from update_ready [OF assms this] obtain s1 where
    s1: "ss_update_status S i ''DELETING'' s = (None, s1)" "inv s1" "ready s1"
      "view s1 = (view s)(i \<mapsto> e\<lparr>re_status := ''DELETING''\<rparr>)" .
  have "valid_utf8 (re_status e)" using view_id [OF assms(1,3)] by (simp add: entry_ok_def)
  moreover have "view s1 i = Some (e\<lparr>re_status := ''DELETING''\<rparr>)" by (simp add: s1(4))
  ultimately obtain s2 where s2: "ss_update_status S i (re_status e) s1 = (None, s2)" "inv s2" "ready s2"
      "view s2 = (view s1)(i \<mapsto> (e\<lparr>re_status := ''DELETING''\<rparr>)\<lparr>re_status := re_status e\<rparr>)"
    using update_ready [OF s1(2,3)] by metis
  have v2: "view s2 = view s" unfolding s2(4) s1(4) using assms(3) by auto
  obtain s3 where s3: "ss_delete S i s1 = (None, s3)" "inv s3" "ready s3" "view s3 = (view s1)(i := None)"
    using delete_ready [OF s1(2,3)] by metis
  have "view s3 = (view s)(i := None)" unfolding s3(4) s1(4) by simp
  with s1(1) s2(1-3) v2 s3(1-3) show ?thesis by blast
qed

end

section \<open>bbolt without I/O errors\<close>

locale live_bolt = bolt_contract +
  assumes update_runs: "bo_view_err B db = None \<Longrightarrow> f db = Inr db' \<Longrightarrow> bo_update B db f = (None, db')"
    and put_runs: "bo_has B db b \<Longrightarrow> storable k \<Longrightarrow> \<exists>db'. bo_put B db b k v = Inr db'"
    and put_key: "bo_put B db b k v = Inr db' \<Longrightarrow> storable k"

definition live_inv :: "'db bolt \<Rightarrow> 'db \<Rightarrow> bool" where
  "live_inv B db \<longleftrightarrow>
     store_inv B db \<and> bo_has B db resources \<and> bo_has B db name_index \<and>
     (\<forall>i e. store_view B db i = Some e \<longrightarrow> storable i)"

context live_bolt
begin

lemma put_accepted:
  assumes "live_inv B db" "store_ready B db" "entry_ok e" "storable (re_id e)" "storable (re_kcli_name e)"
  shows "\<exists>db'. store_put B e db = (None, db')"
proof -
  obtain t where "fmt_time (re_created_at e) = Some t" using assms(3) by (auto simp: entry_ok_def)
  then obtain data where m: "marshal_entry e = Inr data" by (simp add: marshal_entry_def)
  obtain tx where tx: "bo_put B db resources (re_id e) data = Inr tx"
    using put_runs assms(1,4) by (metis live_inv_def)
  moreover have "bo_has B tx name_index" using put_has [OF tx] assms(1) by (simp add: live_inv_def)
  then obtain db' where "bo_put B tx name_index (re_kcli_name e) (re_id e) = Inr db'"
    using put_runs assms(5) by blast
  ultimately show ?thesis
    using update_runs [of db _ db'] assms(2) m by (simp add: store_put_def store_ready_def)
qed

lemma update_accepted:
  assumes "live_inv B db" "store_ready B db" "store_view B db i = Some e" "valid_utf8 st"
  shows "\<exists>db'. store_update_status B i st db = (None, db')"
proof -
  have inv: "store_inv B db" using assms(1) by (simp add: live_inv_def)
  obtain data where d: "bo_get B db resources i = Some data" "entry_ok e" "unmarshal_entry data = Inr e"
    using store_view_Some [OF inv assms(3)] by metis
  have "entry_ok (e\<lparr>re_status := st\<rparr>)" using d(2) assms(4) by (rule entry_ok_status)
  then obtain t where "fmt_time (re_created_at (e\<lparr>re_status := st\<rparr>)) = Some t"
    by (auto simp: entry_ok_def)
  then obtain data' where m: "marshal_entry (e\<lparr>re_status := st\<rparr>) = Inr data'"
    by (simp add: marshal_entry_def)
  obtain db' where "bo_put B db resources i data' = Inr db'"
    using put_runs assms(1,3) by (metis live_inv_def)
  then show ?thesis
    using update_runs [of db _ db'] assms(2) d m by (simp add: store_update_status_def store_ready_def)
qed

lemma delete_accepted:
  assumes "live_inv B db" "store_ready B db"
  shows "\<exists>db'. store_delete B i db = (None, db')"
proof -
  have inv: "store_inv B db" and h: "bo_has B db resources" "bo_has B db name_index"
    using assms(1) by (simp_all add: live_inv_def)
  define tx where "tx =
    (case bo_get B db resources i of
       None \<Rightarrow> db
     | Some data \<Rightarrow>
         (case unmarshal_entry data of
            Inl _ \<Rightarrow> db
          | Inr entry \<Rightarrow>
              (case bo_delete B db name_index (re_kcli_name entry) of Inl _ \<Rightarrow> db | Inr tx' \<Rightarrow> tx')))"
  have "bo_has B tx resources"
    using h(1) delete_has by (fastforce simp: tx_def split: option.splits sum.splits)
  then obtain db' where "bo_delete B tx resources i = Inr db'" using delete_total by blast
  then show ?thesis
    using update_runs [of db _ db'] assms(2) by (simp add: store_delete_def store_ready_def tx_def Let_def)
qed

lemma live_put:
  assumes "live_inv B db" "entry_ok e" "store_put B e db = (None, db')"
  shows "live_inv B db' \<and> store_ready B db' = store_ready B db \<and>
    store_view B db' = (store_view B db)(re_id e \<mapsto> e)"
proof -
  have "store_inv B db" using assms(1) by (simp add: live_inv_def)
  note p = put_correct [OF this assms(2,3)]
  have "storable (re_id e)" using put_commit [OF assms(3)] put_key by metis
  with p put_index(2) [OF assms(3)] assms(1) show ?thesis by (simp add: live_inv_def)
qed

lemma live_update:
  assumes "live_inv B db" "valid_utf8 st" "store_update_status B i st db = (None, db')"
  shows "live_inv B db' \<and> store_ready B db' = store_ready B db \<and>
    (\<exists>e. store_view B db i = Some e \<and> store_view B db' = (store_view B db)(i \<mapsto> e\<lparr>re_status := st\<rparr>))"
proof -
  have "store_inv B db" using assms(1) by (simp add: live_inv_def)
  note p = update_status_correct [OF this assms(2,3)]
  obtain data where "bo_put B db resources i data = Inr db'"
    using update_commit [OF assms(3) [unfolded store_update_status_def]]
    by (auto split: option.splits sum.splits)
  then have "bo_has B db' = bo_has B db" by (rule put_has)
  with p assms(1) show ?thesis by (auto simp: live_inv_def split: if_splits)
qed

lemma live_delete:
  assumes "live_inv B db" "store_delete B i db = (None, db')"
  shows "live_inv B db' \<and> store_ready B db' = store_ready B db \<and>
    store_view B db' = (store_view B db)(i := None)"
proof -
  have inv: "store_inv B db" and h: "bo_has B db name_index"
    using assms(1) by (simp_all add: live_inv_def)
  from delete_correct [OF inv assms(2)] delete_index(2) [OF inv h assms(2)] assms(1)
  show ?thesis by (auto simp: live_inv_def split: if_splits)
qed

end

sublocale live_bolt \<subseteq> live: live_store "store_ops B" "store_view B" "live_inv B" "store_ready B"
proof (unfold_locales, unfold store_ops_def StateStore.simps)
  fix s i e t es st s' err
  have inv: "store_inv B s" if "live_inv B s" using that by (simp add: live_inv_def)
  show "store_get B i s = (case store_view B s i of None \<Rightarrow> Inl ErrNotFound | Some e \<Rightarrow> Inr e)"
    if "live_inv B s" "store_ready B s"
    using store.get_ready [OF inv that(2)] that(1) by (simp add: store_ops_def)
  show "store_view B s i = Some e" if "live_inv B s" "store_get B i s = Inr e"
    using store.get_found [OF inv] that by (simp add: store_ops_def)
  show "store_view B s i = None" if "live_inv B s" "store_get B i s = Inl ErrNotFound"
    using store.get_missing [OF inv] that by (simp add: store_ops_def)
  show "re_id e = i \<and> entry_ok e" if "live_inv B s" "store_view B s i = Some e"
    using store.view_id [OF inv] that by blast
  show "\<exists>es. store_list B t s = Inr es" if "live_inv B s" "store_ready B s"
    using list_ready_ok [OF inv that(2)] that(1) by simp
  show "distinct (map re_id es) \<and> set es = {e. store_view B s (re_id e) = Some e \<and> re_type e = t}"
    if "live_inv B s" "store_list B t s = Inr es"
    using list_correct [OF inv that(2)] that(1) by simp
  show "live_inv B s' \<and> store_ready B s' = store_ready B s \<and> store_view B s' = (store_view B s)(re_id e \<mapsto> e)"
    if "live_inv B s" "entry_ok e" "store_put B e s = (None, s')"
    using live_put [OF that] .
  show "live_inv B s' \<and> store_ready B s' = store_ready B s \<and>
      (\<exists>e. store_view B s i = Some e \<and> store_view B s' = (store_view B s)(i \<mapsto> e\<lparr>re_status := st\<rparr>))"
    if "live_inv B s" "valid_utf8 st" "store_update_status B i st s = (None, s')"
    using live_update [OF that] .
  show "live_inv B s' \<and> store_ready B s' = store_ready B s \<and> store_view B s' = (store_view B s)(i := None)"
    if "live_inv B s" "store_delete B i s = (None, s')"
    using live_delete [OF that] .
  show "s' = s" if "store_put B e s = (Some err, s')"
    using that unfolding store_put_def by (rule update_rollback)
  show "s' = s" if "store_update_status B i st s = (Some err, s')"
    using that unfolding store_update_status_def by (rule update_rollback)
  show "s' = s" if "store_delete B i s = (Some err, s')"
    using that unfolding store_delete_def Let_def by (rule update_rollback)
  show "fst (store_put B e s) = None"
    if "live_inv B s" "store_ready B s" "entry_ok e" "storable (re_id e)" "storable (re_kcli_name e)"
    using put_accepted [OF that] by auto
  show "fst (store_update_status B i st s) = None"
    if "live_inv B s" "store_ready B s" "store_view B s i = Some e" "valid_utf8 st"
    using update_accepted [OF that] by auto
  show "fst (store_delete B i s) = None" if "live_inv B s" "store_ready B s"
    using delete_accepted [OF that, of i] by auto
qed

context live_bolt
begin

lemma is_live_store: "live_store (store_ops B) (store_view B) (live_inv B) (store_ready B)"
  by (rule live.live_store_axioms)

lemma is_live_state_store: "state_store (store_ops B) (store_view B) (live_inv B) (store_ready B)"
  by (rule live.state_store_axioms)

end

interpretation live_kv: live_bolt kv_bolt
  by unfold_locales (auto simp: kv_defs storable_def split: option.splits if_splits)

end
