(* ===== verification/World.thy ===== *)
theory World
  imports Helpers Events Live
begin

text \<open>
  The state the handlers and the monitor act on, and the server's configuration
  (\<open>StrictServerImpl\<close> in internal/api/server/impl.go).

  A world holds the states behind the three interfaces (store, kweb client, publisher), what the
  server itself keeps (the kubeconfig cache, the gauge \<open>ResourcesManaged\<close>), and how many readings
  of the clock and draws of UUIDs have been taken. The clock, the UUIDs, the YAML parser, the
  texts of \<open>encoding/json\<close> errors and the verb \<open>%q\<close> of fmt are parameters, fields of the server
  record.
\<close>

record CachedKubeconfig =
  ck_kubeconfig :: string
  ck_endpoint :: string
  ck_fetched_at :: time

record ('s, 'k, 'p) World =
  w_store :: 's
  w_kweb :: 'k
  w_pub :: 'p
  w_managed :: "string \<Rightarrow> int"
  w_kc_cache :: "(string \<times> CachedKubeconfig) list"
  w_ticks :: nat
  w_uuids :: nat

record ProfileCache =
  pc_profiles :: "string list"
  pc_has_profile :: "string \<Rightarrow> bool"

record Kubeconfig =
  kc_current_context :: string
  kc_contexts :: "(string \<times> string) list"   \<comment> \<open>name and cluster\<close>
  kc_clusters :: "(string \<times> string) list"   \<comment> \<open>name and server\<close>

record ('s, 'k, 'p) Server =
  sv_kweb :: "'k KwebClient"
  sv_store :: "'s StateStore"
  sv_publisher :: "'p Publisher"
  sv_profiles :: "ProfileCache option"
  sv_version :: string
  sv_started_at :: time
  sv_clock :: "nat \<Rightarrow> time"
  sv_uuid :: "nat \<Rightarrow> string"
  sv_yaml :: "string \<Rightarrow> Kubeconfig option"
  sv_json_err :: string
  sv_quote :: "string \<Rightarrow> string"

text \<open>\<open>cx n\<close> is \<open>ctx.Err()\<close> of the request at the n-th reading of the clock.\<close>

type_synonym ctx = "nat \<Rightarrow> string option"

section \<open>Effects\<close>

definition now :: "('s, 'k, 'p) Server \<Rightarrow> ('s, 'k, 'p) World \<Rightarrow> time \<times> ('s, 'k, 'p) World" where
  "now V w = (sv_clock V (w_ticks w), w\<lparr>w_ticks := Suc (w_ticks w)\<rparr>)"

definition on_store :: "('s \<Rightarrow> 'r \<times> 's) \<Rightarrow> ('s, 'k, 'p) World \<Rightarrow> 'r \<times> ('s, 'k, 'p) World" where
  "on_store f w = (case f (w_store w) of (r, s) \<Rightarrow> (r, w\<lparr>w_store := s\<rparr>))"

definition on_kweb :: "('k \<Rightarrow> 'r \<times> 'k) \<Rightarrow> ('s, 'k, 'p) World \<Rightarrow> 'r \<times> ('s, 'k, 'p) World" where
  "on_kweb f w = (case f (w_kweb w) of (r, k) \<Rightarrow> (r, w\<lparr>w_kweb := k\<rparr>))"

definition on_pub :: "('p \<Rightarrow> 'r \<times> 'p) \<Rightarrow> ('s, 'k, 'p) World \<Rightarrow> 'r \<times> ('s, 'k, 'p) World" where
  "on_pub f w = (case f (w_pub w) of (r, p) \<Rightarrow> (r, w\<lparr>w_pub := p\<rparr>))"

definition gauge_add :: "string \<Rightarrow> int \<Rightarrow> ('s, 'k, 'p) World \<Rightarrow> ('s, 'k, 'p) World" where
  "gauge_add ty d w = w\<lparr>w_managed := (w_managed w)(ty := w_managed w ty + d)\<rparr>"

definition store_error_text :: "string \<Rightarrow> store_error \<Rightarrow> string" where
  "store_error_text json_err e =
     (case e of
        ErrNotFound \<Rightarrow> ''resource not found''
      | JsonError \<Rightarrow> json_err
      | BoltError s \<Rightarrow> s
      | GoPanic \<Rightarrow> ''panic'')"

text \<open>Which fields an effect leaves alone.\<close>

lemma now_effect [effect_simps]:
  "w_store (snd (now V w)) = w_store w" "w_kweb (snd (now V w)) = w_kweb w"
  "w_pub (snd (now V w)) = w_pub w" "w_managed (snd (now V w)) = w_managed w"
  "w_kc_cache (snd (now V w)) = w_kc_cache w" "w_ticks (snd (now V w)) = Suc (w_ticks w)"
  "w_uuids (snd (now V w)) = w_uuids w"
  by (simp_all add: now_def)

lemma on_store_effect [effect_simps]:
  "w_store (snd (on_store f w)) = snd (f (w_store w))" "fst (on_store f w) = fst (f (w_store w))"
  "w_kweb (snd (on_store f w)) = w_kweb w"
  "w_pub (snd (on_store f w)) = w_pub w" "w_managed (snd (on_store f w)) = w_managed w"
  "w_kc_cache (snd (on_store f w)) = w_kc_cache w" "w_ticks (snd (on_store f w)) = w_ticks w"
  "w_uuids (snd (on_store f w)) = w_uuids w"
  by (simp_all add: on_store_def split: prod.splits)

lemma on_kweb_effect [effect_simps]:
  "w_kweb (snd (on_kweb f w)) = snd (f (w_kweb w))" "fst (on_kweb f w) = fst (f (w_kweb w))"
  "w_store (snd (on_kweb f w)) = w_store w"
  "w_pub (snd (on_kweb f w)) = w_pub w" "w_managed (snd (on_kweb f w)) = w_managed w"
  "w_kc_cache (snd (on_kweb f w)) = w_kc_cache w" "w_ticks (snd (on_kweb f w)) = w_ticks w"
  "w_uuids (snd (on_kweb f w)) = w_uuids w"
  by (simp_all add: on_kweb_def split: prod.splits)

lemma on_pub_effect [effect_simps]:
  "w_pub (snd (on_pub f w)) = snd (f (w_pub w))" "fst (on_pub f w) = fst (f (w_pub w))"
  "w_store (snd (on_pub f w)) = w_store w"
  "w_kweb (snd (on_pub f w)) = w_kweb w" "w_managed (snd (on_pub f w)) = w_managed w"
  "w_kc_cache (snd (on_pub f w)) = w_kc_cache w" "w_ticks (snd (on_pub f w)) = w_ticks w"
  "w_uuids (snd (on_pub f w)) = w_uuids w"
  by (simp_all add: on_pub_def split: prod.splits)

lemma gauge_add_effect [effect_simps]:
  "w_managed (gauge_add ty d w) ty' = (if ty' = ty then w_managed w ty + d else w_managed w ty')"
  "w_store (gauge_add ty d w) = w_store w" "w_kweb (gauge_add ty d w) = w_kweb w"
  "w_pub (gauge_add ty d w) = w_pub w" "w_kc_cache (gauge_add ty d w) = w_kc_cache w"
  "w_ticks (gauge_add ty d w) = w_ticks w" "w_uuids (gauge_add ty d w) = w_uuids w"
  by (simp_all add: gauge_add_def)

end
