(* ===== verification/Vm_Handlers.thy ===== *)
theory Vm_Handlers
  imports World "HOL-Library.Multiset" "HOL-Library.Product_Lexorder"
begin

text \<open>
  The VM operations of the REST API (internal/api/server/vm_handlers.go) over the server \<open>V\<close> and a
  world, with the parts they share with the cluster operations: the order of a listing and its
  pages.
\<close>

section \<open>Listing\<close>

text \<open>Newest first, ties by ID.\<close>

definition entry_before :: "ResourceEntry \<Rightarrow> ResourceEntry \<Rightarrow> bool" where
  "entry_before a b =
     (if re_created_at a = re_created_at b then re_id a < re_id b
      else re_created_at b < re_created_at a)"

definition entry_rank :: "ResourceEntry \<Rightarrow> (int \<times> string)" where
  "entry_rank e = (- re_created_at e, re_id e)"

text \<open>\<open>sort.Slice\<close> with that comparison; on distinct IDs the comparison decides every pair.\<close>

fun insert_entry :: "ResourceEntry \<Rightarrow> ResourceEntry list \<Rightarrow> ResourceEntry list" where
  "insert_entry e [] = [e]"
| "insert_entry e (x # xs) = (if entry_before x e then x # insert_entry e xs else e # x # xs)"

definition sort_entries :: "ResourceEntry list \<Rightarrow> ResourceEntry list" where
  "sort_entries es = foldr insert_entry es []"

definition default_page_size :: int where "default_page_size = 50"

definition page_size :: "int option \<Rightarrow> int" where
  "page_size max_page_size =
     (case max_page_size of
        Some n \<Rightarrow> (if 0 < n then n else default_page_size)
      | None \<Rightarrow> default_page_size)"

text \<open>The index a page token stands for; a token that is not a natural number is refused.\<close>

definition start_index :: "string option \<Rightarrow> string + int" where
  "start_index page_token =
     (case given page_token of
        None \<Rightarrow> Inr 0
      | Some t \<Rightarrow>
          (case atoi t of
             None \<Rightarrow> Inl t
           | Some v \<Rightarrow> (if v < 0 then Inl t else Inr v)))"

definition page :: "int \<Rightarrow> int \<Rightarrow> 'a list \<Rightarrow> string option \<times> 'a list" where
  "page max_page_size start_idx results =
     (let start_idx = (if int (length results) < start_idx then int (length results) else start_idx);
          rest = drop (nat start_idx) results in
      if max_page_size < int (length rest) then
        (Some (itoa (wrap64 (start_idx + max_page_size))), take (nat max_page_size) rest)
      else (None, rest))"

section \<open>VMs\<close>

definition entry_to_vm :: "ResourceEntry \<Rightarrow> VM" where
  "entry_to_vm entry =
     \<lparr>vm_id = Some (re_id entry), vm_ip = None, vm_path = Some (''vms/'' @ re_id entry),
      vm_spec =
        empty_vm_spec\<lparr>vs_service_type := ''vm'',
          vs_metadata := Some \<lparr>sm_labels = None, sm_name = trim_prefix (re_kcli_name entry) dcm_prefix\<rparr>,
          vs_guest_os := Some \<lparr>go_type = ''''\<rparr>\<rparr>,
      vm_ssh_user = None, vm_status = Some (re_status entry)\<rparr>"

definition with_kweb_info :: "VMInfo \<Rightarrow> VM \<Rightarrow> VM" where
  "with_kweb_info kvm vm =
     vm\<lparr>vm_ip := (if vi_ip kvm \<noteq> '''' then Some (vi_ip kvm) else vm_ip vm),
        vm_ssh_user := (if vi_user kvm \<noteq> '''' then Some (vi_user kvm) else vm_ssh_user vm)\<rparr>"

text \<open>The parameters of a create request, before and after the hints.\<close>

definition vm_base_params :: "VMSpec \<Rightarrow> params" where
  "vm_base_params spec =
     (let params = [];
          params =
            (case Option.bind (vs_memory spec) (\<lambda>m. parse_memory_size (me_size m)) of
               Some mb \<Rightarrow> (if 0 < mb then map_set ''parameters[memory]'' (int_json mb) params else params)
             | None \<Rightarrow> params);
          params =
            (case Option.bind (vs_vcpu spec) vc_count of
               Some n \<Rightarrow> map_set ''parameters[numcpus]'' (int_json n) params
             | None \<Rightarrow> params) in
      case given (Option.bind (vs_access spec) ac_ssh_public_key) of
        Some key \<Rightarrow> map_set ''parameters[keys]'' (JArr [JStr key]) params
      | None \<Rightarrow> params)"

definition vm_params :: "VMSpec \<Rightarrow> params" where
  "vm_params spec = merge_kcli_hints (vs_provider_hints spec) (vm_base_params spec) [''profile'']"

definition find_existing ::
  "('s, 'k, 'p) Server \<Rightarrow> string option \<Rightarrow> ('s, 'k, 'p) World \<Rightarrow> ResourceEntry option" where
  "find_existing V client_id w =
     (case given client_id of
        None \<Rightarrow> None
      | Some i \<Rightarrow> (case ss_get (sv_store V) i (w_store w) of Inl _ \<Rightarrow> None | Inr e \<Rightarrow> Some e))"

definition quoted :: "string \<Rightarrow> string" where
  "quoted s = CHR 0x27 # s @ [CHR 0x27]"

definition conflicting_id :: "string option \<Rightarrow> ResourceEntry \<Rightarrow> string" where
  "conflicting_id client_id existing =
     ''ID '' @ quoted (case client_id of Some i \<Rightarrow> i | None \<Rightarrow> '''') @ '' already exists as a ''
     @ re_type existing"

definition profile_refused :: "('s, 'k, 'p) Server \<Rightarrow> string \<Rightarrow> bool" where
  "profile_refused V profile =
     (case sv_profiles V of
        None \<Rightarrow> False
      | Some pc \<Rightarrow> \<not> pc_has_profile pc profile \<and> pc_profiles pc \<noteq> [])"

definition available_profiles :: "('s, 'k, 'p) Server \<Rightarrow> string" where
  "available_profiles V =
     (case sv_profiles V of None \<Rightarrow> '''' | Some pc \<Rightarrow> join '', '' (pc_profiles pc))"

text \<open>
  \<open>CreateVM\<close>. Each request may draw two UUIDs, one for the name and one for the ID.
\<close>

definition create_vm_error :: "('s, 'k, 'p) Server \<Rightarrow> string \<Rightarrow> kweb_error \<Rightarrow> CreateVMResponse" where
  "create_vm_error V kcli_name err =
     (if err = ErrConflict then
        CreateVM409 (problem_error 409
          (''VM '' @ quoted (trim_prefix kcli_name dcm_prefix) @ '' already exists''))
      else if err = ErrKwebUnreachable then
        CreateVMDefault (problem_error 502 ''kweb is unreachable'') 502
      else CreateVMDefault (problem_error 500 (kweb_error_text (sv_json_err V) err)) 500)"

definition create_new_vm ::
  "('s, 'k, 'p) Server \<Rightarrow> string option \<Rightarrow> VMSpec \<Rightarrow> ('s, 'k, 'p) World \<Rightarrow>
   CreateVMResponse \<times> ('s, 'k, 'p) World" where
  "create_new_vm V client_id spec w =
     (let profile = resolve_vm_profile spec in
      if profile_refused V profile then
        (CreateVM400 (problem_error 400
           (''profile '' @ quoted profile @ '' not found; available profiles: '' @ available_profiles V)), w)
      else
        (let kcli_name = dcm_prefix @ resolve_vm_name spec client_id (sv_uuid V (w_uuids w));
             i = resolve_id client_id (sv_uuid V (Suc (w_uuids w)));
             w = w\<lparr>w_uuids := w_uuids w + 2\<rparr> in
         case on_kweb (kc_create_vm (sv_kweb V) kcli_name profile (vm_params spec)) w of
           (Some err, w) \<Rightarrow> (create_vm_error V kcli_name err, w)
         | (None, w) \<Rightarrow>
             (case now V w of
                (t, w) \<Rightarrow>
                  (case on_store (ss_put (sv_store V)
                          \<lparr>re_id = i, re_kcli_name = kcli_name, re_type = ''vm'',
                           re_status = ''PROVISIONING'', re_created_at = t\<rparr>) w of
                     (Some _, w) \<Rightarrow>
                       (case on_kweb (kc_delete_vm (sv_kweb V) kcli_name) w of
                          (_, w) \<Rightarrow>
                            (CreateVMDefault (problem_error 500 ''failed to persist VM state'') 500, w))
                   | (None, w) \<Rightarrow>
                       (CreateVM201 \<lparr>vm_id = Some i, vm_ip = None, vm_path = Some (''vms/'' @ i),
                                     vm_spec = spec, vm_ssh_user = None,
                                     vm_status = Some ''PROVISIONING''\<rparr>,
                        gauge_add ''vm'' 1 w)))))"

definition create_vm ::
  "('s, 'k, 'p) Server \<Rightarrow> string option \<Rightarrow> VMSpec \<Rightarrow> ('s, 'k, 'p) World \<Rightarrow>
   CreateVMResponse \<times> ('s, 'k, 'p) World" where
  "create_vm V client_id spec w =
     (case find_existing V client_id w of
        Some existing \<Rightarrow>
          (if re_type existing \<noteq> ''vm'' then
             (CreateVMDefault (problem_error 409 (conflicting_id client_id existing)) 409, w)
           else (CreateVM201 (entry_to_vm existing), w))
      | None \<Rightarrow> create_new_vm V client_id spec w)"

text \<open>\<open>ListVMs\<close>: the store and kweb are asked concurrently; neither call touches what the other reads.\<close>

definition invalid_token :: "('s, 'k, 'p) Server \<Rightarrow> string \<Rightarrow> string" where
  "invalid_token V t = ''invalid page_token: '' @ sv_quote V t"

definition vm_result :: "VMInfo list \<Rightarrow> ResourceEntry \<Rightarrow> VM" where
  "vm_result kweb_vms entry =
     (case map_of (rev (map (\<lambda>v. (vi_name v, v)) kweb_vms)) (re_kcli_name entry) of
        Some kvm \<Rightarrow> with_kweb_info kvm (entry_to_vm entry)
      | None \<Rightarrow> entry_to_vm entry)"

definition list_vms ::
  "('s, 'k, 'p) Server \<Rightarrow> ListParams \<Rightarrow> ('s, 'k, 'p) World \<Rightarrow>
   ListVMsResponse \<times> ('s, 'k, 'p) World" where
  "list_vms V params w =
     (case start_index (lp_page_token params) of
        Inl t \<Rightarrow> (ListVMsDefault (problem_error 400 (invalid_token V t)) 400, w)
      | Inr start_idx \<Rightarrow>
          (case on_kweb (kc_list_vms (sv_kweb V)) w of
             (kweb_res, w) \<Rightarrow>
               (case ss_list (sv_store V) ''vm'' (w_store w) of
                  Inl err \<Rightarrow>
                    (ListVMsDefault (problem_error 500 (store_error_text (sv_json_err V) err)) 500, w)
                | Inr store_vms \<Rightarrow>
                    (if kweb_res = Inl ErrKwebUnreachable then
                       (ListVMsDefault (problem_error 502 ''kweb is unreachable'') 502, w)
                     else
                       (let kweb_vms = (case kweb_res of Inr (Some vms) \<Rightarrow> vms | _ \<Rightarrow> []);
                            results = map (vm_result kweb_vms) (sort_entries store_vms);
                            (next_token, results) =
                              page (page_size (lp_max_page_size params)) start_idx results in
                        (ListVMs200 \<lparr>vl_next_page_token = next_token, vl_results = Some results\<rparr>, w))))))"

definition get_vm ::
  "('s, 'k, 'p) Server \<Rightarrow> string \<Rightarrow> ('s, 'k, 'p) World \<Rightarrow> GetVMResponse \<times> ('s, 'k, 'p) World" where
  "get_vm V i w =
     (case ss_get (sv_store V) i (w_store w) of
        Inl err \<Rightarrow>
          (if err = ErrNotFound then
             (GetVM404 (problem_error 404 (''VM '' @ quoted i @ '' not found'')), w)
           else (GetVMDefault (problem_error 500 (store_error_text (sv_json_err V) err)) 500, w))
      | Inr entry \<Rightarrow>
          (case on_kweb (kc_get_vm (sv_kweb V) (re_kcli_name entry)) w of
             (Inl _, w) \<Rightarrow> (GetVM200 (entry_to_vm entry), w)
           | (Inr kvm, w) \<Rightarrow> (GetVM200 (with_kweb_info kvm (entry_to_vm entry)), w)))"

text \<open>
  \<open>DeleteVM\<close>. The results of the two status updates, of the event and of the removal are ignored,
  as in the code.
\<close>

definition delete_vm ::
  "('s, 'k, 'p) Server \<Rightarrow> ctx \<Rightarrow> string \<Rightarrow> ('s, 'k, 'p) World \<Rightarrow>
   DeleteVMResponse \<times> ('s, 'k, 'p) World" where
  "delete_vm V cx i w =
     (case ss_get (sv_store V) i (w_store w) of
        Inl err \<Rightarrow>
          (if err = ErrNotFound then
             (DeleteVM404 (problem_error 404 (''VM '' @ quoted i @ '' not found'')), w)
           else (DeleteVMDefault (problem_error 500 (store_error_text (sv_json_err V) err)) 500, w))
      | Inr entry \<Rightarrow>
          (if re_status entry = ''DELETING'' \<or> re_status entry = ''DELETED'' then (DeleteVM204, w)
           else
             (case on_store (ss_update_status (sv_store V) i ''DELETING'') w of
                (_, w) \<Rightarrow>
                  (case on_kweb (kc_delete_vm (sv_kweb V) (re_kcli_name entry)) w of
                     (Some err, w) \<Rightarrow>
                       (case on_store (ss_update_status (sv_store V) i (re_status entry)) w of
                          (_, w) \<Rightarrow>
                            (if err = ErrKwebUnreachable then
                               (DeleteVMDefault (problem_error 502 ''kweb is unreachable'') 502, w)
                             else
                               (DeleteVMDefault (problem_error 500 (kweb_error_text (sv_json_err V) err)) 500, w)))
                   | (None, w) \<Rightarrow>
                       (case now V w of
                          (t, w) \<Rightarrow>
                            (case on_pub (pub_vm_event (sv_publisher V) (cx (w_ticks w))
                                    \<lparr>ev_id = i, ev_status = ''DELETED'',
                                     ev_message = ''VM '' @ re_kcli_name entry @ '' deleted'',
                                     ev_timestamp = t\<rparr>) w of
                               (_, w) \<Rightarrow>
                                 (case on_store (ss_delete (sv_store V) i) w of
                                    (_, w) \<Rightarrow> (DeleteVM204, gauge_add ''vm'' (- 1) w))))))))"

section \<open>Order and pages\<close>

lemma entry_before_rank: "entry_before a b \<longleftrightarrow> entry_rank a < entry_rank b"
  by (auto simp: entry_before_def entry_rank_def)

lemma set_insert_entry [simp]: "set (insert_entry e xs) = insert e (set xs)"
  by (induction xs) auto

lemma mset_insert_entry [simp]: "mset (insert_entry e xs) = add_mset e (mset xs)"
  by (induction xs) auto

lemma sorted_insert_entry:
  "sorted (map entry_rank xs) \<Longrightarrow> sorted (map entry_rank (insert_entry e xs))"
  by (induction xs) (auto simp: entry_before_rank not_less intro: less_imp_le)

lemma sort_entries_sorted: "sorted (map entry_rank (sort_entries es))"
  unfolding sort_entries_def by (induction es) (auto intro: sorted_insert_entry)

lemma sort_entries_mset: "mset (sort_entries es) = mset es"
  unfolding sort_entries_def by (induction es) auto

lemma sort_entries_set [simp]: "set (sort_entries es) = set es"
  by (metis sort_entries_mset set_mset_mset)

lemma sort_entries_length [simp]: "length (sort_entries es) = length es"
  by (metis sort_entries_mset size_mset)

lemma sort_entries_distinct: "distinct (map re_id es) \<Longrightarrow> distinct (map re_id (sort_entries es))"
  by (metis distinct_count_atmost_1 mset_map set_mset_mset sort_entries_mset set_map)

lemma sort_entries_wrt: "distinct (map re_id es) \<Longrightarrow> sorted_wrt entry_before (sort_entries es)"
proof -
  assume d: "distinct (map re_id es)"
  have "distinct (map re_id (sort_entries es))"
    using d by (rule sort_entries_distinct)
  then have "distinct (map entry_rank (sort_entries es))"
    by (auto simp: distinct_map inj_on_def entry_rank_def)
  then have "sorted_wrt (<) (map entry_rank (sort_entries es))"
    using sort_entries_sorted by (simp add: strict_sorted_iff)
  moreover have "entry_before = (\<lambda>x y. entry_rank x < entry_rank y)"
    by (simp add: fun_eq_iff entry_before_rank)
  ultimately show ?thesis by (simp add: sorted_wrt_map)
qed

lemma rank_inj: "distinct (map re_id es) \<Longrightarrow> inj_on entry_rank (set es)"
  by (auto simp: inj_on_def entry_rank_def distinct_map)

text \<open>
  A list that is in order is the only one: the result does not depend on the sorting algorithm.
\<close>

lemma sort_entries_unique:
  assumes "distinct (map re_id es)" "mset xs = mset es" "sorted (map entry_rank xs)"
  shows "xs = sort_entries es"
proof -
  have "map entry_rank xs = map entry_rank (sort_entries es)"
    using assms(2,3) sort_entries_sorted [of es]
    by (metis mset_map properties_for_sort sort_entries_mset)
  moreover have "set xs = set es" using assms(2) by (metis set_mset_mset)
  then have "inj_on entry_rank (set xs \<union> set (sort_entries es))"
    using rank_inj [OF assms(1)] by simp
  ultimately show ?thesis by (simp add: inj_on_map_eq_map)
qed

lemma page_size_pos: "0 < page_size m"
  by (simp add: page_size_def default_page_size_def split: option.splits)

lemma page_step:
  assumes "s \<le> length xs" "0 < k" "int (length xs) + k \<le> max_int64"
  shows "page k (int s) xs =
    (if int s + k < int (length xs) then (Some (itoa (int s + k)), take (nat k) (drop s xs))
     else (None, drop s xs))"
proof -
  have "wrap64 (int s + k) = int s + k"
    using assms by (intro wrap64_id) (auto simp: min_int64_def)
  with assms show ?thesis by (auto simp: page_def Let_def)
qed

lemma start_index_token:
  assumes "0 \<le> v" "v \<le> max_int64"
  shows "start_index (Some (itoa v)) = Inr v"
  using assms by (simp add: start_index_def given_def itoa_hd atoi_itoa_any min_int64_def)

lemma entry_to_vm_simps [simp]:
  "vm_id (entry_to_vm e) = Some (re_id e)" "vm_status (entry_to_vm e) = Some (re_status e)"
  "vm_path (entry_to_vm e) = Some (''vms/'' @ re_id e)"
  by (simp_all add: entry_to_vm_def)

lemma vm_result_id [simp]: "vm_id (vm_result kvs e) = Some (re_id e)"
  by (simp add: vm_result_def with_kweb_info_def split: option.splits)

text \<open>
  A client that follows the page tokens to the end, at most \<open>n\<close> requests; \<open>f\<close> is a listing
  operation, which answers with a token and a page, or not at all.
\<close>

fun walk ::
  "nat \<Rightarrow> (ListParams \<Rightarrow> 'w \<Rightarrow> (string option \<times> 'r list) option \<times> 'w) \<Rightarrow> int option \<Rightarrow>
   string option \<Rightarrow> 'w \<Rightarrow> 'r list option" where
  "walk 0 f m tok w = None"
| "walk (Suc n) f m tok w =
     (case f \<lparr>lp_max_page_size = m, lp_page_token = tok\<rparr> w of
        (None, w') \<Rightarrow> None
      | (Some (next_tok, rs), w') \<Rightarrow>
          (case next_tok of
             None \<Rightarrow> Some rs
           | Some t \<Rightarrow> map_option (\<lambda>rest. rs @ rest) (walk n f m (Some t) w')))"

text \<open>If every page is cut from the same sequence, the walk reads the sequence.\<close>

lemma walk_from:
  assumes step: "\<And>w tok s. P w \<Longrightarrow> start_index tok = Inr (int s) \<Longrightarrow> s \<le> length xs \<Longrightarrow>
      \<exists>rs w'. f \<lparr>lp_max_page_size = m, lp_page_token = tok\<rparr> w =
          (Some (fst (page (page_size m) (int s) xs), rs), w') \<and>
        map h rs = snd (page (page_size m) (int s) xs) \<and> P w'"
    and len: "int (length xs) + page_size m \<le> max_int64"
  shows "P w \<Longrightarrow> s \<le> length xs \<Longrightarrow> length xs - s < n \<Longrightarrow> start_index tok = Inr (int s) \<Longrightarrow>
    \<exists>rs. walk n f m tok w = Some rs \<and> map h rs = drop s xs"
proof (induction n arbitrary: s tok w)
  case 0
  then show ?case by simp
next
  case (Suc n)
  let ?k = "page_size m"
  have k: "0 < ?k" by (rule page_size_pos)
  obtain rs w' where l: "f \<lparr>lp_max_page_size = m, lp_page_token = tok\<rparr> w =
      (Some (fst (page ?k (int s) xs), rs), w')" "map h rs = snd (page ?k (int s) xs)" "P w'"
    using step [OF Suc.prems(1,4,2)] by blast
  note p = page_step [OF Suc.prems(2) k len]
  show ?case
  proof (cases "int s + ?k < int (length xs)")
    case False
    with l p show ?thesis by simp
  next
    case True
    let ?s = "s + nat ?k"
    have s': "int ?s = int s + ?k" "?s \<le> length xs" "length xs - ?s < n"
      using True k Suc.prems(3) by auto
    have "start_index (Some (itoa (int s + ?k))) = Inr (int ?s)"
      using start_index_token [of "int s + ?k"] s'(1) k len True by auto
    from Suc.IH [OF l(3) s'(2,3) this] obtain rest where
      rest: "walk n f m (Some (itoa (int s + ?k))) w' = Some rest" "map h rest = drop ?s xs"
      by blast
    have "take (nat ?k) (drop s xs) @ drop ?s xs = drop s xs"
      by (metis add.commute append_take_drop_id drop_drop)
    with l p rest True show ?thesis by simp
  qed
qed

definition vm_pages ::
  "('s, 'k, 'p) Server \<Rightarrow> ListParams \<Rightarrow> ('s, 'k, 'p) World \<Rightarrow>
   (string option \<times> VM list) option \<times> ('s, 'k, 'p) World" where
  "vm_pages V params w =
     (case list_vms V params w of
        (ListVMs200 l, w') \<Rightarrow> (map_option (Pair (vl_next_page_token l)) (vl_results l), w')
      | (_, w') \<Rightarrow> (None, w'))"

lemma page_map: "page k s (map f xs) = (fst (page k s xs), map f (snd (page k s xs)))"
  by (simp add: page_def Let_def take_map drop_map)

lemma vm_pages_step:
  assumes "ss_list (sv_store V) ''vm'' (w_store w) = Inr es"
    and "fst (kc_list_vms (sv_kweb V) (w_kweb w)) \<noteq> Inl ErrKwebUnreachable"
    and "start_index tok = Inr (int s)"
  shows "\<exists>rs w'. vm_pages V \<lparr>lp_max_page_size = m, lp_page_token = tok\<rparr> w =
      (Some (fst (page (page_size m) (int s) (map (\<lambda>e. Some (re_id e)) (sort_entries es))), rs), w') \<and>
    map vm_id rs = snd (page (page_size m) (int s) (map (\<lambda>e. Some (re_id e)) (sort_entries es))) \<and>
    w_store w' = w_store w"
  using assms by (auto simp: vm_pages_def list_vms_def on_kweb_def page_map case_prod_unfold Let_def)

lemma walk_vms_from:
  fixes V :: "('a, 'b, 'c) Server" and w :: "('a, 'b, 'c) World"
  assumes "\<And>k. fst (kc_list_vms (sv_kweb V) k) \<noteq> Inl ErrKwebUnreachable"
    and "int (length es) + page_size m \<le> max_int64" "length es < n"
    and "ss_list (sv_store V) ''vm'' (w_store w) = Inr es"
  shows "\<exists>vms. walk n (vm_pages V) m None w = Some vms \<and>
    map vm_id vms = map (\<lambda>e. Some (re_id e)) (sort_entries es)"
proof -
  let ?xs = "map (\<lambda>e. Some (re_id e)) (sort_entries es)"
  have "\<exists>rs. walk n (vm_pages V) m None w = Some rs \<and> map vm_id rs = drop 0 ?xs"
  proof (rule walk_from [where P = "\<lambda>w' :: ('a, 'b, 'c) World. w_store w' = w_store w"])
    fix w' :: "('a, 'b, 'c) World" and tok s
    assume "w_store w' = w_store w" "start_index tok = Inr (int s)"
    then show "\<exists>rs w''. vm_pages V \<lparr>lp_max_page_size = m, lp_page_token = tok\<rparr> w' =
        (Some (fst (page (page_size m) (int s) ?xs), rs), w'') \<and>
      map vm_id rs = snd (page (page_size m) (int s) ?xs) \<and> w_store w'' = w_store w"
      using vm_pages_step [of V w' es tok s m] assms(1,4) by simp
  qed (use assms(2,3) in \<open>simp_all add: start_index_def given_def\<close>)
  then show ?thesis by simp
qed

section \<open>The create request\<close>

lemma vm_base_distinct: "distinct (map fst (vm_base_params spec))"
  by (simp add: vm_base_params_def Let_def split: option.splits)

lemma vm_base_none:
  "k \<noteq> ''parameters[memory]'' \<Longrightarrow> k \<noteq> ''parameters[numcpus]'' \<Longrightarrow> k \<noteq> ''parameters[keys]'' \<Longrightarrow>
   map_of (vm_base_params spec) k = None"
  by (simp add: vm_base_params_def Let_def split: option.splits)

lemma vm_params_map_of:
  "map_of (add_params (vm_params spec) body) k =
     (case map_of (vm_base_params spec) k of
        Some v \<Rightarrow> Some v
      | None \<Rightarrow>
          (case (if k \<noteq> ''profile'' \<and> k \<in> set allowed_kcli_hint_keys
                 then Option.bind (kcli_section (vs_provider_hints spec)) (\<lambda>m. map_of m k) else None) of
             Some v \<Rightarrow> Some v
           | None \<Rightarrow> map_of body k))"
  unfolding vm_params_def
  by (simp add: add_params_distinct merge_kcli_hints_distinct vm_base_distinct merge_kcli_hints_map_of
      split: option.splits)

section \<open>Over a store\<close>

definition new_vm_entry ::
  "('s, 'k, 'p) Server \<Rightarrow> string option \<Rightarrow> VMSpec \<Rightarrow> ('s, 'k, 'p) World \<Rightarrow> ResourceEntry" where
  "new_vm_entry V client_id spec w =
     \<lparr>re_id = resolve_id client_id (sv_uuid V (Suc (w_uuids w))),
      re_kcli_name = dcm_prefix @ resolve_vm_name spec client_id (sv_uuid V (w_uuids w)),
      re_type = ''vm'', re_status = ''PROVISIONING'', re_created_at = sv_clock V (w_ticks w)\<rparr>"

lemma create_vm_unknown:
  "find_existing V client_id w = None \<Longrightarrow>
   create_vm V client_id spec w = create_new_vm V client_id spec w"
  by (simp add: create_vm_def)

text \<open>kweb sees one create, and a delete of the same name when the entry could not be stored.\<close>

lemma create_vm_kweb:
  assumes "find_existing V client_id w = None" "\<not> profile_refused V (resolve_vm_profile spec)"
    and "create_vm V client_id spec w = (r, w')"
    and "kc_create_vm (sv_kweb V) (re_kcli_name (new_vm_entry V client_id spec w))
           (resolve_vm_profile spec) (vm_params spec) (w_kweb w) = (q, k)"
  shows "w_kweb w' =
      (if q = None \<and> fst (ss_put (sv_store V) (new_vm_entry V client_id spec w) (w_store w)) \<noteq> None
       then snd (kc_delete_vm (sv_kweb V) (re_kcli_name (new_vm_entry V client_id spec w)) k) else k)"
    "(\<exists>vm. r = CreateVM201 vm) \<longleftrightarrow>
      q = None \<and> fst (ss_put (sv_store V) (new_vm_entry V client_id spec w) (w_store w)) = None"
  using assms
  by (auto simp: create_vm_def create_new_vm_def on_kweb_def on_store_def now_def gauge_add_def
      create_vm_error_def Let_def new_vm_entry_def split: if_splits prod.splits option.splits)

context state_store
begin

lemma find_existing_view:
  assumes "inv (w_store w)" "ready (w_store w)" "sv_store V = S"
  shows "find_existing V client_id w = Option.bind (given client_id) (view (w_store w))"
  using get_ready [OF assms(1,2)] assms(3) by (auto simp: find_existing_def split: option.splits)

text \<open>What creating a VM does when no entry was found: exactly one of three.\<close>

lemma create_new_vm_cases:
  assumes "inv (w_store w)" "sv_store V = S"
    and "entry_ok (new_vm_entry V client_id spec w)" "create_new_vm V client_id spec w = (r, w')"
  shows "inv (w_store w')" "ready (w_store w') = ready (w_store w)" "w_pub w' = w_pub w"
    "case r of
       CreateVM201 vm \<Rightarrow>
         vm_id vm = Some (re_id (new_vm_entry V client_id spec w)) \<and>
         vm_status vm = Some ''PROVISIONING'' \<and>
         view (w_store w') = (view (w_store w))
           (re_id (new_vm_entry V client_id spec w) \<mapsto> new_vm_entry V client_id spec w) \<and>
         w_managed w' = (w_managed w)(''vm'' := w_managed w ''vm'' + 1)
     | _ \<Rightarrow> view (w_store w') = view (w_store w) \<and> w_managed w' = w_managed w"
proof -
  let ?e = "new_vm_entry V client_id spec w"
  have p: "inv s'" "ready s' = ready (w_store w)"
    "view s' = (if q = None then (view (w_store w))(re_id ?e \<mapsto> ?e) else view (w_store w))"
    if "ss_put S ?e (w_store w) = (q, s')" for q s'
    using put_cases [OF assms(1,3) that] by simp_all
  note d = create_new_vm_def on_kweb_def on_store_def now_def gauge_add_def create_vm_error_def Let_def
  show "inv (w_store w')" "ready (w_store w') = ready (w_store w)" "w_pub w' = w_pub w"
    using assms(1,2,4) p
    by (auto simp: d new_vm_entry_def split: if_splits prod.splits option.splits)
  show "case r of
       CreateVM201 vm \<Rightarrow>
         vm_id vm = Some (re_id ?e) \<and> vm_status vm = Some ''PROVISIONING'' \<and>
         view (w_store w') = (view (w_store w))(re_id ?e \<mapsto> ?e) \<and>
         w_managed w' = (w_managed w)(''vm'' := w_managed w ''vm'' + 1)
     | _ \<Rightarrow> view (w_store w') = view (w_store w) \<and> w_managed w' = w_managed w"
    using assms(1,2,4) p
    by (auto simp: d new_vm_entry_def fun_eq_iff split: if_splits prod.splits option.splits)
qed

lemma create_vm_new:
  assumes "inv (w_store w)" "sv_store V = S" "find_existing V client_id w = None"
    and "entry_ok (new_vm_entry V client_id spec w)" "create_vm V client_id spec w = (r, w')"
  shows "inv (w_store w')" "ready (w_store w') = ready (w_store w)" "w_pub w' = w_pub w"
    "case r of
       CreateVM201 vm \<Rightarrow>
         vm_id vm = Some (re_id (new_vm_entry V client_id spec w)) \<and>
         vm_status vm = Some ''PROVISIONING'' \<and>
         view (w_store w') = (view (w_store w))
           (re_id (new_vm_entry V client_id spec w) \<mapsto> new_vm_entry V client_id spec w) \<and>
         w_managed w' = (w_managed w)(''vm'' := w_managed w ''vm'' + 1)
     | _ \<Rightarrow> view (w_store w') = view (w_store w) \<and> w_managed w' = w_managed w"
  by (rule create_new_vm_cases [OF assms(1,2,4) assms(5) [unfolded create_vm_unknown [OF assms(3)]]])+

text \<open>Reading and deleting an ID.\<close>

lemma get_vm_view:
  assumes "inv (w_store w)" "ready (w_store w)" "sv_store V = S"
  shows "case view (w_store w) i of
      None \<Rightarrow> get_vm V i w = (GetVM404 (problem_error 404 (''VM '' @ quoted i @ '' not found'')), w)
    | Some e \<Rightarrow> (\<exists>vm k. get_vm V i w = (GetVM200 vm, w\<lparr>w_kweb := k\<rparr>) \<and>
        vm_id vm = Some i \<and> vm_status vm = Some (re_status e) \<and> vm_path vm = Some (''vms/'' @ i))"
proof (cases "view (w_store w) i")
  case None
  with get_ready [OF assms(1,2), of i] assms(3) show ?thesis by (simp add: get_vm_def)
next
  case (Some e)
  obtain q k where "kc_get_vm (sv_kweb V) (re_kcli_name e) (w_kweb w) = (q, k)" by force
  moreover have "re_id e = i" using view_id [OF assms(1) Some] by simp
  ultimately show ?thesis
    using get_ready [OF assms(1,2), of i] assms(3) Some
    by (cases q) (auto simp: get_vm_def on_kweb_def with_kweb_info_def)
qed

lemma delete_vm_missing:
  assumes "inv (w_store w)" "ready (w_store w)" "sv_store V = S" "view (w_store w) i = None"
  shows "delete_vm V cx i w = (DeleteVM404 (problem_error 404 (''VM '' @ quoted i @ '' not found'')), w)"
  using get_ready [OF assms(1,2), of i] assms(3,4) by (simp add: delete_vm_def)

lemma delete_vm_done:
  assumes "inv (w_store w)" "ready (w_store w)" "sv_store V = S" "view (w_store w) i = Some e"
    and "re_status e = ''DELETING'' \<or> re_status e = ''DELETED''"
  shows "delete_vm V cx i w = (DeleteVM204, w)"
  using get_ready [OF assms(1,2), of i] assms(3,4,5) by (simp add: delete_vm_def)

lemma delete_vm_inv:
  assumes "inv (w_store w)" "sv_store V = S"
  shows "inv (w_store (snd (delete_vm V cx i w)))"
proof -
  have "valid_utf8 ''DELETING''" by (simp add: utf8_len_ascii Let_def)
  moreover have "valid_utf8 (re_status e)" if "ss_get S i (w_store w) = Inr e" for e
    using get_found [OF assms(1) that] view_id [OF assms(1)] by (metis entry_ok_def)
  ultimately show ?thesis
    using assms
    by (auto simp: delete_vm_def case_prod_unfold effect_simps update_inv delete_inv
        split: sum.splits option.splits)
qed

end

definition vm_deleted_event :: "string \<Rightarrow> string \<Rightarrow> time \<Rightarrow> StatusEvent" where
  "vm_deleted_event i name t =
     \<lparr>ev_id = i, ev_status = ''DELETED'', ev_message = ''VM '' @ name @ '' deleted'', ev_timestamp = t\<rparr>"

context live_store
begin

lemma delete_vm_live:
  assumes "inv (w_store w)" "ready (w_store w)" "sv_store V = S" "view (w_store w) i = Some e"
    and "re_status e \<noteq> ''DELETING''" "re_status e \<noteq> ''DELETED''"
    and "delete_vm V cx i w = (r, w')"
    and "kc_delete_vm (sv_kweb V) (re_kcli_name e) (w_kweb w) = (q, k)"
  shows "inv (w_store w') \<and> ready (w_store w') \<and> w_kweb w' = k \<and>
    (case q of
       None \<Rightarrow> r = DeleteVM204 \<and> view (w_store w') = (view (w_store w))(i := None) \<and>
         w_managed w' = (w_managed w)(''vm'' := w_managed w ''vm'' - 1) \<and>
         w_pub w' = snd (pub_vm_event (sv_publisher V) (cx (Suc (w_ticks w)))
           (vm_deleted_event i (re_kcli_name e) (sv_clock V (w_ticks w))) (w_pub w))
     | Some err \<Rightarrow> (\<exists>p st. r = DeleteVMDefault p st \<and> st = (if err = ErrKwebUnreachable then 502 else 500)) \<and>
         view (w_store w') = view (w_store w) \<and> w_managed w' = w_managed w \<and> w_pub w' = w_pub w)"
proof -
  obtain s1 s2 s3 where s1: "ss_update_status S i ''DELETING'' (w_store w) = (None, s1)"
    and s2: "ss_update_status S i (re_status e) s1 = (None, s2)" "inv s2" "ready s2" "view s2 = view (w_store w)"
    and s3: "ss_delete S i s1 = (None, s3)" "inv s3" "ready s3" "view s3 = (view (w_store w))(i := None)"
    using deleting_steps [OF assms(1,2,4)] by blast
  have g: "ss_get S i (w_store w) = Inr e" using get_ready [OF assms(1,2), of i] assms(4) by simp
  show ?thesis
  proof (cases q)
    case None
    have "delete_vm V cx i w = (DeleteVM204, w\<lparr>w_store := s3, w_kweb := k, w_ticks := Suc (w_ticks w),
        w_pub := snd (pub_vm_event (sv_publisher V) (cx (Suc (w_ticks w)))
          (vm_deleted_event i (re_kcli_name e) (sv_clock V (w_ticks w))) (w_pub w)),
        w_managed := (w_managed w)(''vm'' := w_managed w ''vm'' - 1)\<rparr>)"
      using None assms(3,5,6,8) g s1 s3(1)
      by (simp add: delete_vm_def on_store_def on_kweb_def on_pub_def now_def gauge_add_def
          vm_deleted_event_def case_prod_unfold)
    with None assms(7) s3 show ?thesis by auto
  next
    case (Some err)
    have "\<exists>p st. delete_vm V cx i w = (DeleteVMDefault p st, w\<lparr>w_store := s2, w_kweb := k\<rparr>) \<and>
        st = (if err = ErrKwebUnreachable then 502 else 500)"
      using Some assms(3,5,6,8) g s1 s2(1)
      by (simp add: delete_vm_def on_store_def on_kweb_def)
    with Some assms(7) s2 show ?thesis by auto
  qed
qed

end

end
