(* ===== verification/Sample.thy ===== *)
theory Sample
  imports Vm_Handlers
begin

text \<open>
  A concrete server for the witnesses: an in-memory bbolt, a kweb that answers every request with
  an empty object, a NATS connection that keeps what it is given, a clock that advances by a day,
  and counted UUIDs.
\<close>

definition demo_server :: "(kvdb, int Client, conn NATSPublisher) Server" where
  "demo_server =
     \<lparr>sv_kweb = kweb_ops up_transport ''http://kweb'', sv_store = store_ops kv_bolt,
      sv_publisher = nats_publisher conn_nats, sv_profiles = None, sv_version = ''1.0'',
      sv_started_at = 0, sv_clock = (\<lambda>n. ns_per_day * int n), sv_uuid = (\<lambda>n. ''uuid-'' @ nat_str n),
      sv_yaml = (\<lambda>_. None), sv_json_err = ''json error'', sv_quote = json_quote\<rparr>"

definition demo_world :: "(kvdb, int Client, conn NATSPublisher) World" where
  "demo_world =
     \<lparr>w_store = kv_empty, w_kweb = new_client 0,
      w_pub = \<lparr>np_conn = Some \<lparr>cn_up = True, cn_log = [], cn_ids = 0\<rparr>, np_left = None,
               np_published = (\<lambda>_. 0)\<rparr>,
      w_managed = (\<lambda>_. 0), w_kc_cache = [], w_ticks = 0, w_uuids = 0\<rparr>"

definition demo_vm_spec :: VMSpec where
  "demo_vm_spec =
     empty_vm_spec\<lparr>vs_service_type := ''vm'', vs_guest_os := Some \<lparr>go_type = ''fedora41''\<rparr>,
       vs_memory := Some \<lparr>me_size = ''2GB''\<rparr>,
       vs_metadata := Some \<lparr>sm_labels = None, sm_name = ''web''\<rparr>\<rparr>"

definition demo_ctx :: ctx where "demo_ctx n = None"

lemma kv_empty_get: "bo_get kv_bolt kv_empty b k = None"
  by (simp add: kv_defs kv_empty_def split: option.splits)

lemma kv_empty_inv: "store_inv kv_bolt kv_empty"
  by (simp add: store_inv_def kv_empty_get)

lemma kv_empty_view [simp]: "store_view kv_bolt kv_empty i = None"
  by (simp add: store_view_def kv_empty_get)

lemma kv_empty_live: "live_inv kv_bolt kv_empty"
  by (simp add: live_inv_def kv_empty_inv) (simp add: kv_bolt_def kv_empty_def)

lemma kv_empty_ready: "store_ready kv_bolt kv_empty"
  by (simp add: store_ready_def kv_bolt_def kv_view_err_def kv_empty_def)

lemma demo_store [simp]:
  "sv_store demo_server = store_ops kv_bolt" "w_store demo_world = kv_empty"
  "w_managed demo_world ty = 0" "w_ticks demo_world = 0"
  by (simp_all add: demo_server_def demo_world_def)

text \<open>The world after the first create.\<close>

definition demo_entry :: ResourceEntry where
  "demo_entry =
     \<lparr>re_id = ''vm-1'', re_kcli_name = ''dcm-web'', re_type = ''vm'', re_status = ''PROVISIONING'',
      re_created_at = 0\<rparr>"

lemma demo_new_entry: "new_vm_entry demo_server (Some ''vm-1'') demo_vm_spec demo_world = demo_entry"
  by code_simp

lemma demo_entry_ok: "entry_ok (new_vm_entry demo_server (Some ''vm-1'') demo_vm_spec demo_world)"
  unfolding demo_new_entry by code_simp

lemma demo_create:
  "fst (create_vm demo_server (Some ''vm-1'') demo_vm_spec demo_world) =
     CreateVM201 \<lparr>vm_id = Some ''vm-1'', vm_ip = None, vm_path = Some ''vms/vm-1'',
       vm_spec = demo_vm_spec, vm_ssh_user = None, vm_status = Some ''PROVISIONING''\<rparr>"
  by code_simp

definition demo_world1 :: "(kvdb, int Client, conn NATSPublisher) World" where
  "demo_world1 = snd (create_vm demo_server (Some ''vm-1'') demo_vm_spec demo_world)"

lemma demo_world1_store:
  "store_inv kv_bolt (w_store demo_world1)" "store_ready kv_bolt (w_store demo_world1)"
  "live_inv kv_bolt (w_store demo_world1)"
  "store_view kv_bolt (w_store demo_world1) = [''vm-1'' \<mapsto> demo_entry]"
proof -
  obtain r w' where c: "create_vm demo_server (Some ''vm-1'') demo_vm_spec demo_world = (r, w')"
    by (metis surj_pair)
  have f: "find_existing demo_server (Some ''vm-1'') demo_world = None" by code_simp
  have w: "demo_world1 = w'" "\<exists>vm. r = CreateVM201 vm"
    using c demo_create by (simp_all add: demo_world1_def)
  note p = state_store.create_vm_new [OF live_kv.is_live_state_store _ demo_store(1) f demo_entry_ok c]
  show "live_inv kv_bolt (w_store demo_world1)" "store_ready kv_bolt (w_store demo_world1)"
    using p kv_empty_live kv_empty_ready w by simp_all
  then show "store_inv kv_bolt (w_store demo_world1)" by (simp add: live_inv_def)
  show "store_view kv_bolt (w_store demo_world1) = [''vm-1'' \<mapsto> demo_entry]"
    using p(4) kv_empty_live w by (auto simp: demo_new_entry demo_entry_def fun_eq_iff)
qed

lemma demo_world1_entries:
  "store_view kv_bolt (w_store demo_world1) (re_id e) = Some e \<longleftrightarrow> e = demo_entry"
proof -
  have "re_id demo_entry = ''vm-1''" by (simp add: demo_entry_def)
  then show ?thesis unfolding demo_world1_store(4) by auto
qed

end
