(* ===== verification/Store_Props.thy ===== *)
theory Store_Props
  imports Sample
begin

text \<open>
  The properties of the store and of the publisher, with their witnesses on the in-memory bbolt of
  theory Store and the connection of theory Events.
\<close>

section \<open>The stored form\<close>

text \<open>
  C29: what is written for an entry is read back as the same entry, field by field, the time to the
  nanosecond; and the bytes hold the tag of the entry's type, so that the listing, which skips
  entries without the tag before it decodes them, skips none of its type.
\<close>

theorem entry_codec:
  assumes "entry_ok e"
  shows "\<exists>data. marshal_entry e = Inr data \<and> unmarshal_entry data = Inr e \<and>
    (case type_tag (re_type e) of None \<Rightarrow> True | Some tag \<Rightarrow> str_contains data tag)"
proof -
  obtain t where "fmt_time (re_created_at e) = Some t" using assms by (auto simp: entry_ok_def)
  then obtain data where d: "marshal_entry e = Inr data" by (simp add: marshal_entry_def)
  with unmarshal_marshal [OF assms d] marshal_tag [OF d] show ?thesis by (auto split: option.splits)
qed

theorem entry_codec_witness:
  "entry_ok demo_entry \<and> (\<exists>data. marshal_entry demo_entry = Inr data \<and> unmarshal_entry data = Inr demo_entry)"
proof -
  have "entry_ok demo_entry" by code_simp
  with entry_codec [OF this] show ?thesis by blast
qed

section \<open>Refinement of a map\<close>

text \<open>
  C5: the store implements a partial map from IDs to entries over any bbolt. A write that succeeds
  has the effect of the map operation and keeps the store well-formed; a write that fails leaves
  the database untouched; an update of an unknown ID fails. Reads change nothing by their type, and
  on an open database a lookup is the map's and the name resolves to the entry's kcli name.
\<close>

theorem store_refines_map:
  assumes "bolt_contract B" and "store_inv B db"
  shows "(entry_ok e \<longrightarrow>
      (case store_put B e db of
         (None, db') \<Rightarrow> store_inv B db' \<and> store_view B db' = (store_view B db)(re_id e \<mapsto> e)
       | (Some err, db') \<Rightarrow> db' = db)) \<and>
    (valid_utf8 st \<longrightarrow>
      (case store_update_status B i st db of
         (None, db') \<Rightarrow> store_inv B db' \<and>
           (\<exists>x. store_view B db i = Some x \<and> store_view B db' = (store_view B db)(i \<mapsto> x\<lparr>re_status := st\<rparr>))
       | (Some err, db') \<Rightarrow> db' = db)) \<and>
    (case store_delete B i db of
       (None, db') \<Rightarrow> store_inv B db' \<and> store_view B db' = (store_view B db)(i := None)
     | (Some err, db') \<Rightarrow> db' = db) \<and>
    (store_ready B db \<longrightarrow>
      store_get B i db = (case store_view B db i of None \<Rightarrow> Inl ErrNotFound | Some x \<Rightarrow> Inr x) \<and>
      store_resolve_kcli_name B i db =
        (case store_view B db i of None \<Rightarrow> Inl ErrNotFound | Some x \<Rightarrow> Inr (re_kcli_name x)))"
proof -
  note st = bolt_contract.is_state_store [OF assms(1)]
  obtain r1 db1 where p: "store_put B e db = (r1, db1)" by force
  obtain r2 db2 where u: "store_update_status B i st db = (r2, db2)" by force
  obtain r3 db3 where d: "store_delete B i db = (r3, db3)" by force
  have g: "store_get B i db = (case store_view B db i of None \<Rightarrow> Inl ErrNotFound | Some x \<Rightarrow> Inr x)"
    if "store_ready B db"
    using state_store.get_ready [OF st assms(2) that] by (simp add: store_ops_def)
  show ?thesis
    using p u d g bolt_contract.put_correct [OF assms] bolt_contract.update_status_correct [OF assms]
      bolt_contract.delete_correct [OF assms] state_store.put_fail [OF st, of e db]
      state_store.update_fail [OF st, of i st db] state_store.delete_fail [OF st, of i db]
    by (auto simp: store_ops_def store_resolve_kcli_name_def split: option.splits)
qed

theorem store_refines_map_witness:
  "let db' = snd (store_put kv_bolt demo_entry kv_empty) in
   fst (store_put kv_bolt demo_entry kv_empty) = None \<and> store_inv kv_bolt db' \<and>
   store_view kv_bolt db' ''vm-1'' = Some demo_entry"
proof -
  have p: "fst (store_put kv_bolt demo_entry kv_empty) = None" "entry_ok demo_entry" by code_simp+
  then obtain db' where "store_put kv_bolt demo_entry kv_empty = (None, db')" by (metis prod.collapse)
  with store_refines_map [OF kv.bolt_contract_axioms kv_empty_inv, of demo_entry "''''" "''x''"] p
  show ?thesis by (simp add: demo_entry_def)
qed

text \<open>
  C33: a listing by type is exactly the stored entries of that type, each once, however the fast path
  filtered them; a listing by type and status, and the full listing, are exact as well.
\<close>

theorem listings_exact:
  assumes "bolt_contract B" and "store_inv B db" "store_ready B db"
  shows "\<exists>vs ss all. store_list B t db = Inr vs \<and> store_list_by_status B t st db = Inr ss \<and>
    store_list_all B db = Inr all \<and>
    distinct (map re_id vs) \<and> distinct (map re_id ss) \<and> distinct (map re_id all) \<and>
    set all = {e. store_view B db (re_id e) = Some e} \<and>
    set vs = {e \<in> set all. re_type e = t} \<and>
    set ss = {e \<in> set all. re_type e = t \<and> re_status e = st}"
proof -
  note l = bolt_contract.listing [OF assms(1,2)]
  obtain vs where
    vs: "decode_each (type_tag t) (\<lambda>e. re_type e = t) (bo_foreach B db resources) = Inr vs"
      "distinct (map re_id vs)" "set vs = {e. store_view B db (re_id e) = Some e \<and> re_type e = t}"
    using l [OF kept_type [of t]] by blast
  obtain ss where
    ss: "decode_each (type_tag t) (\<lambda>e. re_type e = t \<and> re_status e = st) (bo_foreach B db resources) = Inr ss"
      "distinct (map re_id ss)"
      "set ss = {e. store_view B db (re_id e) = Some e \<and> re_type e = t \<and> re_status e = st}"
    using l [OF kept_type_status [of t st]] by blast
  obtain all where
    all: "decode_each None (\<lambda>_. True) (bo_foreach B db resources) = Inr all"
      "distinct (map re_id all)" "set all = {e. store_view B db (re_id e) = Some e \<and> True}"
    using l [OF kept_all [of "\<lambda>_. True"]] by blast
  have "with_view B db r = r" for r :: "store_error + ResourceEntry list"
    using assms(3) by (simp add: with_view_def store_ready_def)
  then have "store_list B t db = Inr vs" "store_list_by_status B t st db = Inr ss" "store_list_all B db = Inr all"
    using vs(1) ss(1) all(1) by (simp_all add: store_list_def store_list_by_status_def store_list_all_def)
  moreover have "set vs = {e \<in> set all. re_type e = t}" "set ss = {e \<in> set all. re_type e = t \<and> re_status e = st}"
    "set all = {e. store_view B db (re_id e) = Some e}"
    using vs(3) ss(3) all(3) by auto
  ultimately show ?thesis using vs(2) ss(2) all(2) by blast
qed

theorem listings_exact_witness:
  "\<exists>vs. store_list kv_bolt ''vm'' (w_store demo_world1) = Inr vs \<and> set vs = {demo_entry}"
proof -
  obtain vs all where l: "store_list kv_bolt ''vm'' (w_store demo_world1) = Inr vs"
    "set all = {e. store_view kv_bolt (w_store demo_world1) (re_id e) = Some e}"
    "set vs = {e \<in> set all. re_type e = ''vm''}"
    using listings_exact [OF kv.bolt_contract_axioms demo_world1_store(1,2), of "''vm''" "''''"]
    by (elim exE conjE) (rule that)
  have "set all = {demo_entry}" unfolding l(2) demo_world1_entries by simp
  moreover have "re_type demo_entry = ''vm''" by (simp add: demo_entry_def)
  ultimately have "set vs = {demo_entry}" unfolding l(3) by auto
  with l(1) show ?thesis by blast
qed

section \<open>The name index\<close>

text \<open>
  C34: as long as kcli names are not shared, the index finds an entry by its name exactly when one is
  stored under that name: a put under a new ID and a new name, a status update and a delete keep it
  so.
\<close>

theorem index_stays_exact:
  assumes "bolt_contract B" and "store_inv B db" "index_exact B db"
  shows "(entry_ok e \<and> store_view B db (re_id e) = None \<and>
      (\<forall>i x. store_view B db i = Some x \<longrightarrow> re_kcli_name x \<noteq> re_kcli_name e) \<and>
      store_put B e db = (None, db1) \<longrightarrow> index_exact B db1) \<and>
    (valid_utf8 st \<and> store_update_status B i st db = (None, db2) \<longrightarrow> index_exact B db2) \<and>
    (store_delete B i db = (None, db3) \<longrightarrow> index_exact B db3) \<and>
    (store_ready B db \<longrightarrow> (store_find_by_kcli_name B n db = Inr x \<longleftrightarrow>
      store_view B db (re_id x) = Some x \<and> re_kcli_name x = n))"
  using bolt_contract.index_put [OF assms] bolt_contract.index_update_status [OF assms]
    bolt_contract.index_delete [OF assms] bolt_contract.find_exact [OF assms(1,2) _ assms(3)]
  by blast

lemma kv_empty_index: "index_exact kv_bolt kv_empty"
  by (simp add: index_exact_def kv_empty_get) (simp add: kv_bolt_def kv_empty_def)

theorem index_stays_exact_witness:
  "index_exact kv_bolt (snd (store_put kv_bolt demo_entry kv_empty))"
proof -
  have p: "fst (store_put kv_bolt demo_entry kv_empty) = None" "entry_ok demo_entry" by code_simp+
  then have "store_put kv_bolt demo_entry kv_empty = (None, snd (store_put kv_bolt demo_entry kv_empty))"
    by (metis prod.collapse)
  with index_stays_exact [OF kv.bolt_contract_axioms kv_empty_inv kv_empty_index,
      of demo_entry "snd (store_put kv_bolt demo_entry kv_empty)"] p
  show ?thesis by simp
qed

text \<open>
  A shared kcli name breaks the index. After a VM and then a cluster of the same kcli name are
  stored and the cluster is deleted, the VM is still stored but can no longer be found by its name.
\<close>

theorem index_loses_shared_name:
  assumes "bolt_contract B" and "store_inv B db" "index_exact B db" "store_ready B db"
    and "entry_ok a" "entry_ok b" "re_id a \<noteq> re_id b" "re_kcli_name a = re_kcli_name b"
    and "store_put B a db = (None, db1)" "store_put B b db1 = (None, db2)"
    and "store_delete B (re_id b) db2 = (None, db3)"
  shows "store_view B db3 (re_id a) = Some a \<and>
    store_find_by_kcli_name B (re_kcli_name a) db3 = Inl ErrNotFound"
proof -
  note put = bolt_contract.put_correct [OF assms(1)]
  note p1 = put [OF assms(2,5,9)]
  note p2 = put [OF p1(1) assms(6,10)]
  note d = bolt_contract.delete_correct [OF assms(1) p2(1) assms(11)]
  have h: "bo_has B db2 name_index"
    using assms(3) bolt_contract.put_index(2) [OF assms(1,9)] bolt_contract.put_index(2) [OF assms(1,10)]
    by (simp add: index_exact_def)
  have "store_view B db2 (re_id b) = Some b" by (simp add: p2(3))
  then have "bo_get B db3 name_index (re_kcli_name a) = None"
    using bolt_contract.delete_index(1) [OF assms(1) p2(1) h assms(11)] assms(8) by simp
  moreover have "store_ready B db3" using d(2) p2(2) p1(2) assms(4) by simp
  moreover have "store_view B db3 (re_id a) = Some a" using assms(7) by (simp add: d(3) p2(3) p1(3))
  ultimately show ?thesis
    by (simp add: store_find_by_kcli_name_def with_view_def store_ready_def)
qed

definition same_name_cluster :: ResourceEntry where
  "same_name_cluster = demo_entry\<lparr>re_id := ''c-1'', re_type := ''cluster''\<rparr>"

theorem index_loses_shared_name_witness:
  "let db2 = snd (store_put kv_bolt same_name_cluster (snd (store_put kv_bolt demo_entry kv_empty)));
       db3 = snd (store_delete kv_bolt ''c-1'' db2) in
   store_view kv_bolt db3 ''vm-1'' = Some demo_entry \<and>
   store_find_by_kcli_name kv_bolt ''dcm-web'' db3 = Inl ErrNotFound"
proof -
  let ?db1 = "snd (store_put kv_bolt demo_entry kv_empty)"
  let ?db2 = "snd (store_put kv_bolt same_name_cluster ?db1)"
  let ?db3 = "snd (store_delete kv_bolt ''c-1'' ?db2)"
  have f: "fst (store_put kv_bolt demo_entry kv_empty) = None"
    "fst (store_put kv_bolt same_name_cluster ?db1) = None"
    "fst (store_delete kv_bolt ''c-1'' ?db2) = None" by code_simp+
  have e: "entry_ok demo_entry" "entry_ok same_name_cluster" by code_simp+
  have p: "store_put kv_bolt demo_entry kv_empty = (None, ?db1)"
    "store_put kv_bolt same_name_cluster ?db1 = (None, ?db2)"
    "store_delete kv_bolt (re_id same_name_cluster) ?db2 = (None, ?db3)"
    using f by (auto simp: prod_eq_iff same_name_cluster_def)
  have n: "re_id demo_entry \<noteq> re_id same_name_cluster"
    "re_kcli_name demo_entry = re_kcli_name same_name_cluster"
    by (simp_all add: same_name_cluster_def demo_entry_def)
  show ?thesis
    using index_loses_shared_name [OF kv.bolt_contract_axioms kv_empty_inv kv_empty_index kv_empty_ready
        e n p]
    by (simp add: demo_entry_def)
qed

end
