(* ===== verification/Vm_Props.thy ===== *)
theory Vm_Props
  imports Sample
begin

text \<open>
  The properties of the VM operations over the bbolt-backed store, with their witnesses on the
  server of theory Sample.
\<close>

text \<open>
  C2: creating a VM, on every branch and whatever the store and kweb answer. If the client's ID is
  already stored, nothing changes: the reply repeats the stored VM, or is a conflict if the entry
  is not a VM. Otherwise either the reply is 201, and the store holds exactly one more entry, of
  that ID, in state PROVISIONING, and the gauge has gone up by one; or the reply is an error, and
  the store holds what it held and the gauge is unchanged. No event is published, and the store
  stays well-formed.
\<close>

theorem create_vm_correct:
  assumes "bolt_contract B" and "sv_store V = store_ops B"
    and "store_inv B (w_store w)" "store_ready B (w_store w)"
    and "entry_ok (new_vm_entry V client_id spec w)"
    and "create_vm V client_id spec w = (r, w')"
  shows "store_inv B (w_store w') \<and> store_ready B (w_store w') \<and> w_pub w' = w_pub w \<and>
    (case Option.bind (given client_id) (store_view B (w_store w)) of
       Some e \<Rightarrow>
         w' = w \<and>
         r = (if re_type e = ''vm'' then CreateVM201 (entry_to_vm e)
              else CreateVMDefault (problem_error 409 (conflicting_id client_id e)) 409)
     | None \<Rightarrow>
         (case r of
            CreateVM201 vm \<Rightarrow>
              vm_id vm = Some (re_id (new_vm_entry V client_id spec w)) \<and>
              vm_status vm = Some ''PROVISIONING'' \<and>
              store_view B (w_store w') = (store_view B (w_store w))
                (re_id (new_vm_entry V client_id spec w) \<mapsto> new_vm_entry V client_id spec w) \<and>
              w_managed w' = (w_managed w)(''vm'' := w_managed w ''vm'' + 1)
          | _ \<Rightarrow> store_view B (w_store w') = store_view B (w_store w) \<and> w_managed w' = w_managed w))"
proof (cases "Option.bind (given client_id) (store_view B (w_store w))")
  case None
  then have "find_existing V client_id w = None"
    using state_store.find_existing_view [OF bolt_contract.is_state_store [OF assms(1)] assms(3,4,2)] by simp
  from state_store.create_vm_new [OF bolt_contract.is_state_store [OF assms(1)] assms(3,2) this assms(5,6)]
    assms(4) None
  show ?thesis by simp
next
  case (Some e)
  then have "find_existing V client_id w = Some e"
    using state_store.find_existing_view [OF bolt_contract.is_state_store [OF assms(1)] assms(3,4,2)] by simp
  with assms(3,4,6) Some show ?thesis by (auto simp: create_vm_def split: if_splits)
qed

theorem create_vm_correct_witness:
  "let (r, w') = create_vm demo_server (Some ''vm-1'') demo_vm_spec demo_world in
   store_inv kv_bolt (w_store w') \<and> (\<exists>vm. r = CreateVM201 vm) \<and>
   map_option re_status (store_view kv_bolt (w_store w') ''vm-1'') = Some ''PROVISIONING'' \<and>
   w_managed w' ''vm'' = 1"
proof -
  obtain r w' where c: "create_vm demo_server (Some ''vm-1'') demo_vm_spec demo_world = (r, w')"
    by (metis surj_pair)
  have r: "\<exists>vm. r = CreateVM201 vm" using demo_create c by simp
  have "Option.bind (given (Some ''vm-1'')) (store_view kv_bolt (w_store demo_world)) = None"
    by (simp add: given_def)
  with create_vm_correct [OF kv.bolt_contract_axioms demo_store(1) _ _ demo_entry_ok c] r c
  show ?thesis
    by (auto simp: kv_empty_inv kv_empty_ready demo_new_entry demo_entry_def)
qed

text \<open>
  C32: kweb and the store cannot drift apart through a failed create. When a create gets as far as
  kweb, kweb is asked exactly once to create the VM, under the name that is stored, and exactly
  when it accepted and the entry then could not be stored, it is asked to delete that same VM; the
  reply is 201 just when kweb and the store both accepted.
\<close>

theorem create_vm_compensates:
  assumes "find_existing V client_id w = None" and "\<not> profile_refused V (resolve_vm_profile spec)"
    and "create_vm V client_id spec w = (r, w')"
  shows "let e = new_vm_entry V client_id spec w;
             (q, k) = kc_create_vm (sv_kweb V) (re_kcli_name e) (resolve_vm_profile spec)
                        (vm_params spec) (w_kweb w);
             stored = (fst (ss_put (sv_store V) e (w_store w)) = None) in
    w_kweb w' = (if q = None \<and> \<not> stored then snd (kc_delete_vm (sv_kweb V) (re_kcli_name e) k) else k) \<and>
    ((\<exists>vm. r = CreateVM201 vm) \<longleftrightarrow> q = None \<and> stored)"
proof -
  obtain q k where qk: "kc_create_vm (sv_kweb V) (re_kcli_name (new_vm_entry V client_id spec w))
    (resolve_vm_profile spec) (vm_params spec) (w_kweb w) = (q, k)" by force
  show ?thesis
    using create_vm_kweb [OF assms qk] qk by (auto simp: Let_def)
qed

text \<open>A server whose database is closed, so that the entry cannot be stored.\<close>

definition closed_world :: "(kvdb, int Client, conn NATSPublisher) World" where
  "closed_world = demo_world\<lparr>w_store := kv_empty\<lparr>kv_open := False\<rparr>\<rparr>"

lemma closed_facts:
  "find_existing demo_server (Some ''vm-1'') closed_world = None"
  "\<not> profile_refused demo_server (resolve_vm_profile demo_vm_spec)"
  "fst (ss_put (sv_store demo_server) (new_vm_entry demo_server (Some ''vm-1'') demo_vm_spec closed_world)
     (w_store closed_world)) = Some (BoltError ''database not open'')"
  "fst (kc_create_vm (sv_kweb demo_server)
     (re_kcli_name (new_vm_entry demo_server (Some ''vm-1'') demo_vm_spec closed_world))
     (resolve_vm_profile demo_vm_spec) (vm_params demo_vm_spec) (w_kweb closed_world)) = None"
  by code_simp+

theorem create_vm_compensates_witness:
  "\<exists>k. w_kweb (snd (create_vm demo_server (Some ''vm-1'') demo_vm_spec closed_world)) =
     snd (client_delete_vm up_transport ''http://kweb''
       (re_kcli_name (new_vm_entry demo_server (Some ''vm-1'') demo_vm_spec closed_world)) k)"
proof -
  obtain r w' where c: "create_vm demo_server (Some ''vm-1'') demo_vm_spec closed_world = (r, w')"
    by (metis surj_pair)
  have "kc_delete_vm (sv_kweb demo_server) = client_delete_vm up_transport ''http://kweb''"
    by (simp add: demo_server_def kweb_ops_def)
  with create_vm_compensates [OF closed_facts(1,2) c] closed_facts(3,4) c show ?thesis
    by (auto simp: Let_def case_prod_unfold)
qed

text \<open>
  C22: what reaches kweb in a create request. Whatever the provider hints hold, the request names
  the VM and the profile the handler chose, keeps the sizes and the key computed from the
  specification, and carries of the hints only allowed keys, with the values given there; keys that
  run code on the hypervisor or set a password are not among them.
\<close>

theorem vm_request_protected:
  "let body = map_of (add_params (vm_params spec) [(''name'', JStr name), (''profile'', JStr profile)]) in
   body ''name'' = Some (JStr name) \<and> body ''profile'' = Some (JStr profile) \<and>
   (\<forall>k v. map_of (vm_base_params spec) k = Some v \<longrightarrow> body k = Some v) \<and>
   (\<forall>k v. body k = Some v \<and> k \<noteq> ''name'' \<and> k \<noteq> ''profile'' \<and> map_of (vm_base_params spec) k = None \<longrightarrow>
      k \<in> set allowed_kcli_hint_keys \<and>
      Option.bind (kcli_section (vs_provider_hints spec)) (\<lambda>m. map_of m k) = Some v) \<and>
   (\<forall>k \<in> set blocked_keys. body k = None)"
proof -
  let ?body = "map_of (add_params (vm_params spec) [(''name'', JStr name), (''profile'', JStr profile)])"
  have "?body ''name'' = Some (JStr name)" "?body ''profile'' = Some (JStr profile)"
    by (simp_all add: vm_params_map_of vm_base_none allowed_keys_safe)
  moreover have "?body k = Some v" if "map_of (vm_base_params spec) k = Some v" for k v
    using that by (simp add: vm_params_map_of)
  moreover have "k \<in> set allowed_kcli_hint_keys \<and>
      Option.bind (kcli_section (vs_provider_hints spec)) (\<lambda>m. map_of m k) = Some v"
    if "?body k = Some v" "k \<noteq> ''name''" "k \<noteq> ''profile''" "map_of (vm_base_params spec) k = None" for k v
    using that by (simp add: vm_params_map_of split: option.splits if_splits)
  moreover have "?body k = None" if "k \<in> set blocked_keys" for k
  proof -
    have "map_of (vm_base_params spec) k = None" "k \<noteq> ''name''" "k \<noteq> ''profile''"
      using that by (auto simp: blocked_keys_def vm_base_none)
    with blocked_not_allowed [OF that] show ?thesis by (simp add: vm_params_map_of)
  qed
  ultimately show ?thesis by (simp add: Let_def)
qed

definition hostile_spec :: VMSpec where
  "hostile_spec =
     demo_vm_spec\<lparr>vs_provider_hints :=
       Some [(''kcli'', JObj [(''cmds'', JArr [JStr ''rm -rf /'']), (''name'', JStr ''other''),
                              (''pool'', JStr ''ssd'')])]\<rparr>"

theorem vm_request_protected_witness:
  "let body = map_of (add_params (vm_params hostile_spec)
                        [(''name'', JStr ''dcm-web''), (''profile'', JStr ''fedora41'')]) in
   body ''name'' = Some (JStr ''dcm-web'') \<and> body ''cmds'' = None \<and>
   body ''parameters[memory]'' = Some (JNum ''2048'') \<and> body ''pool'' = Some (JStr ''ssd'')"
proof -
  have "map_of (vm_base_params hostile_spec) ''parameters[memory]'' = Some (JNum ''2048'')" by code_simp
  moreover have "map_of (add_params (vm_params hostile_spec)
    [(''name'', JStr ''dcm-web''), (''profile'', JStr ''fedora41'')]) ''pool'' = Some (JStr ''ssd'')"
    by code_simp
  ultimately show ?thesis
    using vm_request_protected [of hostile_spec "''dcm-web''" "''fedora41''"]
    by (simp add: Let_def blocked_keys_def)
qed

text \<open>
  C14: listing VMs. A client that starts without a token and follows the page tokens, with whatever
  page size, reaches the end, and what it has then read is every stored VM once, newest first and
  ties in the order of the IDs, and nothing else.
\<close>

theorem list_vms_pages:
  assumes "bolt_contract B" and "sv_store V = store_ops B"
    and "store_inv B (w_store w)" "store_ready B (w_store w)"
    and "\<And>k. fst (kc_list_vms (sv_kweb V) k) \<noteq> Inl ErrKwebUnreachable"
    and "stored = {e. store_view B (w_store w) (re_id e) = Some e \<and> re_type e = ''vm''}"
    and "int (card stored) + page_size m \<le> max_int64" and "card stored < n"
  shows "\<exists>es vms. walk n (vm_pages V) m None w = Some vms \<and>
    map vm_id vms = map (\<lambda>e. Some (re_id e)) es \<and>
    set es = stored \<and> distinct (map re_id es) \<and> sorted_wrt entry_before es"
proof -
  obtain es where es: "store_list B ''vm'' (w_store w) = Inr es"
    using bolt_contract.list_ready_ok [OF assms(1,3,4)] by blast
  have l: "distinct (map re_id es)" "set es = stored"
    using bolt_contract.list_correct [OF assms(1,3) es] assms(6) by auto
  have "card stored = length es"
    using l distinct_card by (metis distinct_map)
  with assms(7,8) have len: "int (length es) + page_size m \<le> max_int64" "length es < n" by simp_all
  have "ss_list (sv_store V) ''vm'' (w_store w) = Inr es"
    using es assms(2) by (simp add: store_ops_def)
  from walk_vms_from [OF assms(5) len this] obtain vms where
    "walk n (vm_pages V) m None w = Some vms" "map vm_id vms = map (\<lambda>e. Some (re_id e)) (sort_entries es)"
    by blast
  moreover have "distinct (map re_id (sort_entries es))"
    using l(1) by (metis distinct_count_atmost_1 mset_map set_map set_mset_mset sort_entries_mset)
  ultimately show ?thesis
    using l(2) sort_entries_wrt [OF l(1)] sort_entries_set [of es] by blast
qed

lemma demo_reachable: "fst (kc_list_vms (sv_kweb demo_server) k) \<noteq> Inl ErrKwebUnreachable"
  by (auto simp: demo_server_def kweb_ops_def client_list_vms_def on_net_def do_get_def send_def
      up_transport_def read_limited_def max_response_size_def parse_vm_list_def split: option.splits)

theorem list_vms_pages_witness:
  "\<exists>vms. walk 2 (vm_pages demo_server) (Some 1) None demo_world1 = Some vms \<and> map vm_id vms = [Some ''vm-1'']"
proof -
  have s: "{demo_entry} = {e. store_view kv_bolt (w_store demo_world1) (re_id e) = Some e \<and> re_type e = ''vm''}"
    by (auto simp: demo_world1_entries) (simp add: demo_entry_def)
  have "int (card {demo_entry}) + page_size (Some 1) \<le> max_int64" "card {demo_entry} < 2"
    by (simp_all add: page_size_def max_int64_def)
  from list_vms_pages [OF kv.bolt_contract_axioms demo_store(1) demo_world1_store(1,2) demo_reachable s this]
  obtain es vms where e: "walk 2 (vm_pages demo_server) (Some 1) None demo_world1 = Some vms"
    "map vm_id vms = map (\<lambda>e. Some (re_id e)) es" "set es = {demo_entry}" "distinct (map re_id es)"
    by blast
  then have "es = [demo_entry]"
    by (cases es rule: list.exhaust; cases "tl es") auto
  with e show ?thesis by (auto simp: demo_entry_def)
qed

text \<open>
  C3: deleting a VM over a store that takes its writes. An unknown ID is a 404, and an entry that is
  being deleted is left as it is with a 204. Otherwise kweb is asked once to delete the VM the entry
  names. If it does, the reply is 204, the entry and only it is gone, the gauge is down by one and
  one DELETED event of that ID was handed to the publisher; if it fails, the store is what it was
  before, status included, no event is published, and the reply is 502 when kweb is unreachable and
  500 otherwise.
\<close>

theorem delete_vm_correct:
  assumes "live_bolt B" and "sv_store V = store_ops B"
    and "live_inv B (w_store w)" "store_ready B (w_store w)"
    and "delete_vm V cx i w = (r, w')"
  shows "case store_view B (w_store w) i of
      None \<Rightarrow> r = DeleteVM404 (problem_error 404 (''VM '' @ quoted i @ '' not found'')) \<and> w' = w
    | Some e \<Rightarrow>
        (if re_status e = ''DELETING'' \<or> re_status e = ''DELETED'' then r = DeleteVM204 \<and> w' = w
         else
           (let (q, k) = kc_delete_vm (sv_kweb V) (re_kcli_name e) (w_kweb w) in
            live_inv B (w_store w') \<and> w_kweb w' = k \<and>
            (case q of
               None \<Rightarrow> r = DeleteVM204 \<and>
                 store_view B (w_store w') = (store_view B (w_store w))(i := None) \<and>
                 w_managed w' = (w_managed w)(''vm'' := w_managed w ''vm'' - 1) \<and>
                 w_pub w' = snd (pub_vm_event (sv_publisher V) (cx (Suc (w_ticks w)))
                   (vm_deleted_event i (re_kcli_name e) (sv_clock V (w_ticks w))) (w_pub w))
             | Some err \<Rightarrow>
                 (\<exists>p. r = DeleteVMDefault p (if err = ErrKwebUnreachable then 502 else 500)) \<and>
                 store_view B (w_store w') = store_view B (w_store w) \<and>
                 w_managed w' = w_managed w \<and> w_pub w' = w_pub w)))"
proof (cases "store_view B (w_store w) i")
  case None
  with state_store.delete_vm_missing [OF live_bolt.is_live_state_store [OF assms(1)] assms(3,4,2) None]
    assms(5)
  show ?thesis by simp
next
  case (Some e)
  show ?thesis
  proof (cases "re_status e = ''DELETING'' \<or> re_status e = ''DELETED''")
    case True
    with state_store.delete_vm_done [OF live_bolt.is_live_state_store [OF assms(1)] assms(3,4,2) Some]
      assms(5) Some
    show ?thesis by simp
  next
    case False
    obtain q k where q: "kc_delete_vm (sv_kweb V) (re_kcli_name e) (w_kweb w) = (q, k)" by force
    from live_store.delete_vm_live [OF live_bolt.is_live_store [OF assms(1)] assms(3,4,2) Some _ _ assms(5) q]
      False Some q
    show ?thesis by (cases q) (auto simp: Let_def)
  qed
qed

theorem delete_vm_correct_witness:
  "let (r, w') = delete_vm demo_server demo_ctx ''vm-1'' demo_world1 in
   r = DeleteVM204 \<and> store_view kv_bolt (w_store w') ''vm-1'' = None"
proof -
  obtain r w' where d: "delete_vm demo_server demo_ctx ''vm-1'' demo_world1 = (r, w')"
    by (metis surj_pair)
  have "fst (kc_delete_vm (sv_kweb demo_server) (re_kcli_name demo_entry) (w_kweb demo_world1)) = None"
    by code_simp
  with delete_vm_correct [OF live_kv.live_bolt_axioms demo_store(1) demo_world1_store(3,2) d] d
  show ?thesis
    by (auto simp: demo_world1_store demo_entry_def case_prod_unfold)
qed

end
