(* ===== verification/Cluster_Handlers.thy ===== *)
theory Cluster_Handlers
  imports Vm_Handlers
begin

text \<open>
  The cluster operations of the REST API (internal/api/server/cluster_handlers.go), the cache of
  kubeconfigs, and the health operations (internal/api/server/health_handlers.go).

  The YAML parser is a parameter of the server; base64 is a definition, as it is part of Go's
  library.
\<close>

section \<open>base64\<close>

definition b64_char :: "nat \<Rightarrow> char" where
  "b64_char n =
     (if n < 26 then char_of (65 + n) else if n < 52 then char_of (71 + n)
      else if n < 62 then char_of (n - 4) else if n = 62 then CHR ''+'' else CHR ''/'')"

fun base64 :: "bytes \<Rightarrow> string" where
  "base64 (a # b # c # s) =
     (let x = of_char a :: nat; y = of_char b :: nat; z = of_char c :: nat in
      [b64_char (x div 4), b64_char ((x mod 4) * 16 + y div 16),
       b64_char ((y mod 16) * 4 + z div 64), b64_char (z mod 64)] @ base64 s)"
| "base64 [a, b] =
     (let x = of_char a :: nat; y = of_char b :: nat in
      [b64_char (x div 4), b64_char ((x mod 4) * 16 + y div 16), b64_char ((y mod 16) * 4), CHR ''=''])"
| "base64 [a] =
     (let x = of_char a :: nat in
      [b64_char (x div 4), b64_char ((x mod 4) * 16), CHR ''='', CHR ''=''])"
| "base64 [] = []"

section \<open>The kubeconfig cache\<close>

definition kubeconfig_cache_ttl :: duration where
  "kubeconfig_cache_ttl = 5 * minute"

text \<open>
  The server of the cluster that the current context names, or of the first cluster. With no
  matching context the name looked for is empty.
\<close>

definition endpoint_of :: "Kubeconfig \<Rightarrow> string" where
  "endpoint_of kc =
     (let target_cluster =
        (case find (\<lambda>(name, cluster). name = kc_current_context kc) (kc_contexts kc) of
           Some (name, cluster) \<Rightarrow> cluster
         | None \<Rightarrow> '''') in
      case find (\<lambda>(name, srv). name = target_cluster) (kc_clusters kc) of
        Some (name, srv) \<Rightarrow> srv
      | None \<Rightarrow> (case kc_clusters kc of (name, srv) # _ \<Rightarrow> srv | [] \<Rightarrow> ''''))"

definition extract_api_endpoint :: "('s, 'k, 'p) Server \<Rightarrow> string \<Rightarrow> string" where
  "extract_api_endpoint V kubeconfig =
     (case sv_yaml V kubeconfig of None \<Rightarrow> '''' | Some kc \<Rightarrow> endpoint_of kc)"

definition get_cached_kubeconfig ::
  "('s, 'k, 'p) Server \<Rightarrow> string \<Rightarrow> string \<Rightarrow> ('s, 'k, 'p) World \<Rightarrow>
   (string \<times> string) \<times> ('s, 'k, 'p) World" where
  "get_cached_kubeconfig V cluster_id kcli_name w =
     (let (hit, w) =
        (case map_of (w_kc_cache w) cluster_id of
           None \<Rightarrow> (None, w)
         | Some cached \<Rightarrow>
             (case now V w of
                (t, w) \<Rightarrow>
                  (if time_sub t (ck_fetched_at cached) < kubeconfig_cache_ttl then Some cached else None, w))) in
      case hit of
        Some cached \<Rightarrow> ((ck_kubeconfig cached, ck_endpoint cached), w)
      | None \<Rightarrow>
          (case on_kweb (kc_get_kubeconfig (sv_kweb V) kcli_name) w of
             (Inl _, w) \<Rightarrow> (('''', ''''), w)
           | (Inr raw, w) \<Rightarrow>
               (if raw = '''' then (('''', ''''), w)
                else
                  (let encoded = base64 raw; ep = extract_api_endpoint V raw in
                   case now V w of
                     (t, w) \<Rightarrow>
                       ((encoded, ep),
                        w\<lparr>w_kc_cache := map_set cluster_id
                            \<lparr>ck_kubeconfig = encoded, ck_endpoint = ep, ck_fetched_at = t\<rparr>
                            (w_kc_cache w)\<rparr>)))))"

section \<open>Clusters\<close>

definition entry_to_cluster :: "ResourceEntry \<Rightarrow> Cluster" where
  "entry_to_cluster entry =
     \<lparr>cl_api_endpoint = None, cl_id = Some (re_id entry), cl_kubeconfig = None,
      cl_path = Some (''clusters/'' @ re_id entry),
      cl_spec =
        empty_cluster_spec\<lparr>cs_service_type := ''cluster'',
          cs_metadata := Some \<lparr>sm_labels = None, sm_name = trim_prefix (re_kcli_name entry) dcm_prefix\<rparr>\<rparr>,
      cl_status = Some (re_status entry)\<rparr>"

definition with_version :: "ClusterInfo \<Rightarrow> Cluster \<Rightarrow> Cluster" where
  "with_version kcl cl =
     (if ci_version kcl \<noteq> '''' then cl\<lparr>cl_spec := (cl_spec cl)\<lparr>cs_version := Some (ci_version kcl)\<rparr>\<rparr> else cl)"

definition cluster_base_params :: "ClusterSpec \<Rightarrow> params" where
  "cluster_base_params spec =
     (let params = [];
          params =
            (case Option.bind (cs_nodes spec) (\<lambda>n. Option.bind (no_control_plane n) nc_count) of
               Some n \<Rightarrow> map_set ''ctlplanes'' (int_json n) params
             | None \<Rightarrow> params) in
      case Option.bind (cs_nodes spec) (\<lambda>n. Option.bind (no_workers n) nc_count) of
        Some n \<Rightarrow> map_set ''workers'' (int_json n) params
      | None \<Rightarrow> params)"

definition cluster_params :: "ClusterSpec \<Rightarrow> params" where
  "cluster_params spec =
     merge_kcli_hints (cs_provider_hints spec) (cluster_base_params spec) [''cluster_type'']"

definition create_cluster_error :: "('s, 'k, 'p) Server \<Rightarrow> string \<Rightarrow> kweb_error \<Rightarrow> CreateClusterResponse" where
  "create_cluster_error V kcli_name err =
     (if err = ErrConflict then
        CreateCluster409 (problem_error 409
          (''cluster '' @ quoted (trim_prefix kcli_name dcm_prefix) @ '' already exists''))
      else if err = ErrKwebUnreachable then
        CreateClusterDefault (problem_error 502 ''kweb is unreachable'') 502
      else CreateClusterDefault (problem_error 500 (kweb_error_text (sv_json_err V) err)) 500)"

text \<open>\<open>CreateCluster\<close>; the mutex around the call to kweb has no effect on a single request.\<close>

definition create_cluster ::
  "('s, 'k, 'p) Server \<Rightarrow> string option \<Rightarrow> ClusterSpec \<Rightarrow> ('s, 'k, 'p) World \<Rightarrow>
   CreateClusterResponse \<times> ('s, 'k, 'p) World" where
  "create_cluster V client_id spec w =
     (case find_existing V client_id w of
        Some existing \<Rightarrow>
          (if re_type existing \<noteq> ''cluster'' then
             (CreateClusterDefault (problem_error 409 (conflicting_id client_id existing)) 409, w)
           else (CreateCluster201 (entry_to_cluster existing), w))
      | None \<Rightarrow>
          (let ct = resolve_cluster_type spec in
           if ct \<in> set rejected_cluster_types then
             (CreateCluster400 (problem_error 400 (''cluster type '' @ quoted ct @ '' is not supported'')), w)
           else
             (case map_of supported_cluster_types ct of
                None \<Rightarrow>
                  (CreateCluster400 (problem_error 400
                     (''unsupported cluster type '' @ quoted ct @ ''; supported: '' @ join_supported_types)), w)
              | Some kweb_type \<Rightarrow>
                  (let kcli_name = dcm_prefix @ resolve_cluster_name spec client_id (sv_uuid V (w_uuids w));
                       i = resolve_id client_id (sv_uuid V (Suc (w_uuids w)));
                       w = w\<lparr>w_uuids := w_uuids w + 2\<rparr> in
                   case on_kweb (kc_create_cluster (sv_kweb V) kcli_name kweb_type (cluster_params spec)) w of
                     (Some err, w) \<Rightarrow> (create_cluster_error V kcli_name err, w)
                   | (None, w) \<Rightarrow>
                       (case now V w of
                          (t, w) \<Rightarrow>
                            (case on_store (ss_put (sv_store V)
                                    \<lparr>re_id = i, re_kcli_name = kcli_name, re_type = ''cluster'',
                                     re_status = ''CREATING'', re_created_at = t\<rparr>) w of
                               (Some _, w) \<Rightarrow>
                                 (case on_kweb (kc_delete_cluster (sv_kweb V) kcli_name) w of
                                    (_, w) \<Rightarrow>
                                      (CreateClusterDefault
                                         (problem_error 500 ''failed to persist cluster state'') 500, w))
                             | (None, w) \<Rightarrow>
                                 (CreateCluster201
                                    \<lparr>cl_api_endpoint = None, cl_id = Some i, cl_kubeconfig = None,
                                     cl_path = Some (''clusters/'' @ i), cl_spec = spec,
                                     cl_status = Some ''CREATING''\<rparr>,
                                  gauge_add ''cluster'' 1 w)))))))"

definition cluster_result :: "ClusterInfo list \<Rightarrow> ResourceEntry \<Rightarrow> Cluster" where
  "cluster_result kweb_clusters entry =
     (case map_of (rev (map (\<lambda>c. (ci_name c, c)) kweb_clusters)) (re_kcli_name entry) of
        Some kcl \<Rightarrow> with_version kcl (entry_to_cluster entry)
      | None \<Rightarrow> entry_to_cluster entry)"

definition list_clusters ::
  "('s, 'k, 'p) Server \<Rightarrow> ListParams \<Rightarrow> ('s, 'k, 'p) World \<Rightarrow>
   ListClustersResponse \<times> ('s, 'k, 'p) World" where
  "list_clusters V params w =
     (case start_index (lp_page_token params) of
        Inl t \<Rightarrow> (ListClustersDefault (problem_error 400 (invalid_token V t)) 400, w)
      | Inr start_idx \<Rightarrow>
          (case on_kweb (kc_list_clusters (sv_kweb V)) w of
             (kweb_res, w) \<Rightarrow>
               (case ss_list (sv_store V) ''cluster'' (w_store w) of
                  Inl err \<Rightarrow>
                    (ListClustersDefault (problem_error 500 (store_error_text (sv_json_err V) err)) 500, w)
                | Inr store_clusters \<Rightarrow>
                    (if kweb_res = Inl ErrKwebUnreachable then
                       (ListClustersDefault (problem_error 502 ''kweb is unreachable'') 502, w)
                     else
                       (let kweb_clusters = (case kweb_res of Inr cls \<Rightarrow> cls | Inl _ \<Rightarrow> []);
                            results = map (cluster_result kweb_clusters) (sort_entries store_clusters);
                            (next_token, results) =
                              page (page_size (lp_max_page_size params)) start_idx results in
                        (ListClusters200 \<lparr>cll_next_page_token = next_token, cll_results = Some results\<rparr>, w))))))"

definition get_cluster ::
  "('s, 'k, 'p) Server \<Rightarrow> string \<Rightarrow> ('s, 'k, 'p) World \<Rightarrow> GetClusterResponse \<times> ('s, 'k, 'p) World" where
  "get_cluster V i w =
     (case ss_get (sv_store V) i (w_store w) of
        Inl err \<Rightarrow>
          (if err = ErrNotFound then
             (GetCluster404 (problem_error 404 (''cluster '' @ quoted i @ '' not found'')), w)
           else (GetClusterDefault (problem_error 500 (store_error_text (sv_json_err V) err)) 500, w))
      | Inr entry \<Rightarrow>
          (case on_kweb (kc_get_cluster (sv_kweb V) (re_kcli_name entry)) w of
             (kweb_res, w) \<Rightarrow>
               (let resp =
                  (case kweb_res of
                     Inl _ \<Rightarrow> entry_to_cluster entry
                   | Inr kc \<Rightarrow> with_version kc (entry_to_cluster entry)) in
                if re_status entry = ''ACTIVE'' then
                  (case get_cached_kubeconfig V (re_id entry) (re_kcli_name entry) w of
                     ((kc, ep), w) \<Rightarrow>
                       (GetCluster200
                          (resp\<lparr>cl_kubeconfig := (if kc \<noteq> '''' then Some kc else None),
                                cl_api_endpoint := (if ep \<noteq> '''' then Some ep else None)\<rparr>), w))
                else
                  (GetCluster200 resp, w\<lparr>w_kc_cache := map_unset (re_id entry) (w_kc_cache w)\<rparr>))))"

definition delete_cluster ::
  "('s, 'k, 'p) Server \<Rightarrow> ctx \<Rightarrow> string \<Rightarrow> ('s, 'k, 'p) World \<Rightarrow>
   DeleteClusterResponse \<times> ('s, 'k, 'p) World" where
  "delete_cluster V cx i w =
     (case ss_get (sv_store V) i (w_store w) of
        Inl err \<Rightarrow>
          (if err = ErrNotFound then
             (DeleteCluster404 (problem_error 404 (''cluster '' @ quoted i @ '' not found'')), w)
           else (DeleteClusterDefault (problem_error 500 (store_error_text (sv_json_err V) err)) 500, w))
      | Inr entry \<Rightarrow>
          (if re_status entry = ''DELETING'' \<or> re_status entry = ''DELETED'' then (DeleteCluster204, w)
           else
             (case on_store (ss_update_status (sv_store V) i ''DELETING'') w of
                (_, w) \<Rightarrow>
                  (case on_kweb (kc_delete_cluster (sv_kweb V) (re_kcli_name entry)) w of
                     (Some err, w) \<Rightarrow>
                       (case on_store (ss_update_status (sv_store V) i (re_status entry)) w of
                          (_, w) \<Rightarrow>
                            (if err = ErrKwebUnreachable then
                               (DeleteClusterDefault (problem_error 502 ''kweb is unreachable'') 502, w)
                             else
                               (DeleteClusterDefault
                                  (problem_error 500 (kweb_error_text (sv_json_err V) err)) 500, w)))
                   | (None, w) \<Rightarrow>
                       (case now V w of
                          (t, w) \<Rightarrow>
                            (case on_pub (pub_cluster_event (sv_publisher V) (cx (w_ticks w))
                                    \<lparr>ev_id = i, ev_status = ''DELETED'',
                                     ev_message = ''Cluster '' @ re_kcli_name entry @ '' deleted'',
                                     ev_timestamp = t\<rparr>) w of
                               (_, w) \<Rightarrow>
                                 (case on_store (ss_delete (sv_store V) i) w of
                                    (_, w) \<Rightarrow>
                                      (DeleteCluster204,
                                       gauge_add ''cluster'' (- 1)
                                         (w\<lparr>w_kc_cache := map_unset i (w_kc_cache w)\<rparr>)))))))))"

section \<open>Health\<close>

definition do_health_check ::
  "('s, 'k, 'p) Server \<Rightarrow> ('s, 'k, 'p) World \<Rightarrow>
   (HealthStatus \<times> string \<times> duration \<times> string option) \<times> ('s, 'k, 'p) World" where
  "do_health_check V w =
     (case now V w of
        (t, w) \<Rightarrow>
          (let uptime = time_sub t (sv_started_at V) in
           case on_kweb (kc_check_health (sv_kweb V)) w of
             ((healthy, err), w) \<Rightarrow>
               (if err \<noteq> None \<or> \<not> healthy then
                  ((Unhealthy, sv_version V, uptime,
                    Some (case err of
                            Some e \<Rightarrow> kweb_error_text (sv_json_err V) e
                          | None \<Rightarrow> ''kweb unreachable'')), w)
                else ((Healthy, sv_version V, uptime, None), w))))"

text \<open>\<open>GetHealth\<close>, \<open>GetVMHealth\<close> and \<open>GetClusterHealth\<close> are the same function.\<close>

definition get_health ::
  "('s, 'k, 'p) Server \<Rightarrow> ('s, 'k, 'p) World \<Rightarrow> HealthResponse \<times> ('s, 'k, 'p) World" where
  "get_health V w =
     (case do_health_check V w of
        ((status, ver, uptime, msg), w) \<Rightarrow>
          (if status = Unhealthy then
             (Health503 \<lparr>he_message = msg, he_status = Some status, he_uptime = Some uptime,
                         he_version = Some ver\<rparr>, w)
           else
             (Health200 \<lparr>he_message = None, he_status = Some status, he_uptime = Some uptime,
                         he_version = Some ver\<rparr>, w)))"

definition get_vm_health ::
  "('s, 'k, 'p) Server \<Rightarrow> ('s, 'k, 'p) World \<Rightarrow> HealthResponse \<times> ('s, 'k, 'p) World" where
  "get_vm_health = get_health"

definition get_cluster_health ::
  "('s, 'k, 'p) Server \<Rightarrow> ('s, 'k, 'p) World \<Rightarrow> HealthResponse \<times> ('s, 'k, 'p) World" where
  "get_cluster_health = get_health"

section \<open>Pages\<close>

lemma entry_to_cluster_simps [simp]:
  "cl_id (entry_to_cluster e) = Some (re_id e)" "cl_status (entry_to_cluster e) = Some (re_status e)"
  "cl_path (entry_to_cluster e) = Some (''clusters/'' @ re_id e)"
  "cl_kubeconfig (entry_to_cluster e) = None" "cl_api_endpoint (entry_to_cluster e) = None"
  by (simp_all add: entry_to_cluster_def)

lemma with_version_simps [simp]:
  "cl_id (with_version k c) = cl_id c" "cl_status (with_version k c) = cl_status c"
  "cl_kubeconfig (with_version k c) = cl_kubeconfig c"
  "cl_api_endpoint (with_version k c) = cl_api_endpoint c"
  by (simp_all add: with_version_def)

lemma cluster_result_id [simp]: "cl_id (cluster_result kcs e) = Some (re_id e)"
  by (simp add: cluster_result_def split: option.splits)

definition cluster_pages ::
  "('s, 'k, 'p) Server \<Rightarrow> ListParams \<Rightarrow> ('s, 'k, 'p) World \<Rightarrow>
   (string option \<times> Cluster list) option \<times> ('s, 'k, 'p) World" where
  "cluster_pages V params w =
     (case list_clusters V params w of
        (ListClusters200 l, w') \<Rightarrow> (map_option (Pair (cll_next_page_token l)) (cll_results l), w')
      | (_, w') \<Rightarrow> (None, w'))"

lemma cluster_pages_step:
  assumes "ss_list (sv_store V) ''cluster'' (w_store w) = Inr es"
    and "fst (kc_list_clusters (sv_kweb V) (w_kweb w)) \<noteq> Inl ErrKwebUnreachable"
    and "start_index tok = Inr (int s)"
  shows "\<exists>rs w'. cluster_pages V \<lparr>lp_max_page_size = m, lp_page_token = tok\<rparr> w =
      (Some (fst (page (page_size m) (int s) (map (\<lambda>e. Some (re_id e)) (sort_entries es))), rs), w') \<and>
    map cl_id rs = snd (page (page_size m) (int s) (map (\<lambda>e. Some (re_id e)) (sort_entries es))) \<and>
    w_store w' = w_store w"
  using assms by (auto simp: cluster_pages_def list_clusters_def on_kweb_def page_map case_prod_unfold Let_def)

lemma walk_clusters_from:
  fixes V :: "('a, 'b, 'c) Server" and w :: "('a, 'b, 'c) World"
  assumes "\<And>k. fst (kc_list_clusters (sv_kweb V) k) \<noteq> Inl ErrKwebUnreachable"
    and "int (length es) + page_size m \<le> max_int64" "length es < n"
    and "ss_list (sv_store V) ''cluster'' (w_store w) = Inr es"
  shows "\<exists>cls. walk n (cluster_pages V) m None w = Some cls \<and>
    map cl_id cls = map (\<lambda>e. Some (re_id e)) (sort_entries es)"
proof -
  let ?xs = "map (\<lambda>e. Some (re_id e)) (sort_entries es)"
  have "\<exists>rs. walk n (cluster_pages V) m None w = Some rs \<and> map cl_id rs = drop 0 ?xs"
  proof (rule walk_from [where P = "\<lambda>w' :: ('a, 'b, 'c) World. w_store w' = w_store w"])
    fix w' :: "('a, 'b, 'c) World" and tok s
    assume "w_store w' = w_store w" "start_index tok = Inr (int s)"
    then show "\<exists>rs w''. cluster_pages V \<lparr>lp_max_page_size = m, lp_page_token = tok\<rparr> w' =
        (Some (fst (page (page_size m) (int s) ?xs), rs), w'') \<and>
      map cl_id rs = snd (page (page_size m) (int s) ?xs) \<and> w_store w'' = w_store w"
      using cluster_pages_step [of V w' es tok s m] assms(1,4) by simp
  qed (use assms(2,3) in \<open>simp_all add: start_index_def given_def\<close>)
  then show ?thesis by simp
qed

section \<open>The create request\<close>

lemma cluster_base_distinct: "distinct (map fst (cluster_base_params spec))"
  by (simp add: cluster_base_params_def Let_def split: option.splits)

lemma cluster_base_none:
  "k \<noteq> ''ctlplanes'' \<Longrightarrow> k \<noteq> ''workers'' \<Longrightarrow> map_of (cluster_base_params spec) k = None"
  by (simp add: cluster_base_params_def Let_def split: option.splits)

lemma cluster_params_map_of:
  "map_of (add_params (cluster_params spec) body) k =
     (case map_of (cluster_base_params spec) k of
        Some v \<Rightarrow> Some v
      | None \<Rightarrow>
          (case (if k \<noteq> ''cluster_type'' \<and> k \<in> set allowed_kcli_hint_keys
                 then Option.bind (kcli_section (cs_provider_hints spec)) (\<lambda>m. map_of m k) else None) of
             Some v \<Rightarrow> Some v
           | None \<Rightarrow> map_of body k))"
  unfolding cluster_params_def
  by (simp add: add_params_distinct merge_kcli_hints_distinct cluster_base_distinct merge_kcli_hints_map_of
      split: option.splits)

section \<open>The cache\<close>

text \<open>Every cached entry is what the cluster's kubeconfig gave, encoded, with its endpoint.\<close>

definition cache_ok :: "('s, 'k, 'p) Server \<Rightarrow> ('s, 'k, 'p) World \<Rightarrow> bool" where
  "cache_ok V w \<longleftrightarrow>
     (\<forall>i c. map_of (w_kc_cache w) i = Some c \<longrightarrow>
        (\<exists>raw. raw \<noteq> '''' \<and> ck_kubeconfig c = base64 raw \<and> ck_endpoint c = extract_api_endpoint V raw))"

lemma get_cached_kubeconfig_ok:
  assumes "cache_ok V w" "get_cached_kubeconfig V i n w = ((kc, ep), w')"
  shows "cache_ok V w'"
    "kc = '''' \<and> ep = '''' \<or> (\<exists>raw. raw \<noteq> '''' \<and> kc = base64 raw \<and> ep = extract_api_endpoint V raw)"
  using assms
  by (auto simp: get_cached_kubeconfig_def cache_ok_def now_def on_kweb_def Let_def
      split: option.splits if_splits prod.splits sum.splits; blast)+

lemma get_cached_kubeconfig_effect:
  "w_store (snd (get_cached_kubeconfig V i n w)) = w_store w"
  "w_pub (snd (get_cached_kubeconfig V i n w)) = w_pub w"
  "w_managed (snd (get_cached_kubeconfig V i n w)) = w_managed w"
  by (simp_all add: get_cached_kubeconfig_def now_def on_kweb_def Let_def
      split: option.splits prod.splits sum.splits)

text \<open>A kubeconfig is asked for only when the cached one is too old, and then remembered.\<close>

lemma get_cached_kubeconfig_hit:
  assumes "map_of (w_kc_cache w) i = Some c"
    and "time_sub (sv_clock V (w_ticks w)) (ck_fetched_at c) < kubeconfig_cache_ttl"
  shows "get_cached_kubeconfig V i n w =
    ((ck_kubeconfig c, ck_endpoint c), w\<lparr>w_ticks := Suc (w_ticks w)\<rparr>)"
  using assms by (simp add: get_cached_kubeconfig_def now_def)

lemma base64_nonempty: "raw \<noteq> [] \<Longrightarrow> base64 raw \<noteq> []"
  by (cases raw rule: base64.cases) (auto simp: Let_def)

lemma get_cached_kubeconfig_stores:
  assumes "get_cached_kubeconfig V i n w = ((kc, ep), w')" and "kc \<noteq> ''''"
  shows "\<exists>c. map_of (w_kc_cache w') i = Some c \<and> ck_kubeconfig c = kc \<and> ck_endpoint c = ep"
  using assms
  by (auto simp: get_cached_kubeconfig_def now_def on_kweb_def Let_def
      split: option.splits if_splits prod.splits sum.splits)

section \<open>Over a store\<close>

definition new_cluster_entry ::
  "('s, 'k, 'p) Server \<Rightarrow> string option \<Rightarrow> ClusterSpec \<Rightarrow> ('s, 'k, 'p) World \<Rightarrow> ResourceEntry" where
  "new_cluster_entry V client_id spec w =
     \<lparr>re_id = resolve_id client_id (sv_uuid V (Suc (w_uuids w))),
      re_kcli_name = dcm_prefix @ resolve_cluster_name spec client_id (sv_uuid V (w_uuids w)),
      re_type = ''cluster'', re_status = ''CREATING'', re_created_at = sv_clock V (w_ticks w)\<rparr>"

text \<open>Whether the type of the cluster is accepted, and under which name kweb knows it.\<close>

definition kweb_cluster_type :: "ClusterSpec \<Rightarrow> string option" where
  "kweb_cluster_type spec =
     (let ct = resolve_cluster_type spec in
      if ct \<in> set rejected_cluster_types then None else map_of supported_cluster_types ct)"

lemma create_cluster_kweb:
  assumes "find_existing V client_id w = None" "kweb_cluster_type spec = Some kt"
    and "create_cluster V client_id spec w = (r, w')"
    and "kc_create_cluster (sv_kweb V) (re_kcli_name (new_cluster_entry V client_id spec w))
           kt (cluster_params spec) (w_kweb w) = (q, k)"
  shows "w_kweb w' =
      (if q = None \<and> fst (ss_put (sv_store V) (new_cluster_entry V client_id spec w) (w_store w)) \<noteq> None
       then snd (kc_delete_cluster (sv_kweb V) (re_kcli_name (new_cluster_entry V client_id spec w)) k) else k)"
    "(\<exists>cl. r = CreateCluster201 cl) \<longleftrightarrow>
      q = None \<and> fst (ss_put (sv_store V) (new_cluster_entry V client_id spec w) (w_store w)) = None"
  using assms
  by (auto simp: create_cluster_def on_kweb_def on_store_def now_def gauge_add_def create_cluster_error_def
      Let_def new_cluster_entry_def kweb_cluster_type_def split: if_splits prod.splits option.splits)

lemma create_cluster_refused:
  assumes "find_existing V client_id w = None" "kweb_cluster_type spec = None"
  shows "\<exists>p. create_cluster V client_id spec w = (CreateCluster400 p, w)"
  using assms by (auto simp: create_cluster_def kweb_cluster_type_def Let_def)

context state_store
begin

lemma create_cluster_new:
  assumes "inv (w_store w)" "sv_store V = S" "find_existing V client_id w = None"
    and "entry_ok (new_cluster_entry V client_id spec w)" "create_cluster V client_id spec w = (r, w')"
  shows "inv (w_store w')" "ready (w_store w') = ready (w_store w)" "w_pub w' = w_pub w"
    "case r of
       CreateCluster201 cl \<Rightarrow>
         cl_id cl = Some (re_id (new_cluster_entry V client_id spec w)) \<and>
         cl_status cl = Some ''CREATING'' \<and>
         view (w_store w') = (view (w_store w))
           (re_id (new_cluster_entry V client_id spec w) \<mapsto> new_cluster_entry V client_id spec w) \<and>
         w_managed w' = (w_managed w)(''cluster'' := w_managed w ''cluster'' + 1)
     | _ \<Rightarrow> view (w_store w') = view (w_store w) \<and> w_managed w' = w_managed w"
proof -
  let ?e = "new_cluster_entry V client_id spec w"
  have p: "inv s'" "ready s' = ready (w_store w)"
    "view s' = (if q = None then (view (w_store w))(re_id ?e \<mapsto> ?e) else view (w_store w))"
    if "ss_put S ?e (w_store w) = (q, s')" for q s'
    using put_cases [OF assms(1,4) that] by simp_all
  note d = create_cluster_def on_kweb_def on_store_def now_def gauge_add_def create_cluster_error_def Let_def
  show "inv (w_store w')" "ready (w_store w') = ready (w_store w)" "w_pub w' = w_pub w"
    using assms(1,2,3,5) p
    by (auto simp: d new_cluster_entry_def split: if_splits prod.splits option.splits)
  show "case r of
       CreateCluster201 cl \<Rightarrow>
         cl_id cl = Some (re_id ?e) \<and> cl_status cl = Some ''CREATING'' \<and>
         view (w_store w') = (view (w_store w))(re_id ?e \<mapsto> ?e) \<and>
         w_managed w' = (w_managed w)(''cluster'' := w_managed w ''cluster'' + 1)
     | _ \<Rightarrow> view (w_store w') = view (w_store w) \<and> w_managed w' = w_managed w"
    using assms(1,2,3,5) p
    by (auto simp: d new_cluster_entry_def fun_eq_iff split: if_splits prod.splits option.splits)
qed

lemma get_cluster_view:
  assumes "inv (w_store w)" "ready (w_store w)" "sv_store V = S"
  shows "case view (w_store w) i of
      None \<Rightarrow> get_cluster V i w = (GetCluster404 (problem_error 404 (''cluster '' @ quoted i @ '' not found'')), w)
    | Some e \<Rightarrow> (\<exists>cl w'. get_cluster V i w = (GetCluster200 cl, w') \<and>
        cl_id cl = Some i \<and> cl_status cl = Some (re_status e) \<and> w_store w' = w_store w \<and>
        (re_status e \<noteq> ''ACTIVE'' \<longrightarrow>
          cl_kubeconfig cl = None \<and> cl_api_endpoint cl = None \<and> map_of (w_kc_cache w') i = None))"
proof (cases "view (w_store w) i")
  case None
  with get_ready [OF assms(1,2), of i] assms(3) show ?thesis by (simp add: get_cluster_def)
next
  case (Some e)
  obtain q k where q: "kc_get_cluster (sv_kweb V) (re_kcli_name e) (w_kweb w) = (q, k)" by force
  let ?w = "w\<lparr>w_kweb := k\<rparr>"
  obtain kc ep w' where g: "get_cached_kubeconfig V (re_id e) (re_kcli_name e) ?w = ((kc, ep), w')"
    by (metis surj_pair)
  have "w_store w' = w_store w"
    using get_cached_kubeconfig_effect(1) [of V "re_id e" "re_kcli_name e" ?w] g by simp
  moreover have "re_id e = i" using view_id [OF assms(1) Some] by simp
  ultimately show ?thesis
    using get_ready [OF assms(1,2), of i] assms(3) Some q g
    by (cases q) (auto simp: get_cluster_def on_kweb_def Let_def)
qed

lemma delete_cluster_missing:
  assumes "inv (w_store w)" "ready (w_store w)" "sv_store V = S" "view (w_store w) i = None"
  shows "delete_cluster V cx i w =
    (DeleteCluster404 (problem_error 404 (''cluster '' @ quoted i @ '' not found'')), w)"
  using get_ready [OF assms(1,2), of i] assms(3,4) by (simp add: delete_cluster_def)

lemma delete_cluster_done:
  assumes "inv (w_store w)" "ready (w_store w)" "sv_store V = S" "view (w_store w) i = Some e"
    and "re_status e = ''DELETING'' \<or> re_status e = ''DELETED''"
  shows "delete_cluster V cx i w = (DeleteCluster204, w)"
  using get_ready [OF assms(1,2), of i] assms(3,4,5) by (simp add: delete_cluster_def)

lemma delete_cluster_inv:
  assumes "inv (w_store w)" "sv_store V = S"
  shows "inv (w_store (snd (delete_cluster V cx i w)))"
proof -
  have "valid_utf8 ''DELETING''" by (simp add: utf8_len_ascii Let_def)
  moreover have "valid_utf8 (re_status e)" if "ss_get S i (w_store w) = Inr e" for e
    using get_found [OF assms(1) that] view_id [OF assms(1)] by (metis entry_ok_def)
  ultimately show ?thesis
    using assms
    by (auto simp: delete_cluster_def case_prod_unfold effect_simps update_inv delete_inv
        split: sum.splits option.splits)
qed

end

definition cluster_deleted_event :: "string \<Rightarrow> string \<Rightarrow> time \<Rightarrow> StatusEvent" where
  "cluster_deleted_event i name t =
     \<lparr>ev_id = i, ev_status = ''DELETED'', ev_message = ''Cluster '' @ name @ '' deleted'', ev_timestamp = t\<rparr>"

context live_store
begin

lemma delete_cluster_live:
  assumes "inv (w_store w)" "ready (w_store w)" "sv_store V = S" "view (w_store w) i = Some e"
    and "re_status e \<noteq> ''DELETING''" "re_status e \<noteq> ''DELETED''"
    and "delete_cluster V cx i w = (r, w')"
    and "kc_delete_cluster (sv_kweb V) (re_kcli_name e) (w_kweb w) = (q, k)"
  shows "inv (w_store w') \<and> ready (w_store w') \<and> w_kweb w' = k \<and>
    (case q of
       None \<Rightarrow> r = DeleteCluster204 \<and> view (w_store w') = (view (w_store w))(i := None) \<and>
         w_managed w' = (w_managed w)(''cluster'' := w_managed w ''cluster'' - 1) \<and>
         map_of (w_kc_cache w') i = None \<and>
         w_pub w' = snd (pub_cluster_event (sv_publisher V) (cx (Suc (w_ticks w)))
           (cluster_deleted_event i (re_kcli_name e) (sv_clock V (w_ticks w))) (w_pub w))
     | Some err \<Rightarrow>
         (\<exists>p st. r = DeleteClusterDefault p st \<and> st = (if err = ErrKwebUnreachable then 502 else 500)) \<and>
         view (w_store w') = view (w_store w) \<and> w_managed w' = w_managed w \<and>
         w_kc_cache w' = w_kc_cache w \<and> w_pub w' = w_pub w)"
proof -
  obtain s1 s2 s3 where s1: "ss_update_status S i ''DELETING'' (w_store w) = (None, s1)"
    and s2: "ss_update_status S i (re_status e) s1 = (None, s2)" "inv s2" "ready s2" "view s2 = view (w_store w)"
    and s3: "ss_delete S i s1 = (None, s3)" "inv s3" "ready s3" "view s3 = (view (w_store w))(i := None)"
    using deleting_steps [OF assms(1,2,4)] by blast
  have g: "ss_get S i (w_store w) = Inr e" using get_ready [OF assms(1,2), of i] assms(4) by simp
  show ?thesis
  proof (cases q)
    case None
    have "delete_cluster V cx i w = (DeleteCluster204, w\<lparr>w_store := s3, w_kweb := k,
        w_ticks := Suc (w_ticks w), w_kc_cache := map_unset i (w_kc_cache w),
        w_pub := snd (pub_cluster_event (sv_publisher V) (cx (Suc (w_ticks w)))
          (cluster_deleted_event i (re_kcli_name e) (sv_clock V (w_ticks w))) (w_pub w)),
        w_managed := (w_managed w)(''cluster'' := w_managed w ''cluster'' - 1)\<rparr>)"
      using None assms(3,5,6,8) g s1 s3(1)
      by (simp add: delete_cluster_def on_store_def on_kweb_def on_pub_def now_def gauge_add_def
          cluster_deleted_event_def case_prod_unfold)
    with None assms(7) s3 show ?thesis by auto
  next
    case (Some err)
    have "\<exists>p st. delete_cluster V cx i w = (DeleteClusterDefault p st, w\<lparr>w_store := s2, w_kweb := k\<rparr>) \<and>
        st = (if err = ErrKwebUnreachable then 502 else 500)"
      using Some assms(3,5,6,8) g s1 s2(1)
      by (simp add: delete_cluster_def on_store_def on_kweb_def)
    with Some assms(7) s2 show ?thesis by auto
  qed
qed

end

end
