(* ===== verification/Cluster_Props.thy ===== *)
theory Cluster_Props
  imports Cluster_Handlers Sample
begin

text \<open>
  The properties of the cluster and health operations over the bbolt-backed store, with their
  witnesses on the server of theory Sample.
\<close>

definition demo_cluster_spec :: ClusterSpec where
  "demo_cluster_spec =
     empty_cluster_spec\<lparr>cs_service_type := ''cluster'',
       cs_nodes := Some \<lparr>no_control_plane = Some \<lparr>nc_count = Some 3\<rparr>, no_workers = None\<rparr>,
       cs_metadata := Some \<lparr>sm_labels = None, sm_name = ''prod''\<rparr>\<rparr>"

definition demo_cluster_entry :: ResourceEntry where
  "demo_cluster_entry =
     \<lparr>re_id = ''c-1'', re_kcli_name = ''dcm-prod'', re_type = ''cluster'', re_status = ''CREATING'',
      re_created_at = 0\<rparr>"

lemma demo_new_cluster:
  "new_cluster_entry demo_server (Some ''c-1'') demo_cluster_spec demo_world = demo_cluster_entry"
  by code_simp

lemma demo_cluster_ok: "entry_ok (new_cluster_entry demo_server (Some ''c-1'') demo_cluster_spec demo_world)"
  unfolding demo_new_cluster by code_simp

definition demo_cluster_world :: "(kvdb, int Client, conn NATSPublisher) World" where
  "demo_cluster_world = snd (create_cluster demo_server (Some ''c-1'') demo_cluster_spec demo_world)"

lemma demo_cluster_created:
  "\<exists>cl. fst (create_cluster demo_server (Some ''c-1'') demo_cluster_spec demo_world) = CreateCluster201 cl"
proof -
  have k: "fst (kc_create_cluster (sv_kweb demo_server) ''dcm-prod'' ''generic'' (cluster_params demo_cluster_spec)
      (w_kweb demo_world)) = None"
    by code_simp
  have s: "fst (ss_put (sv_store demo_server) demo_cluster_entry (w_store demo_world)) = None" by code_simp
  have f: "find_existing demo_server (Some ''c-1'') demo_world = None" by code_simp
  have t: "kweb_cluster_type demo_cluster_spec = Some ''generic''" by code_simp
  obtain r w' q kk where c: "create_cluster demo_server (Some ''c-1'') demo_cluster_spec demo_world = (r, w')"
    "kc_create_cluster (sv_kweb demo_server) ''dcm-prod'' ''generic'' (cluster_params demo_cluster_spec)
      (w_kweb demo_world) = (q, kk)" by (metis surj_pair)
  have n: "re_kcli_name demo_cluster_entry = ''dcm-prod''" by (simp add: demo_cluster_entry_def)
  show ?thesis
    using create_cluster_kweb(2) [OF f t c(1), unfolded demo_new_cluster n, OF c(2)] k s c by simp
qed

lemma demo_cluster_store:
  "store_inv kv_bolt (w_store demo_cluster_world)" "store_ready kv_bolt (w_store demo_cluster_world)"
  "live_inv kv_bolt (w_store demo_cluster_world)"
  "store_view kv_bolt (w_store demo_cluster_world) = [''c-1'' \<mapsto> demo_cluster_entry]"
proof -
  obtain r w' where c: "create_cluster demo_server (Some ''c-1'') demo_cluster_spec demo_world = (r, w')"
    by (metis surj_pair)
  have f: "find_existing demo_server (Some ''c-1'') demo_world = None" by code_simp
  have w: "demo_cluster_world = w'" "\<exists>cl. r = CreateCluster201 cl"
    using c demo_cluster_created by (simp_all add: demo_cluster_world_def)
  note p = state_store.create_cluster_new [OF live_kv.is_live_state_store _ demo_store(1) f demo_cluster_ok c]
  show "live_inv kv_bolt (w_store demo_cluster_world)" "store_ready kv_bolt (w_store demo_cluster_world)"
    using p kv_empty_live kv_empty_ready w by simp_all
  then show "store_inv kv_bolt (w_store demo_cluster_world)" by (simp add: live_inv_def)
  show "store_view kv_bolt (w_store demo_cluster_world) = [''c-1'' \<mapsto> demo_cluster_entry]"
    using p(4) kv_empty_live w by (auto simp: demo_new_cluster demo_cluster_entry_def fun_eq_iff)
qed

text \<open>
  C6: creating a cluster, on every branch. If the client's ID is already stored, nothing changes:
  the reply repeats the stored cluster, or is a conflict if the entry is not a cluster. A type that
  is rejected or unknown is a 400 that changes nothing. Otherwise either the reply is 201 and the
  store holds exactly one more entry, of that ID, in state CREATING, and the gauge has gone up by
  one, or the reply is an error and store and gauge are what they were. No event is published.
\<close>

theorem create_cluster_correct:
  assumes "bolt_contract B" and "sv_store V = store_ops B"
    and "store_inv B (w_store w)" "store_ready B (w_store w)"
    and "entry_ok (new_cluster_entry V client_id spec w)"
    and "create_cluster V client_id spec w = (r, w')"
  shows "store_inv B (w_store w') \<and> store_ready B (w_store w') \<and> w_pub w' = w_pub w \<and>
    (case Option.bind (given client_id) (store_view B (w_store w)) of
       Some e \<Rightarrow>
         w' = w \<and>
         r = (if re_type e = ''cluster'' then CreateCluster201 (entry_to_cluster e)
              else CreateClusterDefault (problem_error 409 (conflicting_id client_id e)) 409)
     | None \<Rightarrow>
         (kweb_cluster_type spec = None \<longrightarrow> (\<exists>p. r = CreateCluster400 p) \<and> w' = w) \<and>
         (case r of
            CreateCluster201 cl \<Rightarrow>
              cl_id cl = Some (re_id (new_cluster_entry V client_id spec w)) \<and>
              cl_status cl = Some ''CREATING'' \<and>
              store_view B (w_store w') = (store_view B (w_store w))
                (re_id (new_cluster_entry V client_id spec w) \<mapsto> new_cluster_entry V client_id spec w) \<and>
              w_managed w' = (w_managed w)(''cluster'' := w_managed w ''cluster'' + 1)
          | _ \<Rightarrow> store_view B (w_store w') = store_view B (w_store w) \<and> w_managed w' = w_managed w))"
proof (cases "Option.bind (given client_id) (store_view B (w_store w))")
  case None
  then have f: "find_existing V client_id w = None"
    using state_store.find_existing_view [OF bolt_contract.is_state_store [OF assms(1)] assms(3,4,2)] by simp
  have refused: "(\<exists>p. r = CreateCluster400 p) \<and> w' = w" if "kweb_cluster_type spec = None"
    using create_cluster_refused [OF f that] assms(6) by auto
  from state_store.create_cluster_new [OF bolt_contract.is_state_store [OF assms(1)] assms(3,2) f assms(5,6)]
    refused assms(4) None
  show ?thesis by simp
next
  case (Some e)
  then have "find_existing V client_id w = Some e"
    using state_store.find_existing_view [OF bolt_contract.is_state_store [OF assms(1)] assms(3,4,2)] by simp
  with assms(3,4,6) Some show ?thesis by (auto simp: create_cluster_def split: if_splits)
qed

theorem create_cluster_correct_witness:
  "let (r, w') = create_cluster demo_server (Some ''c-1'') demo_cluster_spec demo_world in
   (\<exists>cl. r = CreateCluster201 cl \<and> cl_status cl = Some ''CREATING'') \<and> w_managed w' ''cluster'' = 1"
proof -
  obtain r w' where c: "create_cluster demo_server (Some ''c-1'') demo_cluster_spec demo_world = (r, w')"
    by (metis surj_pair)
  have r: "\<exists>cl. r = CreateCluster201 cl" using demo_cluster_created c by simp
  have "Option.bind (given (Some ''c-1'')) (store_view kv_bolt (w_store demo_world)) = None"
    by (simp add: given_def)
  with create_cluster_correct [OF kv.bolt_contract_axioms demo_store(1) _ _ demo_cluster_ok c] r c
  show ?thesis by (auto simp: kv_empty_inv kv_empty_ready)
qed

text \<open>
  C7: deleting a cluster over a store that takes its writes: as for a VM, and on success the cached
  kubeconfig of that ID is dropped as well, so that the credentials of a deleted cluster are not
  served again.
\<close>

theorem delete_cluster_correct:
  assumes "live_bolt B" and "sv_store V = store_ops B"
    and "live_inv B (w_store w)" "store_ready B (w_store w)"
    and "delete_cluster V cx i w = (r, w')"
  shows "case store_view B (w_store w) i of
      None \<Rightarrow> r = DeleteCluster404 (problem_error 404 (''cluster '' @ quoted i @ '' not found'')) \<and> w' = w
    | Some e \<Rightarrow>
        (if re_status e = ''DELETING'' \<or> re_status e = ''DELETED'' then r = DeleteCluster204 \<and> w' = w
         else
           (let (q, k) = kc_delete_cluster (sv_kweb V) (re_kcli_name e) (w_kweb w) in
            live_inv B (w_store w') \<and> w_kweb w' = k \<and>
            (case q of
               None \<Rightarrow> r = DeleteCluster204 \<and>
                 store_view B (w_store w') = (store_view B (w_store w))(i := None) \<and>
                 w_managed w' = (w_managed w)(''cluster'' := w_managed w ''cluster'' - 1) \<and>
                 map_of (w_kc_cache w') i = None \<and>
                 w_pub w' = snd (pub_cluster_event (sv_publisher V) (cx (Suc (w_ticks w)))
                   (cluster_deleted_event i (re_kcli_name e) (sv_clock V (w_ticks w))) (w_pub w))
             | Some err \<Rightarrow>
                 (\<exists>p. r = DeleteClusterDefault p (if err = ErrKwebUnreachable then 502 else 500)) \<and>
                 store_view B (w_store w') = store_view B (w_store w) \<and>
                 w_managed w' = w_managed w \<and> w_kc_cache w' = w_kc_cache w \<and> w_pub w' = w_pub w)))"
proof (cases "store_view B (w_store w) i")
  case None
  with state_store.delete_cluster_missing [OF live_bolt.is_live_state_store [OF assms(1)] assms(3,4,2) None]
    assms(5)
  show ?thesis by simp
next
  case (Some e)
  show ?thesis
  proof (cases "re_status e = ''DELETING'' \<or> re_status e = ''DELETED''")
    case True
    with state_store.delete_cluster_done [OF live_bolt.is_live_state_store [OF assms(1)] assms(3,4,2) Some]
      assms(5) Some
    show ?thesis by simp
  next
    case False
    obtain q k where q: "kc_delete_cluster (sv_kweb V) (re_kcli_name e) (w_kweb w) = (q, k)" by force
    from live_store.delete_cluster_live [OF live_bolt.is_live_store [OF assms(1)] assms(3,4,2) Some _ _ assms(5) q]
      False Some q
    show ?thesis by (cases q) (auto simp: Let_def)
  qed
qed

theorem delete_cluster_correct_witness:
  "let (r, w') = delete_cluster demo_server demo_ctx ''c-1'' demo_cluster_world in
   r = DeleteCluster204 \<and> store_view kv_bolt (w_store w') ''c-1'' = None"
proof -
  obtain r w' where d: "delete_cluster demo_server demo_ctx ''c-1'' demo_cluster_world = (r, w')"
    by (metis surj_pair)
  have "fst (kc_delete_cluster (sv_kweb demo_server) (re_kcli_name demo_cluster_entry) (w_kweb demo_cluster_world)) = None"
    by code_simp
  with delete_cluster_correct [OF live_kv.live_bolt_axioms demo_store(1) demo_cluster_store(3,2) d] d
  show ?thesis
    by (auto simp: demo_cluster_store demo_cluster_entry_def case_prod_unfold)
qed

text \<open>
  What reaches kweb in a request for a cluster: the name and the kind the handler chose and the
  node counts of the specification, whatever the hints hold; of the hints only allowed keys, with
  the values given there.
\<close>

theorem cluster_request_protected:
  "let body = map_of (add_params (cluster_params spec) [(''cluster'', JStr name), (''kubetype'', JStr kt)]) in
   body ''cluster'' = Some (JStr name) \<and> body ''kubetype'' = Some (JStr kt) \<and>
   (\<forall>k v. map_of (cluster_base_params spec) k = Some v \<longrightarrow> body k = Some v) \<and>
   (\<forall>k v. body k = Some v \<and> k \<noteq> ''cluster'' \<and> k \<noteq> ''kubetype'' \<and> map_of (cluster_base_params spec) k = None \<longrightarrow>
      k \<in> set allowed_kcli_hint_keys \<and>
      Option.bind (kcli_section (cs_provider_hints spec)) (\<lambda>m. map_of m k) = Some v) \<and>
   (\<forall>k \<in> set blocked_keys. body k = None)"
proof -
  let ?body = "map_of (add_params (cluster_params spec) [(''cluster'', JStr name), (''kubetype'', JStr kt)])"
  have "?body ''cluster'' = Some (JStr name)" "?body ''kubetype'' = Some (JStr kt)"
    by (simp_all add: cluster_params_map_of cluster_base_none allowed_keys_safe)
  moreover have "?body k = Some v" if "map_of (cluster_base_params spec) k = Some v" for k v
    using that by (simp add: cluster_params_map_of)
  moreover have "k \<in> set allowed_kcli_hint_keys \<and>
      Option.bind (kcli_section (cs_provider_hints spec)) (\<lambda>m. map_of m k) = Some v"
    if "?body k = Some v" "k \<noteq> ''cluster''" "k \<noteq> ''kubetype''" "map_of (cluster_base_params spec) k = None" for k v
    using that by (simp add: cluster_params_map_of split: option.splits if_splits)
  moreover have "?body k = None" if "k \<in> set blocked_keys" for k
  proof -
    have "map_of (cluster_base_params spec) k = None" "k \<noteq> ''cluster''" "k \<noteq> ''kubetype''"
      using that by (auto simp: blocked_keys_def cluster_base_none)
    with blocked_not_allowed [OF that] show ?thesis by (simp add: cluster_params_map_of)
  qed
  ultimately show ?thesis by (simp add: Let_def)
qed

theorem cluster_request_protected_witness:
  "let body = map_of (add_params (cluster_params demo_cluster_spec)
                        [(''cluster'', JStr ''dcm-prod''), (''kubetype'', JStr ''generic'')]) in
   body ''cluster'' = Some (JStr ''dcm-prod'') \<and> body ''ctlplanes'' = Some (JNum ''3'') \<and>
   body ''rootpassword'' = None"
proof -
  have "map_of (cluster_base_params demo_cluster_spec) ''ctlplanes'' = Some (JNum ''3'')" by code_simp
  with cluster_request_protected [of demo_cluster_spec "''dcm-prod''" "''generic''"]
  show ?thesis by (simp add: Let_def blocked_keys_def)
qed



text \<open>
  The kubeconfig cache. A kubeconfig that was served is served again, without asking kweb, to
  every reader whose clock is within five minutes of the moment it was fetched.
\<close>

theorem kubeconfig_cache_hit:
  assumes "get_cached_kubeconfig V i n w = ((kc, ep), w')" and "kc \<noteq> ''''"
  shows "\<exists>c. map_of (w_kc_cache w') i = Some c \<and> ck_kubeconfig c = kc \<and>
    (time_sub (sv_clock V (w_ticks w')) (ck_fetched_at c) < kubeconfig_cache_ttl \<longrightarrow>
       get_cached_kubeconfig V i n w' = ((kc, ep), w'\<lparr>w_ticks := Suc (w_ticks w')\<rparr>))"
proof -
  obtain c where c: "map_of (w_kc_cache w') i = Some c" "ck_kubeconfig c = kc" "ck_endpoint c = ep"
    using get_cached_kubeconfig_stores [OF assms] by blast
  with get_cached_kubeconfig_hit [OF c(1)] show ?thesis by auto
qed

definition cached_world :: "(kvdb, int Client, conn NATSPublisher) World" where
  "cached_world = demo_world\<lparr>w_kc_cache :=
     [(''c-1'', \<lparr>ck_kubeconfig = ''YXBp'', ck_endpoint = ''https://api'', ck_fetched_at = 0\<rparr>)]\<rparr>"

theorem kubeconfig_cache_hit_witness:
  "\<exists>c. map_of (w_kc_cache (cached_world\<lparr>w_ticks := 1\<rparr>)) ''c-1'' = Some c \<and> ck_kubeconfig c = ''YXBp''"
proof -
  have "get_cached_kubeconfig demo_server ''c-1'' ''dcm-prod'' cached_world =
    ((''YXBp'', ''https://api''), cached_world\<lparr>w_ticks := 1\<rparr>)"
    using get_cached_kubeconfig_hit [of cached_world "''c-1''" _ demo_server "''dcm-prod''"]
    by (simp add: cached_world_def demo_server_def time_sub_def kubeconfig_cache_ttl_def minute_def
        second_def min_int64_def max_int64_def)
  from kubeconfig_cache_hit [OF this] show ?thesis by auto
qed

text \<open>
  Listing clusters, as listing VMs: a client that follows the page tokens reads every stored
  cluster once, newest first and ties by ID, and nothing else.
\<close>

theorem list_clusters_pages:
  assumes "bolt_contract B" and "sv_store V = store_ops B"
    and "store_inv B (w_store w)" "store_ready B (w_store w)"
    and "\<And>k. fst (kc_list_clusters (sv_kweb V) k) \<noteq> Inl ErrKwebUnreachable"
    and "stored = {e. store_view B (w_store w) (re_id e) = Some e \<and> re_type e = ''cluster''}"
    and "int (card stored) + page_size m \<le> max_int64" and "card stored < n"
  shows "\<exists>es cls. walk n (cluster_pages V) m None w = Some cls \<and>
    map cl_id cls = map (\<lambda>e. Some (re_id e)) es \<and>
    set es = stored \<and> distinct (map re_id es) \<and> sorted_wrt entry_before es"
proof -
  obtain es where es: "store_list B ''cluster'' (w_store w) = Inr es"
    using bolt_contract.list_ready_ok [OF assms(1,3,4)] by blast
  have l: "distinct (map re_id es)" "set es = stored"
    using bolt_contract.list_correct [OF assms(1,3) es] assms(6) by auto
  have "card stored = length es"
    using l distinct_card by (metis distinct_map)
  with assms(7,8) have len: "int (length es) + page_size m \<le> max_int64" "length es < n" by simp_all
  have "ss_list (sv_store V) ''cluster'' (w_store w) = Inr es"
    using es assms(2) by (simp add: store_ops_def)
  from walk_clusters_from [OF assms(5) len this] obtain cls where
    "walk n (cluster_pages V) m None w = Some cls" "map cl_id cls = map (\<lambda>e. Some (re_id e)) (sort_entries es)"
    by blast
  then show ?thesis
    using l sort_entries_wrt [OF l(1)] sort_entries_set [of es] sort_entries_distinct [OF l(1)] by blast
qed

lemma demo_clusters_reachable: "fst (kc_list_clusters (sv_kweb demo_server) k) \<noteq> Inl ErrKwebUnreachable"
  by (auto simp: demo_server_def kweb_ops_def client_list_clusters_def on_net_def do_get_def send_def
      up_transport_def read_limited_def max_response_size_def parse_cluster_list_def split: option.splits)

theorem list_clusters_pages_witness:
  "\<exists>cls. walk 1 (cluster_pages demo_server) None None demo_world1 = Some cls \<and> cls = []"
proof -
  have s: "{} = {e. store_view kv_bolt (w_store demo_world1) (re_id e) = Some e \<and> re_type e = ''cluster''}"
    by (auto simp: demo_world1_entries) (simp add: demo_entry_def)
  have "int (card ({} :: ResourceEntry set)) + page_size None \<le> max_int64" "card ({} :: ResourceEntry set) < 1"
    by (simp_all add: page_size_def default_page_size_def max_int64_def)
  from list_clusters_pages [OF kv.bolt_contract_axioms demo_store(1) demo_world1_store(1,2)
      demo_clusters_reachable s this]
  show ?thesis by auto
qed

end
