(* ===== verification/Status.thy ===== *)
theory Status
  imports GoBase
begin

text \<open>
  The status mappings of internal/monitor/status.go: what kweb reports about a VM or a cluster,
  and how long ago the resource was created, as one of DCM's canonical states. \<open>now\<close> is the
  reading of the clock that \<open>time.Since\<close> takes.
\<close>

definition provisioning_threshold :: duration where
  "provisioning_threshold = 10 * minute"

definition map_vm_status :: "string \<Rightarrow> time \<Rightarrow> time \<Rightarrow> string" where
  "map_vm_status kweb_status created_at now =
     (if equal_fold kweb_status ''up'' \<or> equal_fold kweb_status ''running'' then ''RUNNING''
      else if equal_fold kweb_status ''down'' \<or> equal_fold kweb_status ''shutoff'' then
        (if time_sub now created_at < provisioning_threshold then ''PROVISIONING'' else ''STOPPED'')
      else if equal_fold kweb_status ''paused'' \<or> equal_fold kweb_status ''suspended'' then ''PAUSED''
      else if equal_fold kweb_status ''error'' \<or> equal_fold kweb_status ''crashed'' \<or>
              equal_fold kweb_status ''nostate'' \<or> equal_fold kweb_status ''fault'' then ''ERROR''
      else if equal_fold kweb_status ''shuttingdown'' \<or> equal_fold kweb_status ''stopping'' \<or>
              equal_fold kweb_status ''powering-off'' then ''STOPPING''
      else ''ERROR'')"

definition map_cluster_status :: "bool \<Rightarrow> time \<Rightarrow> duration \<Rightarrow> time \<Rightarrow> string" where
  "map_cluster_status has_nodes created_at cluster_create_timeout now =
     (if has_nodes then ''ACTIVE''
      else if cluster_create_timeout < time_sub now created_at then ''ERROR''
      else ''CREATING'')"

text \<open>The canonical states of the two kinds of resource.\<close>

definition vm_states :: "string set" where
  "vm_states = {''PROVISIONING'', ''RUNNING'', ''STOPPED'', ''PAUSED'', ''ERROR'', ''STOPPING''}"

definition cluster_states :: "string set" where
  "cluster_states = {''CREATING'', ''ACTIVE'', ''ERROR''}"

lemma map_vm_status_range: "map_vm_status s c now \<in> vm_states"
  by (simp add: map_vm_status_def vm_states_def)

lemma map_cluster_status_range: "map_cluster_status h c d now \<in> cluster_states"
  by (simp add: map_cluster_status_def cluster_states_def)

text \<open>Up to case, the names of the other groups are told apart from the stopped ones.\<close>

lemma fold_names:
  "fold_case ''up'' = ''up''" "fold_case ''running'' = ''running''" "fold_case ''down'' = ''down''"
  "fold_case ''shutoff'' = ''shutoff''" "fold_case ''paused'' = ''paused''"
  "fold_case ''suspended'' = ''suspended''"
  by (simp_all add: fold_case_ascii lower_char_def Let_def)

lemma map_vm_status_transient:
  "map_vm_status s c now = ''PROVISIONING'' \<longleftrightarrow>
     (equal_fold s ''down'' \<or> equal_fold s ''shutoff'') \<and> time_sub now c < provisioning_threshold"
  by (auto simp: map_vm_status_def equal_fold_def fold_names simp del: fold_case.simps)

lemma map_vm_status_stopped:
  "map_vm_status s c now = ''STOPPED'' \<longleftrightarrow>
     (equal_fold s ''down'' \<or> equal_fold s ''shutoff'') \<and> provisioning_threshold \<le> time_sub now c"
  by (auto simp: map_vm_status_def equal_fold_def fold_names simp del: fold_case.simps)

text \<open>Time only moves a stopped VM out of provisioning, and never back.\<close>

lemma map_vm_status_settles:
  assumes "now \<le> later" and "map_vm_status s c now \<noteq> ''PROVISIONING''"
  shows "map_vm_status s c later = map_vm_status s c now"
proof -
  have "time_sub now c \<le> time_sub later c" using assms(1) by (rule time_sub_mono)
  with assms(2) show ?thesis by (auto simp: map_vm_status_def split: if_splits)
qed

lemma map_cluster_status_settles:
  assumes "now \<le> later" and "map_cluster_status h c d now \<noteq> ''CREATING''"
  shows "map_cluster_status h c d later = map_cluster_status h c d now"
proof -
  have "time_sub now c \<le> time_sub later c" using assms(1) by (rule time_sub_mono)
  with assms(2) show ?thesis by (auto simp: map_cluster_status_def split: if_splits)
qed

end
