(* ===== verification/Monitor.thy ===== *)
theory Monitor
  imports World Status
begin

text \<open>
  The status monitor (internal/monitor/monitor.go): it polls kweb, brings the store in line with
  what it sees, publishes changes with a debounce window per resource, and looks for orphans.

  The monitor works on the world of theory World, through the client, store, publisher and clock of
  the server record \<open>V\<close>, which cmd/dcm-kcli-provider/server.go shares between it and the handlers.
  The three goroutines of a poll run here one after the other.
\<close>

record MonitorConfig =
  mc_poll_interval :: duration
  mc_debounce_window :: duration
  mc_cluster_create_timeout :: duration

record PendingEvent =
  pe_resource_type :: string
  pe_status :: string
  pe_message :: string
  pe_scheduled_at :: time

text \<open>\<open>mo_status_changes\<close> is the counter \<open>MonitorStatusChanges\<close>.\<close>

record Monitor =
  mo_profiles :: "string list"
  mo_profile_set :: "string list"
  mo_last_publish :: "(string \<times> time) list"
  mo_pending :: "(string \<times> PendingEvent) list"
  mo_orphan_counter :: nat
  mo_seen_orphans :: "string list"
  mo_first_poll_done :: bool
  mo_status_changes :: nat

definition new_monitor :: Monitor where
  "new_monitor =
     \<lparr>mo_profiles = [], mo_profile_set = [], mo_last_publish = [], mo_pending = [],
      mo_orphan_counter = 0, mo_seen_orphans = [], mo_first_poll_done = False,
      mo_status_changes = 0\<rparr>"

text \<open>The profile cache that the monitor gives to the handlers.\<close>

definition monitor_profiles :: "Monitor \<Rightarrow> ProfileCache" where
  "monitor_profiles m =
     \<lparr>pc_profiles = mo_profiles m, pc_has_profile = (\<lambda>name. name \<in> set (mo_profile_set m))\<rparr>"

definition orphan_count :: "Monitor \<Rightarrow> nat" where
  "orphan_count m = mo_orphan_counter m"

section \<open>Publishing\<close>

definition publish_event ::
  "('s, 'k, 'p) Server \<Rightarrow> ctx \<Rightarrow> string \<Rightarrow> PendingEvent \<Rightarrow> ('s, 'k, 'p) World \<Rightarrow> ('s, 'k, 'p) World" where
  "publish_event V cx i pe w =
     (case now V w of
        (t, w) \<Rightarrow>
          (let evt = \<lparr>ev_id = i, ev_status = pe_status pe, ev_message = pe_message pe, ev_timestamp = t\<rparr> in
           if pe_resource_type pe = ''vm'' then
             snd (on_pub (pub_vm_event (sv_publisher V) (cx (w_ticks w)) evt) w)
           else snd (on_pub (pub_cluster_event (sv_publisher V) (cx (w_ticks w)) evt) w)))"

definition extract_pending ::
  "('s, 'k, 'p) Server \<Rightarrow> string \<Rightarrow> ('s, 'k, 'p) World \<times> Monitor \<Rightarrow>
   PendingEvent option \<times> ('s, 'k, 'p) World \<times> Monitor" where
  "extract_pending V i st =
     (case st of
        (w, m) \<Rightarrow>
          (case map_of (mo_pending m) i of
             None \<Rightarrow> (None, w, m)
           | Some pe \<Rightarrow>
               (case now V w of
                  (t, w) \<Rightarrow>
                    (Some pe, w,
                     m\<lparr>mo_pending := map_unset i (mo_pending m),
                       mo_last_publish := map_set i t (mo_last_publish m)\<rparr>))))"

text \<open>Whether the window since the last publication of a resource is over.\<close>

definition window_over ::
  "('s, 'k, 'p) Server \<Rightarrow> MonitorConfig \<Rightarrow> string \<Rightarrow> Monitor \<Rightarrow> ('s, 'k, 'p) World \<Rightarrow>
   bool \<times> ('s, 'k, 'p) World" where
  "window_over V cf i m w =
     (case map_of (mo_last_publish m) i of
        None \<Rightarrow> (True, w)
      | Some last_time \<Rightarrow>
          (case now V w of (t, w) \<Rightarrow> (mc_debounce_window cf \<le> time_sub t last_time, w)))"

definition publish_with_debounce ::
  "('s, 'k, 'p) Server \<Rightarrow> MonitorConfig \<Rightarrow> ctx \<Rightarrow> string \<Rightarrow> string \<Rightarrow> string \<Rightarrow> string \<Rightarrow>
   ('s, 'k, 'p) World \<times> Monitor \<Rightarrow> ('s, 'k, 'p) World \<times> Monitor" where
  "publish_with_debounce V cf cx i resource_type status message st =
     (case st of
        (w, m) \<Rightarrow>
          (case now V w of
             (t, w) \<Rightarrow>
               (let m = m\<lparr>mo_pending :=
                           map_set i \<lparr>pe_resource_type = resource_type, pe_status = status,
                                      pe_message = message, pe_scheduled_at = t\<rparr> (mo_pending m),
                          mo_status_changes := Suc (mo_status_changes m)\<rparr> in
                case window_over V cf i m w of
                  (should_flush, w) \<Rightarrow>
                    (if should_flush then
                       (case extract_pending V i (w, m) of
                          (None, w, m) \<Rightarrow> (w, m)
                        | (Some pe, w, m) \<Rightarrow> (publish_event V cx i pe w, m))
                     else (w, m)))))"

text \<open>\<open>flushPending\<close>: the events are taken out first and published after.\<close>

fun take_due ::
  "('s, 'k, 'p) Server \<Rightarrow> MonitorConfig \<Rightarrow> string list \<Rightarrow> ('s, 'k, 'p) World \<times> Monitor \<Rightarrow>
   (string \<times> PendingEvent) list \<times> ('s, 'k, 'p) World \<times> Monitor" where
  "take_due V cf [] st = ([], st)"
| "take_due V cf (i # ids) (w, m) =
     (case window_over V cf i m w of
        (due, w) \<Rightarrow>
          (if due then
             (case extract_pending V i (w, m) of
                (None, st) \<Rightarrow> take_due V cf ids st
              | (Some pe, st) \<Rightarrow>
                  (case take_due V cf ids st of (items, st) \<Rightarrow> ((i, pe) # items, st)))
           else take_due V cf ids (w, m)))"

definition flush_pending ::
  "('s, 'k, 'p) Server \<Rightarrow> MonitorConfig \<Rightarrow> ctx \<Rightarrow> ('s, 'k, 'p) World \<times> Monitor \<Rightarrow>
   ('s, 'k, 'p) World \<times> Monitor" where
  "flush_pending V cf cx st =
     (case take_due V cf (map fst (mo_pending (snd st))) st of
        (items, w, m) \<Rightarrow> (fold (\<lambda>item. publish_event V cx (fst item) (snd item)) items w, m))"

section \<open>Polling\<close>

definition refresh_profiles ::
  "('s, 'k, 'p) Server \<Rightarrow> ('s, 'k, 'p) World \<times> Monitor \<Rightarrow> ('s, 'k, 'p) World \<times> Monitor" where
  "refresh_profiles V st =
     (case st of
        (w, m) \<Rightarrow>
          (case on_kweb (kc_list_profiles (sv_kweb V)) w of
             (Inl _, w) \<Rightarrow> (w, m)
           | (Inr profiles, w) \<Rightarrow> (w, m\<lparr>mo_profiles := profiles, mo_profile_set := profiles\<rparr>)))"

definition forget :: "string \<Rightarrow> Monitor \<Rightarrow> Monitor" where
  "forget i m =
     m\<lparr>mo_last_publish := map_unset i (mo_last_publish m), mo_pending := map_unset i (mo_pending m)\<rparr>"

text \<open>One entry of \<open>pollVMs\<close>; \<open>found\<close> is the VM of its name in kweb's listing.\<close>

definition poll_vm_entry ::
  "('s, 'k, 'p) Server \<Rightarrow> MonitorConfig \<Rightarrow> ctx \<Rightarrow> VMInfo option \<Rightarrow> ResourceEntry \<Rightarrow>
   ('s, 'k, 'p) World \<times> Monitor \<Rightarrow> ('s, 'k, 'p) World \<times> Monitor" where
  "poll_vm_entry V cf cx found entry st =
     (case found of
        None \<Rightarrow>
          (if re_status entry \<noteq> ''DELETED'' \<and> re_status entry \<noteq> ''DELETING'' then
             (case publish_with_debounce V cf cx (re_id entry) ''vm'' ''DELETED''
                     (''VM '' @ re_kcli_name entry @ '' no longer found in kweb'') st of
                (w, m) \<Rightarrow>
                  (gauge_add ''vm'' (- 1) (snd (on_store (ss_delete (sv_store V) (re_id entry)) w)),
                   forget (re_id entry) m))
           else st)
      | Some kweb_vm \<Rightarrow>
          (case now V (fst st) of
             (t, w) \<Rightarrow>
               (let new_status = map_vm_status (vi_status kweb_vm) (re_created_at entry) t in
                if new_status \<noteq> re_status entry then
                  (case publish_with_debounce V cf cx (re_id entry) ''vm'' new_status
                          (''VM '' @ re_kcli_name entry @ '' status: '' @ new_status) (w, snd st) of
                     (w, m) \<Rightarrow>
                       (snd (on_store (ss_update_status (sv_store V) (re_id entry) new_status) w), m))
                else (w, snd st))))"

text \<open>
  \<open>pollVMs\<close> asks kweb first and the store afterwards; \<open>reconcile_vms\<close> is what it does with kweb's
  answer, on the store as it is by then.
\<close>

definition reconcile_vms ::
  "('s, 'k, 'p) Server \<Rightarrow> MonitorConfig \<Rightarrow> ctx \<Rightarrow> VMInfo list option \<Rightarrow> ('s, 'k, 'p) World \<times> Monitor \<Rightarrow>
   (VMInfo list option \<times> ResourceEntry list) \<times> ('s, 'k, 'p) World \<times> Monitor" where
  "reconcile_vms V cf cx kweb_vms st =
     (let vms = (case kweb_vms of None \<Rightarrow> [] | Some vs \<Rightarrow> vs);
          kweb_map = map_of (rev (map (\<lambda>v. (vi_name v, v)) vms)) in
      case ss_list (sv_store V) ''vm'' (w_store (fst st)) of
        Inl _ \<Rightarrow> ((kweb_vms, []), st)
      | Inr store_vms \<Rightarrow>
          ((kweb_vms, store_vms),
           fold (\<lambda>entry. poll_vm_entry V cf cx (kweb_map (re_kcli_name entry)) entry) store_vms st))"

definition poll_vms ::
  "('s, 'k, 'p) Server \<Rightarrow> MonitorConfig \<Rightarrow> ctx \<Rightarrow> ('s, 'k, 'p) World \<times> Monitor \<Rightarrow>
   (VMInfo list option \<times> ResourceEntry list) \<times> ('s, 'k, 'p) World \<times> Monitor" where
  "poll_vms V cf cx st =
     (case on_kweb (kc_list_vms (sv_kweb V)) (fst st) of
        (Inl _, w) \<Rightarrow> ((None, []), w, snd st)
      | (Inr kweb_vms, w) \<Rightarrow> reconcile_vms V cf cx kweb_vms (w, snd st))"

text \<open>One entry of \<open>pollClusters\<close>. The clock is read where the status depends on it.\<close>

definition poll_cluster_entry ::
  "('s, 'k, 'p) Server \<Rightarrow> MonitorConfig \<Rightarrow> ctx \<Rightarrow> ClusterInfo option \<Rightarrow> ResourceEntry \<Rightarrow>
   ('s, 'k, 'p) World \<times> Monitor \<Rightarrow> ('s, 'k, 'p) World \<times> Monitor" where
  "poll_cluster_entry V cf cx found entry st =
     (case now V (fst st) of
        (t, w) \<Rightarrow>
          (case found of
             None \<Rightarrow>
               (if re_status entry = ''CREATING'' \<and>
                   mc_cluster_create_timeout cf < time_sub t (re_created_at entry) then
                  (case publish_with_debounce V cf cx (re_id entry) ''cluster'' ''ERROR''
                          (''Cluster '' @ re_kcli_name entry @ '' creation timed out'') (w, snd st) of
                     (w, m) \<Rightarrow>
                       (snd (on_store (ss_update_status (sv_store V) (re_id entry) ''ERROR'') w), m))
                else if re_status entry \<noteq> ''DELETED'' \<and> re_status entry \<noteq> ''DELETING'' \<and>
                        re_status entry \<noteq> ''CREATING'' then
                  (case publish_with_debounce V cf cx (re_id entry) ''cluster'' ''DELETED''
                          (''Cluster '' @ re_kcli_name entry @ '' no longer found'') (w, snd st) of
                     (w, m) \<Rightarrow>
                       (gauge_add ''cluster'' (- 1) (snd (on_store (ss_delete (sv_store V) (re_id entry)) w)),
                        forget (re_id entry) m))
                else (w, snd st))
           | Some kweb_cl \<Rightarrow>
               (let has_nodes = (ci_type kweb_cl \<noteq> '''' \<or> ci_vms kweb_cl \<noteq> '''');
                    new_status =
                      map_cluster_status has_nodes (re_created_at entry) (mc_cluster_create_timeout cf) t in
                if new_status \<noteq> re_status entry then
                  (case publish_with_debounce V cf cx (re_id entry) ''cluster'' new_status
                          (''Cluster '' @ re_kcli_name entry @ '' status: '' @ new_status) (w, snd st) of
                     (w, m) \<Rightarrow>
                       (snd (on_store (ss_update_status (sv_store V) (re_id entry) new_status) w), m))
                else (w, snd st))))"

definition poll_clusters ::
  "('s, 'k, 'p) Server \<Rightarrow> MonitorConfig \<Rightarrow> ctx \<Rightarrow> ('s, 'k, 'p) World \<times> Monitor \<Rightarrow>
   ('s, 'k, 'p) World \<times> Monitor" where
  "poll_clusters V cf cx st =
     (case on_kweb (kc_list_clusters (sv_kweb V)) (fst st) of
        (Inl _, w) \<Rightarrow> (w, snd st)
      | (Inr kweb_clusters, w) \<Rightarrow>
          (let kweb_map = map_of (rev (map (\<lambda>c. (ci_name c, c)) kweb_clusters)) in
           case ss_list (sv_store V) ''cluster'' (w_store w) of
             Inl _ \<Rightarrow> (w, snd st)
           | Inr store_clusters \<Rightarrow>
               fold (\<lambda>entry. poll_cluster_entry V cf cx (kweb_map (re_kcli_name entry)) entry) store_clusters
                 (w, snd st)))"

definition orphan :: "ResourceEntry list \<Rightarrow> VMInfo \<Rightarrow> bool" where
  "orphan store_vms vm \<longleftrightarrow>
     has_prefix (vi_name vm) ''dcm-'' \<and> vi_name vm \<notin> set (map re_kcli_name store_vms)"

definition see_orphan :: "string \<Rightarrow> Monitor \<Rightarrow> Monitor" where
  "see_orphan name m =
     (if name \<in> set (mo_seen_orphans m) then m
      else m\<lparr>mo_seen_orphans := name # mo_seen_orphans m,
             mo_orphan_counter := Suc (mo_orphan_counter m)\<rparr>)"

definition detect_vm_orphans :: "VMInfo list option \<Rightarrow> ResourceEntry list \<Rightarrow> Monitor \<Rightarrow> Monitor" where
  "detect_vm_orphans kweb_vms store_vms m =
     (case kweb_vms of
        None \<Rightarrow> m
      | Some vms \<Rightarrow>
          (let current_orphans = map vi_name (filter (orphan store_vms) vms);
               m = fold see_orphan current_orphans m in
           m\<lparr>mo_seen_orphans := filter (\<lambda>name. name \<in> set current_orphans) (mo_seen_orphans m)\<rparr>))"

definition poll ::
  "('s, 'k, 'p) Server \<Rightarrow> MonitorConfig \<Rightarrow> ctx \<Rightarrow> ('s, 'k, 'p) World \<times> Monitor \<Rightarrow>
   ('s, 'k, 'p) World \<times> Monitor" where
  "poll V cf cx st =
     (let st = refresh_profiles V st in
      case poll_vms V cf cx st of
        ((kweb_vms, store_vms), st) \<Rightarrow>
          (case flush_pending V cf cx (poll_clusters V cf cx st) of
             (w, m) \<Rightarrow> (w, (detect_vm_orphans kweb_vms store_vms m)\<lparr>mo_first_poll_done := True\<rparr>)))"

text \<open>
  \<open>Run\<close>: one poll at once and one for each of \<open>n\<close> ticks before the context is done. None is the
  panic of \<open>time.NewTicker\<close> on an interval that is not positive.
\<close>

definition monitor_run ::
  "('s, 'k, 'p) Server \<Rightarrow> MonitorConfig \<Rightarrow> ctx \<Rightarrow> nat \<Rightarrow> ('s, 'k, 'p) World \<times> Monitor \<Rightarrow>
   (('s, 'k, 'p) World \<times> Monitor) option" where
  "monitor_run V cf cx n st =
     (if mc_poll_interval cf \<le> 0 then None else Some ((poll V cf cx ^^ Suc n) st))"

section \<open>What publishing leaves alone\<close>

lemma publish_event_effect [effect_simps]:
  "w_store (publish_event V cx i pe w) = w_store w" "w_kweb (publish_event V cx i pe w) = w_kweb w"
  "w_managed (publish_event V cx i pe w) = w_managed w"
  "w_kc_cache (publish_event V cx i pe w) = w_kc_cache w"
  "w_ticks (publish_event V cx i pe w) = Suc (w_ticks w)"
  by (simp_all add: publish_event_def case_prod_unfold effect_simps Let_def)

lemma publish_with_debounce_effect [effect_simps]:
  "w_store (fst (publish_with_debounce V cf cx i ty s msg st)) = w_store (fst st)"
  "w_kweb (fst (publish_with_debounce V cf cx i ty s msg st)) = w_kweb (fst st)"
  "w_managed (fst (publish_with_debounce V cf cx i ty s msg st)) = w_managed (fst st)"
  "w_kc_cache (fst (publish_with_debounce V cf cx i ty s msg st)) = w_kc_cache (fst st)"
  by (simp_all add: publish_with_debounce_def extract_pending_def window_over_def case_prod_unfold
      effect_simps Let_def split: option.splits)

lemma publish_with_debounce_ticks:
  "w_ticks (fst st) \<le> w_ticks (fst (publish_with_debounce V cf cx i ty s msg st))"
  by (simp add: publish_with_debounce_def extract_pending_def window_over_def case_prod_unfold
      effect_simps Let_def split: option.splits)

text \<open>Effects that leave store, kweb and gauge alone, while the clock may be read.\<close>

definition quiet :: "('s, 'k, 'p) World \<Rightarrow> ('s, 'k, 'p) World \<Rightarrow> bool" where
  "quiet w w' \<longleftrightarrow>
     w_store w' = w_store w \<and> w_kweb w' = w_kweb w \<and> w_managed w' = w_managed w \<and>
     w_ticks w \<le> w_ticks w'"

lemma quiet_refl [simp]: "quiet w w"
  by (simp add: quiet_def)

lemma quiet_trans: "quiet w w' \<Longrightarrow> quiet w' w'' \<Longrightarrow> quiet w w''"
  by (auto simp: quiet_def)

lemma quiet_now [simp]: "quiet w (snd (now V w))"
  by (simp add: quiet_def effect_simps)

lemma quiet_window_over [simp]: "quiet w (snd (window_over V cf i m w))"
  by (simp add: window_over_def case_prod_unfold split: option.splits)

lemma quiet_extract_pending [simp]: "quiet (fst st) (fst (snd (extract_pending V i st)))"
  by (simp add: extract_pending_def case_prod_unfold split: option.splits)

lemma quiet_take_due: "quiet (fst st) (fst (snd (take_due V cf ids st)))"
proof (induction ids arbitrary: st)
  case (Cons i ids)
  obtain w m where st: "st = (w, m)" by force
  obtain due w1 where due: "window_over V cf i m w = (due, w1)" by force
  have q1: "quiet w w1" using quiet_window_over [of w V cf i m] due by simp
  obtain pe st2 where e: "extract_pending V i (w1, m) = (pe, st2)"
    by (rule that [OF prod.collapse [symmetric]])
  have q2: "quiet w1 (fst st2)" using quiet_extract_pending [of "(w1, m)" V i] e by simp
  show ?case
  proof (cases due)
    case True
    then have "fst (snd (take_due V cf (i # ids) st)) = fst (snd (take_due V cf ids st2))"
      using st due e by (simp add: case_prod_unfold split: option.split)
    then show ?thesis using q1 q2 Cons.IH [of st2] st by (metis quiet_trans fst_conv)
  next
    case False
    then show ?thesis using q1 Cons.IH [of "(w1, m)"] st due by (auto intro: quiet_trans)
  qed
qed simp

lemma fold_publish_effect:
  "w_store (fold (\<lambda>item. publish_event V cx (fst item) (snd item)) items w) = w_store w"
  "w_kweb (fold (\<lambda>item. publish_event V cx (fst item) (snd item)) items w) = w_kweb w"
  "w_managed (fold (\<lambda>item. publish_event V cx (fst item) (snd item)) items w) = w_managed w"
  "w_ticks (fold (\<lambda>item. publish_event V cx (fst item) (snd item)) items w) = w_ticks w + length items"
  by (induction items arbitrary: w) (auto simp: effect_simps)

lemma quiet_flush_pending: "quiet (fst st) (fst (flush_pending V cf cx st))"
  using quiet_take_due [of st V cf "map fst (mo_pending (snd st))"]
  by (simp add: flush_pending_def case_prod_unfold quiet_def fold_publish_effect)

lemma poll_entry_kweb [effect_simps]:
  "w_kweb (fst (poll_vm_entry V cf cx found e st)) = w_kweb (fst st)"
  "w_kweb (fst (poll_cluster_entry V cf cx fc e st)) = w_kweb (fst st)"
  by (simp_all add: poll_vm_entry_def poll_cluster_entry_def case_prod_unfold effect_simps Let_def
      split: option.splits)

lemma poll_entry_ticks:
  "w_ticks (fst st) \<le> w_ticks (fst (poll_vm_entry V cf cx found e st))"
  "w_ticks (fst st) \<le> w_ticks (fst (poll_cluster_entry V cf cx fc e st))"
  by (auto simp: poll_vm_entry_def poll_cluster_entry_def case_prod_unfold effect_simps Let_def
      intro: Suc_leD publish_with_debounce_ticks order_trans [OF _ publish_with_debounce_ticks] split: option.splits)

end
