(* ===== verification/Poll.thy ===== *)
theory Poll
  imports Monitor
begin

text \<open>
  What a poll of the monitor does to the store and to the gauge: the entries that kweb no longer
  reports are removed, the others get the status that kweb's report and the clock stand for. The
  lemmas hold for any store that accepts its writes (\<open>live_store\<close>).
\<close>

section \<open>The store after a poll\<close>

text \<open>What a poll makes of a stored VM: \<open>None\<close> is its removal.\<close>

definition vm_after :: "VMInfo option \<Rightarrow> ResourceEntry \<Rightarrow> time \<Rightarrow> ResourceEntry option" where
  "vm_after found e t =
     (case found of
        None \<Rightarrow> (if re_status e = ''DELETED'' \<or> re_status e = ''DELETING'' then Some e else None)
      | Some v \<Rightarrow> Some (e\<lparr>re_status := map_vm_status (vi_status v) (re_created_at e) t\<rparr>))"

definition cluster_after :: "duration \<Rightarrow> ClusterInfo option \<Rightarrow> ResourceEntry \<Rightarrow> time \<Rightarrow> ResourceEntry option" where
  "cluster_after create_timeout found e t =
     (case found of
        None \<Rightarrow>
          (if re_status e = ''CREATING'' then
             (if create_timeout < time_sub t (re_created_at e) then Some (e\<lparr>re_status := ''ERROR''\<rparr>) else Some e)
           else if re_status e = ''DELETED'' \<or> re_status e = ''DELETING'' then Some e
           else None)
      | Some c \<Rightarrow>
          Some (e\<lparr>re_status := map_cluster_status (ci_type c \<noteq> '''' \<or> ci_vms c \<noteq> '''') (re_created_at e)
                     create_timeout t\<rparr>))"

lemma vm_states_utf8: "s \<in> vm_states \<Longrightarrow> valid_utf8 s"
  by (auto simp: vm_states_def utf8_len_ascii Let_def)

lemma cluster_states_utf8: "s \<in> cluster_states \<Longrightarrow> valid_utf8 s"
  by (auto simp: cluster_states_def utf8_len_ascii Let_def)

lemma update_same: "m i = Some e \<Longrightarrow> re_status e = s \<Longrightarrow> m = m(i \<mapsto> e\<lparr>re_status := s\<rparr>)"
  by (auto simp: fun_eq_iff)

text \<open>The number by which removing an entry lowers the gauge.\<close>

definition removed :: "ResourceEntry option \<Rightarrow> int" where
  "removed x = (if x = None then 1 else 0)"

text \<open>What kweb's listings say of a name: the last of several.\<close>

definition vm_map :: "VMInfo list option \<Rightarrow> string \<Rightarrow> VMInfo option" where
  "vm_map kvs = map_of (rev (map (\<lambda>v. (vi_name v, v)) (case kvs of None \<Rightarrow> [] | Some vs \<Rightarrow> vs)))"

definition cluster_map :: "ClusterInfo list \<Rightarrow> string \<Rightarrow> ClusterInfo option" where
  "cluster_map kcs = map_of (rev (map (\<lambda>c. (ci_name c, c)) kcs))"

lemma removed_sum: "sum_list (map (\<lambda>e. removed (v' (re_id e))) es) =
    int (length (filter (\<lambda>e. v' (re_id e) = None) es))"
  by (induction es) (auto simp: removed_def)

lemma removed_card:
  assumes "distinct (map re_id es)"
    and "\<And>e. e \<in> set es \<Longrightarrow> v (re_id e) \<noteq> None"
    and "\<And>i. i \<notin> re_id ` set es \<Longrightarrow> v' i = v i"
  shows "sum_list (map (\<lambda>e. removed (v' (re_id e))) es) = int (card {i. v i \<noteq> None \<and> v' i = None})"
proof -
  let ?gone = "filter (\<lambda>e. v' (re_id e) = None) es"
  have "{i. v i \<noteq> None \<and> v' i = None} \<subseteq> re_id ` set ?gone"
  proof
    fix i assume "i \<in> {i. v i \<noteq> None \<and> v' i = None}"
    then have "v' i \<noteq> v i" "v' i = None" by auto
    then obtain e where "e \<in> set es" "i = re_id e" using assms(3) by blast
    with \<open>v' i = None\<close> show "i \<in> re_id ` set ?gone" by simp
  qed
  moreover have "re_id ` set ?gone \<subseteq> {i. v i \<noteq> None \<and> v' i = None}"
    using assms(2) by (intro subsetI) auto
  ultimately have gone: "set (map re_id ?gone) = {i. v i \<noteq> None \<and> v' i = None}"
    unfolding set_map by (intro equalityI)
  have "distinct (map re_id ?gone)" using assms(1) by (rule distinct_map_filter)
  from distinct_card [OF this] show ?thesis unfolding removed_sum gone by simp
qed

text \<open>The readings of the clock that were taken between two worlds.\<close>

definition readings :: "('s, 'k, 'p) Server \<Rightarrow> ('s, 'k, 'p) World \<Rightarrow> ('s, 'k, 'p) World \<Rightarrow> time set" where
  "readings V w w' = sv_clock V ` {w_ticks w .. w_ticks w'}"

text \<open>
  \<open>v'\<close> is \<open>v\<close> after a pass over the entries of type \<open>ty\<close> at readings in \<open>T\<close>; \<open>gone\<close> are the IDs
  of that type that it removed.
\<close>

definition synced ::
  "string \<Rightarrow> (ResourceEntry \<Rightarrow> time \<Rightarrow> ResourceEntry option) \<Rightarrow> time set \<Rightarrow>
   (string \<Rightarrow> ResourceEntry option) \<Rightarrow> (string \<Rightarrow> ResourceEntry option) \<Rightarrow> bool" where
  "synced ty after T v v' \<longleftrightarrow>
     (\<forall>i. case v i of
            None \<Rightarrow> v' i = None
          | Some e \<Rightarrow> (\<exists>t \<in> T. v' i = (if re_type e = ty then after e t else Some e)))"

definition gone ::
  "string \<Rightarrow> (string \<Rightarrow> ResourceEntry option) \<Rightarrow> (string \<Rightarrow> ResourceEntry option) \<Rightarrow> string set" where
  "gone ty v v' = {i. \<exists>e. v i = Some e \<and> re_type e = ty \<and> v' i = None}"

text \<open>What a poll makes of an entry, given kweb's two answers; a failed listing changes nothing.\<close>

definition vm_rule :: "kweb_error + VMInfo list option \<Rightarrow> ResourceEntry \<Rightarrow> time \<Rightarrow> ResourceEntry option" where
  "vm_rule rv e t =
     (case rv of Inl _ \<Rightarrow> Some e | Inr kvs \<Rightarrow> vm_after (vm_map kvs (re_kcli_name e)) e t)"

definition cluster_rule ::
  "duration \<Rightarrow> kweb_error + ClusterInfo list \<Rightarrow> ResourceEntry \<Rightarrow> time \<Rightarrow> ResourceEntry option" where
  "cluster_rule d rc e t =
     (case rc of Inl _ \<Rightarrow> Some e | Inr kcs \<Rightarrow> cluster_after d (cluster_map kcs (re_kcli_name e)) e t)"

definition polled ::
  "duration \<Rightarrow> kweb_error + VMInfo list option \<Rightarrow> kweb_error + ClusterInfo list \<Rightarrow>
   ResourceEntry \<Rightarrow> time \<Rightarrow> ResourceEntry option" where
  "polled d rv rc e t =
     (if re_type e = ''vm'' then vm_rule rv e t
      else if re_type e = ''cluster'' then cluster_rule d rc e t
      else Some e)"

text \<open>A pass over the entries of a type leads from \<open>w\<close> to \<open>w'\<close>.\<close>

definition passed ::
  "('s \<Rightarrow> string \<Rightarrow> ResourceEntry option) \<Rightarrow> ('s, 'k, 'p) Server \<Rightarrow> string \<Rightarrow>
   (ResourceEntry \<Rightarrow> time \<Rightarrow> ResourceEntry option) \<Rightarrow> ('s, 'k, 'p) World \<Rightarrow> ('s, 'k, 'p) World \<Rightarrow> bool" where
  "passed view V ty after w w' \<longleftrightarrow>
     w_ticks w \<le> w_ticks w' \<and>
     synced ty after (readings V w w') (view (w_store w)) (view (w_store w')) \<and>
     w_managed w' = (w_managed w)(ty := w_managed w ty -
       int (card (gone ty (view (w_store w)) (view (w_store w')))))"

lemma same_synced: "synced ty (\<lambda>e t. Some e) (readings V w w) v v"
  by (auto simp: synced_def readings_def split: option.split)

lemma same_gone [simp]: "gone ty v v = {}"
  by (auto simp: gone_def)

lemma same_passed: "passed view V ty (\<lambda>e t. Some e) w (w\<lparr>w_kweb := k\<rparr>)"
proof -
  have "readings V w (w\<lparr>w_kweb := k\<rparr>) = readings V w w" by (simp add: readings_def)
  then show ?thesis by (simp add: passed_def same_synced)
qed

lemma passed_kweb: "passed view V ty after (w\<lparr>w_kweb := k\<rparr>) w' \<Longrightarrow> passed view V ty after w w'"
  by (simp add: passed_def readings_def)

lemma synced_None: "synced ty after T v v' \<Longrightarrow> v i = None \<Longrightarrow> v' i = None"
  unfolding synced_def by (drule spec [of _ i]) simp

lemma synced_Some:
  "synced ty after T v v' \<Longrightarrow> v i = Some e \<Longrightarrow>
   \<exists>t \<in> T. v' i = (if re_type e = ty then after e t else Some e)"
  unfolding synced_def by (drule spec [of _ i]) simp

lemma rule_keeps_type:
  "vm_rule rv e t = Some e' \<Longrightarrow> re_type e' = re_type e"
  "cluster_rule d rc e t = Some e' \<Longrightarrow> re_type e' = re_type e"
  by (auto simp: vm_rule_def cluster_rule_def vm_after_def cluster_after_def
      split: sum.splits option.splits if_splits)

lemma readings_mono:
  "w_ticks w \<le> w_ticks v \<Longrightarrow> w_ticks v' \<le> w_ticks w' \<Longrightarrow> readings V v v' \<subseteq> readings V w w'"
  by (auto simp: readings_def)

text \<open>The pass over the VMs and then the one over the clusters, as one pass.\<close>

lemma synced_both:
  assumes "synced ''vm'' (vm_rule rv) T1 v v1" "synced ''cluster'' (cluster_rule d rc) T2 v1 v2"
    and "v i = Some e"
  shows "\<exists>t \<in> T1 \<union> T2. v2 i = polled d rv rc e t"
proof -
  obtain t1 where t1: "t1 \<in> T1" "v1 i = (if re_type e = ''vm'' then vm_rule rv e t1 else Some e)"
    using synced_Some [OF assms(1,3)] by blast
  show ?thesis
  proof (cases "v1 i")
    case None
    then have "v2 i = None" by (rule synced_None [OF assms(2)])
    with None t1 show ?thesis by (intro bexI [of _ t1]) (auto simp: polled_def split: if_splits)
  next
    case (Some e1)
    then obtain t2 where t2: "t2 \<in> T2"
      "v2 i = (if re_type e1 = ''cluster'' then cluster_rule d rc e1 t2 else Some e1)"
      using synced_Some [OF assms(2)] by blast
    show ?thesis
    proof (cases "re_type e = ''vm''")
      case True
      then show ?thesis using Some t1 t2 rule_keeps_type(1)
        by (intro bexI [of _ t1]) (auto simp: polled_def)
    next
      case False
      then show ?thesis using Some t1 t2 by (intro bexI [of _ t2]) (auto simp: polled_def)
    qed
  qed
qed

lemma gone_both:
  assumes "synced ''vm'' (vm_rule rv) T1 v v1" "synced ''cluster'' (cluster_rule d rc) T2 v1 v2"
  shows "gone ''vm'' v v1 = gone ''vm'' v v2" "gone ''cluster'' v1 v2 = gone ''cluster'' v v2"
proof -
  have a: "\<exists>t \<in> T1. v1 i = (if re_type e = ''vm'' then vm_rule rv e t else Some e)"
    if "v i = Some e" for i e
    by (rule synced_Some [OF assms(1) that])
  have b: "\<exists>t \<in> T2. v2 i = (if re_type e = ''cluster'' then cluster_rule d rc e t else Some e)"
    if "v1 i = Some e" for i e
    by (rule synced_Some [OF assms(2) that])
  note n = synced_None [OF assms(1)] and n' = synced_None [OF assms(2)]
  have "v1 i = None \<longleftrightarrow> v2 i = None" if "v i = Some e" "re_type e = ''vm''" for i e
  proof (cases "v1 i")
    case (Some e1)
    then have "re_type e1 = ''vm''" using a [OF that(1)] that(2) rule_keeps_type(1) by auto
    with b [OF Some] Some show ?thesis by auto
  qed (use n' in auto)
  then show "gone ''vm'' v v1 = gone ''vm'' v v2" by (auto simp: gone_def)
  have "v1 i = Some e \<longleftrightarrow> v i = Some e" if "re_type e = ''cluster''" for i e
  proof (cases "v i")
    case (Some x)
    then obtain t where t: "v1 i = (if re_type x = ''vm'' then vm_rule rv x t else Some x)"
      using a by blast
    show ?thesis
    proof (cases "re_type x = ''vm''")
      case True
      then have "v1 i \<noteq> Some e" using t that rule_keeps_type(1) [of rv x t e] by auto
      then show ?thesis using Some True that by auto
    qed (use Some t in simp)
  qed (use n in auto)
  then show "gone ''cluster'' v1 v2 = gone ''cluster'' v v2" by (auto simp: gone_def)
qed

context live_store
begin

lemma poll_vm_entry_store:
  assumes "inv (w_store w)" "ready (w_store w)" "sv_store V = S" "view (w_store w) (re_id e) = Some e"
    and "poll_vm_entry V cf cx found e (w, m) = (w', m')"
  shows "inv (w_store w') \<and> ready (w_store w') \<and>
    view (w_store w') = (view (w_store w))(re_id e := vm_after found e (sv_clock V (w_ticks w))) \<and>
    w_managed w' = (w_managed w)(''vm'' := w_managed w ''vm'' -
      removed (vm_after found e (sv_clock V (w_ticks w))))"
proof (cases found)
  case None
  obtain s' where s': "ss_delete S (re_id e) (w_store w) = (None, s')" "inv s'" "ready s'"
    "view s' = (view (w_store w))(re_id e := None)"
    using delete_ready [OF assms(1,2)] by blast
  show ?thesis
  proof (cases "re_status e = ''DELETED'' \<or> re_status e = ''DELETING''")
    case True
    with None assms show ?thesis
      by (auto simp: poll_vm_entry_def vm_after_def removed_def fun_eq_iff)
  next
    case False
    with None assms s' show ?thesis
      by (auto simp: poll_vm_entry_def vm_after_def removed_def case_prod_unfold effect_simps fun_eq_iff)
  qed
next
  case (Some v)
  let ?t = "sv_clock V (w_ticks w)"
  let ?st = "map_vm_status (vi_status v) (re_created_at e) ?t"
  have "valid_utf8 ?st" by (rule vm_states_utf8) (rule map_vm_status_range)
  from update_ready [OF assms(1,2,4) this] obtain s' where
    s': "ss_update_status S (re_id e) ?st (w_store w) = (None, s')" "inv s'" "ready s'"
      "view s' = (view (w_store w))(re_id e \<mapsto> e\<lparr>re_status := ?st\<rparr>)" .
  show ?thesis
  proof (cases "?st = re_status e")
    case True
    then show ?thesis
      using Some assms update_same [of "view (w_store w)" "re_id e" e ?st]
      by (auto simp: poll_vm_entry_def vm_after_def removed_def now_def Let_def)
  next
    case False
    then show ?thesis
      using Some assms s'
      by (auto simp: poll_vm_entry_def vm_after_def removed_def case_prod_unfold effect_simps now_def Let_def)
  qed
qed

lemma poll_cluster_entry_store:
  assumes "inv (w_store w)" "ready (w_store w)" "sv_store V = S" "view (w_store w) (re_id e) = Some e"
    and "poll_cluster_entry V cf cx found e (w, m) = (w', m')"
  shows "inv (w_store w') \<and> ready (w_store w') \<and>
    view (w_store w') = (view (w_store w))(re_id e :=
      cluster_after (mc_cluster_create_timeout cf) found e (sv_clock V (w_ticks w))) \<and>
    w_managed w' = (w_managed w)(''cluster'' := w_managed w ''cluster'' -
      removed (cluster_after (mc_cluster_create_timeout cf) found e (sv_clock V (w_ticks w))))"
proof -
  let ?t = "sv_clock V (w_ticks w)"
  have upd: "\<exists>s'. ss_update_status S (re_id e) st (w_store w) = (None, s') \<and> inv s' \<and> ready s' \<and>
      view s' = (view (w_store w))(re_id e \<mapsto> e\<lparr>re_status := st\<rparr>)" if "valid_utf8 st" for st
    using update_ready [OF assms(1,2,4) that] by metis
  show ?thesis
  proof (cases found)
    case None
    obtain s' where s': "ss_delete S (re_id e) (w_store w) = (None, s')" "inv s'" "ready s'"
      "view s' = (view (w_store w))(re_id e := None)"
      using delete_ready [OF assms(1,2)] by blast
    obtain s2 where s2: "ss_update_status S (re_id e) ''ERROR'' (w_store w) = (None, s2)" "inv s2" "ready s2"
      "view s2 = (view (w_store w))(re_id e \<mapsto> e\<lparr>re_status := ''ERROR''\<rparr>)"
      using upd [OF cluster_states_utf8 [of "''ERROR''"]] by (auto simp: cluster_states_def)
    show ?thesis
    proof (cases "re_status e = ''CREATING''")
      case True
      show ?thesis
        using None True assms s2
        by (cases "mc_cluster_create_timeout cf < time_sub ?t (re_created_at e)")
          (auto simp: poll_cluster_entry_def cluster_after_def removed_def case_prod_unfold effect_simps
            now_def fun_eq_iff)
    next
      case False
      show ?thesis
        using None False assms s'
        by (cases "re_status e = ''DELETED'' \<or> re_status e = ''DELETING''")
          (auto simp: poll_cluster_entry_def cluster_after_def removed_def case_prod_unfold effect_simps
            now_def fun_eq_iff)
    qed
  next
    case (Some c)
    let ?st = "map_cluster_status (ci_type c \<noteq> '''' \<or> ci_vms c \<noteq> '''') (re_created_at e)
      (mc_cluster_create_timeout cf) ?t"
    have "valid_utf8 ?st" by (rule cluster_states_utf8) (rule map_cluster_status_range)
    from upd [OF this] obtain s' where
      s': "ss_update_status S (re_id e) ?st (w_store w) = (None, s')" "inv s'" "ready s'"
        "view s' = (view (w_store w))(re_id e \<mapsto> e\<lparr>re_status := ?st\<rparr>)" by blast
    show ?thesis
    proof (cases "?st = re_status e")
      case True
      then show ?thesis
        using Some assms update_same [of "view (w_store w)" "re_id e" e ?st]
        by (auto simp: poll_cluster_entry_def cluster_after_def removed_def now_def Let_def)
    next
      case False
      then show ?thesis
        using Some assms s'
        by (auto simp: poll_cluster_entry_def cluster_after_def removed_def case_prod_unfold effect_simps
            now_def Let_def)
    qed
  qed
qed

text \<open>
  A pass over entries with distinct IDs, each handled by a step that changes only its own entry and
  lowers the gauge of the type by what it removed.
\<close>

lemma pass_over:
  fixes step :: "ResourceEntry \<Rightarrow> ('a, 'k, 'p) World \<times> Monitor \<Rightarrow> ('a, 'k, 'p) World \<times> Monitor"
  assumes step: "\<And>e w m w' m'. inv (w_store w) \<Longrightarrow> ready (w_store w) \<Longrightarrow>
      view (w_store w) (re_id e) = Some e \<Longrightarrow> step e (w, m) = (w', m') \<Longrightarrow>
      inv (w_store w') \<and> ready (w_store w') \<and>
        view (w_store w') = (view (w_store w))(re_id e := after e (sv_clock V (w_ticks w))) \<and>
        w_managed w' = (w_managed w)(ty := w_managed w ty - removed (after e (sv_clock V (w_ticks w))))"
    and ticks: "\<And>e st. w_ticks (fst st) \<le> w_ticks (fst (step e st))"
  shows "inv (w_store w) \<Longrightarrow> ready (w_store w) \<Longrightarrow> distinct (map re_id es) \<Longrightarrow>
    (\<forall>e \<in> set es. view (w_store w) (re_id e) = Some e) \<Longrightarrow> fold step es (w, m) = (w', m') \<Longrightarrow>
    inv (w_store w') \<and> ready (w_store w') \<and> w_ticks w \<le> w_ticks w' \<and>
    (\<forall>i. i \<notin> re_id ` set es \<longrightarrow> view (w_store w') i = view (w_store w) i) \<and>
    (\<forall>e \<in> set es. \<exists>t \<in> readings V w w'. view (w_store w') (re_id e) = after e t) \<and>
    w_managed w' = (w_managed w)(ty := w_managed w ty -
      sum_list (map (\<lambda>e. removed (view (w_store w') (re_id e))) es))"
proof (induction es arbitrary: w m)
  case Nil
  then show ?case by auto
next
  case (Cons e es)
  obtain w1 m1 where s: "step e (w, m) = (w1, m1)" by force
  have v: "view (w_store w) (re_id e) = Some e" using Cons.prems(4) by simp
  let ?t = "sv_clock V (w_ticks w)"
  from step [OF Cons.prems(1,2) v s] have
    t: "inv (w_store w1)" "ready (w_store w1)"
      "view (w_store w1) = (view (w_store w))(re_id e := after e ?t)"
      "w_managed w1 = (w_managed w)(ty := w_managed w ty - removed (after e ?t))" by blast+
  have le: "w_ticks w \<le> w_ticks w1" using ticks [of "(w, m)" e] s by simp
  have n: "re_id e \<notin> re_id ` set es" "distinct (map re_id es)" using Cons.prems(3) by auto
  have "\<forall>x \<in> set es. view (w_store w1) (re_id x) = Some x"
    using Cons.prems(4) n(1) t(3) by (auto simp: image_iff)
  moreover have "fold step es (w1, m1) = (w', m')" using Cons.prems(5) s by simp
  ultimately have ih: "inv (w_store w') \<and> ready (w_store w') \<and> w_ticks w1 \<le> w_ticks w' \<and>
    (\<forall>i. i \<notin> re_id ` set es \<longrightarrow> view (w_store w') i = view (w_store w1) i) \<and>
    (\<forall>e \<in> set es. \<exists>t \<in> readings V w1 w'. view (w_store w') (re_id e) = after e t) \<and>
    w_managed w' = (w_managed w1)(ty := w_managed w1 ty -
      sum_list (map (\<lambda>e. removed (view (w_store w') (re_id e))) es))"
    using Cons.IH [OF t(1,2) n(2)] by blast
  have sub: "readings V w1 w' \<subseteq> readings V w w'" and "?t \<in> readings V w w'"
    using le ih by (auto simp: readings_def)
  moreover have e: "view (w_store w') (re_id e) = after e ?t" using ih n(1) t(3) by simp
  moreover have "\<forall>x \<in> set es. \<exists>t \<in> readings V w w'. view (w_store w') (re_id x) = after x t"
    using ih sub by blast
  ultimately have "\<forall>x \<in> set (e # es). \<exists>t \<in> readings V w w'. view (w_store w') (re_id x) = after x t"
    by (metis set_ConsD)
  with ih t(3,4) e le show ?case by (auto simp: fun_eq_iff)
qed

text \<open>
  The same for a pass over the listing of a type, as one statement about the whole store.
\<close>

lemma typed_pass:
  fixes step :: "ResourceEntry \<Rightarrow> ('a, 'k, 'p) World \<times> Monitor \<Rightarrow> ('a, 'k, 'p) World \<times> Monitor"
  assumes step: "\<And>e w m w' m'. inv (w_store w) \<Longrightarrow> ready (w_store w) \<Longrightarrow>
      view (w_store w) (re_id e) = Some e \<Longrightarrow> step e (w, m) = (w', m') \<Longrightarrow>
      inv (w_store w') \<and> ready (w_store w') \<and>
        view (w_store w') = (view (w_store w))(re_id e := after e (sv_clock V (w_ticks w))) \<and>
        w_managed w' = (w_managed w)(ty := w_managed w ty - removed (after e (sv_clock V (w_ticks w))))"
    and ticks: "\<And>e st. w_ticks (fst st) \<le> w_ticks (fst (step e st))"
    and w: "inv (w_store w)" "ready (w_store w)"
    and es: "ss_list S ty (w_store w) = Inr es" and f: "fold step es (w, m) = (w', m')"
  shows "inv (w_store w') \<and> ready (w_store w') \<and> passed view V ty after w w'"
proof -
  have l: "distinct (map re_id es)" "set es = {e. view (w_store w) (re_id e) = Some e \<and> re_type e = ty}"
    using list_set [OF w(1) es] by blast+
  then have v: "\<forall>e \<in> set es. view (w_store w) (re_id e) = Some e" by auto
  have "inv (w_store w') \<and> ready (w_store w') \<and> w_ticks w \<le> w_ticks w' \<and>
    (\<forall>i. i \<notin> re_id ` set es \<longrightarrow> view (w_store w') i = view (w_store w) i) \<and>
    (\<forall>e \<in> set es. \<exists>t \<in> readings V w w'. view (w_store w') (re_id e) = after e t) \<and>
    w_managed w' = (w_managed w)(ty := w_managed w ty -
      sum_list (map (\<lambda>e. removed (view (w_store w') (re_id e))) es))"
    by (rule pass_over [OF _ ticks w l(1) v f]) (rule step)
  then have p: "inv (w_store w')" "ready (w_store w')" "w_ticks w \<le> w_ticks w'"
    "\<And>i. i \<notin> re_id ` set es \<Longrightarrow> view (w_store w') i = view (w_store w) i"
    "\<And>e. e \<in> set es \<Longrightarrow> \<exists>t \<in> readings V w w'. view (w_store w') (re_id e) = after e t"
    "w_managed w' = (w_managed w)(ty := w_managed w ty -
      sum_list (map (\<lambda>e. removed (view (w_store w') (re_id e))) es))"
    by blast+
  have ids: "re_id e = i" if "view (w_store w) i = Some e" for i e
    using view_id [OF w(1) that] by simp
  have mem: "i \<in> re_id ` set es \<longleftrightarrow> (\<exists>e. view (w_store w) i = Some e \<and> re_type e = ty)" for i
    unfolding l(2) image_def using ids by blast
  have ne: "readings V w w' \<noteq> {}" using p(3) by (auto simp: readings_def)
  have after: "\<exists>t \<in> readings V w w'. view (w_store w') i = after e t"
    if "view (w_store w) i = Some e" "re_type e = ty" for i e
    using p(5) [of e] ids [OF that(1)] that l(2) by auto
  have "synced ty after (readings V w w') (view (w_store w)) (view (w_store w'))"
    unfolding synced_def
  proof
    fix i
    show "case view (w_store w) i of None \<Rightarrow> view (w_store w') i = None
      | Some e \<Rightarrow> \<exists>t \<in> readings V w w'. view (w_store w') i = (if re_type e = ty then after e t else Some e)"
    proof (cases "\<exists>e. view (w_store w) i = Some e \<and> re_type e = ty")
      case True
      then show ?thesis using after by auto
    next
      case False
      then have "view (w_store w') i = view (w_store w) i" using p(4) mem by blast
      then show ?thesis using False ne by (cases "view (w_store w) i") auto
    qed
  qed
  moreover have "sum_list (map (\<lambda>e. removed (view (w_store w') (re_id e))) es) =
    int (card {i. view (w_store w) i \<noteq> None \<and> view (w_store w') i = None})"
    using v p(4) by (intro removed_card [OF l(1)]) auto
  moreover have "{i. view (w_store w) i \<noteq> None \<and> view (w_store w') i = None} =
      gone ty (view (w_store w)) (view (w_store w'))"
    using p(4) mem by (force simp: gone_def)
  ultimately show ?thesis using p(1-3,6) by (simp add: passed_def)
qed

lemma fold_kweb:
  "(\<And>e st. w_kweb (fst (step e st)) = w_kweb (fst st)) \<Longrightarrow> w_kweb (fst (fold step es st)) = w_kweb (fst st)"
  by (induction es arbitrary: st) auto

lemma reconcile_vms_pass:
  assumes w: "inv (w_store w)" "ready (w_store w)" and V: "sv_store V = S"
    and p: "reconcile_vms V cf cx kvs (w, m) = (ret, w', m')"
  shows "inv (w_store w') \<and> ready (w_store w') \<and> passed view V ''vm'' (vm_rule (Inr kvs)) w w' \<and>
    w_kweb w' = w_kweb w"
proof -
  let ?step = "\<lambda>e. poll_vm_entry V cf cx (vm_map kvs (re_kcli_name e)) e"
  obtain es where es: "ss_list S ''vm'' (w_store w) = Inr es" using list_ready [OF w] by auto
  have f: "fold ?step es (w, m) = (w', m')"
    using V p es by (simp add: reconcile_vms_def vm_map_def Let_def)
  have r: "vm_rule (Inr kvs) = (\<lambda>e t. vm_after (vm_map kvs (re_kcli_name e)) e t)"
    by (simp add: vm_rule_def fun_eq_iff)
  have "inv (w_store w') \<and> ready (w_store w') \<and> passed view V ''vm'' (vm_rule (Inr kvs)) w w'"
    unfolding r
  proof (rule typed_pass [OF _ _ w es f])
    show "w_ticks (fst st) \<le> w_ticks (fst (?step e st))" for e st by (rule poll_entry_ticks)
  qed (rule poll_vm_entry_store [OF _ _ V])
  moreover have "w_kweb w' = w_kweb w"
    using fold_kweb [of ?step es "(w, m)"] f by (simp add: effect_simps)
  ultimately show ?thesis by blast
qed

lemma poll_vms_pass:
  assumes "inv (w_store w)" "ready (w_store w)" "sv_store V = S"
    and k: "kc_list_vms (sv_kweb V) (w_kweb w) = (rv, k)"
    and p: "poll_vms V cf cx (w, m) = (ret, w', m')"
  shows "inv (w_store w') \<and> ready (w_store w') \<and> passed view V ''vm'' (vm_rule rv) w w' \<and> w_kweb w' = k"
proof (cases rv)
  case (Inl err)
  then have w': "w' = w\<lparr>w_kweb := k\<rparr>" using k p by (simp add: poll_vms_def on_kweb_def)
  have "vm_rule rv = (\<lambda>e t. Some e)" using Inl by (simp add: vm_rule_def fun_eq_iff)
  then show ?thesis using assms(1,2) same_passed by (simp add: w')
next
  case (Inr kvs)
  have r: "reconcile_vms V cf cx kvs (w\<lparr>w_kweb := k\<rparr>, m) = (ret, w', m')"
    using k p Inr by (simp add: poll_vms_def on_kweb_def)
  from reconcile_vms_pass [OF _ _ assms(3) r] assms(1,2) Inr show ?thesis
    using passed_kweb [where w = w and k = k and w' = w'] by simp
qed

lemma poll_clusters_pass:
  assumes "inv (w_store w)" "ready (w_store w)" "sv_store V = S"
    and k: "kc_list_clusters (sv_kweb V) (w_kweb w) = (rc, k)"
    and p: "poll_clusters V cf cx (w, m) = (w', m')"
  shows "inv (w_store w') \<and> ready (w_store w') \<and>
    passed view V ''cluster'' (cluster_rule (mc_cluster_create_timeout cf) rc) w w' \<and> w_kweb w' = k"
proof (cases rc)
  case (Inl err)
  then have w': "w' = w\<lparr>w_kweb := k\<rparr>" using k p by (simp add: poll_clusters_def on_kweb_def)
  have "cluster_rule (mc_cluster_create_timeout cf) rc = (\<lambda>e t. Some e)"
    using Inl by (simp add: cluster_rule_def fun_eq_iff)
  then show ?thesis using assms(1,2) same_passed by (simp add: w')
next
  case (Inr kcs)
  let ?w = "w\<lparr>w_kweb := k\<rparr>"
  let ?step = "\<lambda>e. poll_cluster_entry V cf cx (cluster_map kcs (re_kcli_name e)) e"
  obtain es where es: "ss_list S ''cluster'' (w_store ?w) = Inr es"
    using list_ready [OF assms(1,2)] by auto
  have f: "fold ?step es (?w, m) = (w', m')"
    using assms(3) k p es Inr by (simp add: poll_clusters_def on_kweb_def cluster_map_def Let_def)
  have r: "cluster_rule (mc_cluster_create_timeout cf) rc =
      (\<lambda>e t. cluster_after (mc_cluster_create_timeout cf) (cluster_map kcs (re_kcli_name e)) e t)"
    using Inr by (simp add: cluster_rule_def fun_eq_iff)
  have "inv (w_store w') \<and> ready (w_store w') \<and>
      passed view V ''cluster'' (cluster_rule (mc_cluster_create_timeout cf) rc) ?w w'"
    unfolding r
  proof (rule typed_pass [OF _ _ _ _ es f])
    show "w_ticks (fst st) \<le> w_ticks (fst (?step e st))" for e st by (rule poll_entry_ticks)
  qed (rule poll_cluster_entry_store [OF _ _ assms(3)], assumption+, use assms(1,2) in simp_all)
  moreover have "w_kweb w' = k"
    using fold_kweb [of ?step es "(?w, m)"] f by (simp add: effect_simps)
  ultimately show ?thesis using passed_kweb [where w = w and k = k and w' = w'] by blast
qed

text \<open>A whole poll.\<close>

lemma poll_store:
  assumes w: "inv (w_store w)" "ready (w_store w)" "sv_store V = S"
    and k1: "kc_list_profiles (sv_kweb V) (w_kweb w) = (rp, k1)"
    and k2: "kc_list_vms (sv_kweb V) k1 = (rv, k2)"
    and k3: "kc_list_clusters (sv_kweb V) k2 = (rc, k3)"
    and p: "poll V cf cx (w, m) = (w', m')"
  shows "inv (w_store w') \<and> ready (w_store w') \<and> w_kweb w' = k3 \<and>
    (\<forall>i. case view (w_store w) i of
           None \<Rightarrow> view (w_store w') i = None
         | Some e \<Rightarrow>
             (\<exists>t \<in> readings V w w'.
                view (w_store w') i = polled (mc_cluster_create_timeout cf) rv rc e t)) \<and>
    w_managed w' = (\<lambda>ty. w_managed w ty -
      (if ty = ''vm'' \<or> ty = ''cluster''
       then int (card (gone ty (view (w_store w)) (view (w_store w')))) else 0))"
proof -
  let ?d = "mc_cluster_create_timeout cf"
  obtain w1 m1 where p1: "refresh_profiles V (w, m) = (w1, m1)" by force
  have w1: "w1 = w\<lparr>w_kweb := k1\<rparr>"
    using p1 k1 by (auto simp: refresh_profiles_def on_kweb_def split: sum.splits)
  obtain ret w2 m2 where p2: "poll_vms V cf cx (w1, m1) = (ret, w2, m2)" by (metis prod_cases3)
  have "inv (w_store w1)" "ready (w_store w1)" "kc_list_vms (sv_kweb V) (w_kweb w1) = (rv, k2)"
    using w k2 by (simp_all add: w1)
  from poll_vms_pass [OF this(1,2) w(3) this(3) p2]
  have s2: "inv (w_store w2)" "ready (w_store w2)" "passed view V ''vm'' (vm_rule rv) w w2" "w_kweb w2 = k2"
    using passed_kweb [where w = w and k = k1 and w' = w2] unfolding w1 by blast+
  obtain w3 m3 where p3: "poll_clusters V cf cx (w2, m2) = (w3, m3)" by force
  have "kc_list_clusters (sv_kweb V) (w_kweb w2) = (rc, k3)" using k3 s2(4) by simp
  from poll_clusters_pass [OF s2(1,2) w(3) this p3]
  have s3: "inv (w_store w3)" "ready (w_store w3)" "passed view V ''cluster'' (cluster_rule ?d rc) w2 w3"
    "w_kweb w3 = k3" by blast+
  obtain w4 m4 where p4: "flush_pending V cf cx (w3, m3) = (w4, m4)" by force
  have q: "quiet w3 w4" using quiet_flush_pending [of "(w3, m3)" V cf cx] p4 by simp
  have w4: "w' = w4" using p p1 p2 p3 p4 by (cases ret) (simp add: poll_def)
  have st: "w_store w' = w_store w3" "w_kweb w' = k3" "w_managed w' = w_managed w3" "w_ticks w3 \<le> w_ticks w'"
    using q s3(4) by (simp_all add: quiet_def w4)
  have t: "w_ticks w \<le> w_ticks w2" "w_ticks w2 \<le> w_ticks w3"
    using s2(3) s3(3) by (simp_all add: passed_def)
  have y1: "synced ''vm'' (vm_rule rv) (readings V w w2) (view (w_store w)) (view (w_store w2))"
    and y2: "synced ''cluster'' (cluster_rule ?d rc) (readings V w2 w3) (view (w_store w2)) (view (w_store w'))"
    using s2(3) s3(3) by (simp_all add: passed_def st(1))
  have "readings V w w2 \<union> readings V w2 w3 \<subseteq> readings V w w'"
    using t st(4) by (intro Un_least readings_mono) auto
  then have "\<exists>t \<in> readings V w w'. view (w_store w') i = polled ?d rv rc e t"
    if "view (w_store w) i = Some e" for i e
    using synced_both [OF y1 y2 that] by blast
  moreover have "view (w_store w') i = None" if "view (w_store w) i = None" for i
    using that synced_None [OF y1] synced_None [OF y2] by blast
  moreover have "w_managed w' = (\<lambda>ty. w_managed w ty -
      (if ty = ''vm'' \<or> ty = ''cluster''
       then int (card (gone ty (view (w_store w)) (view (w_store w')))) else 0))"
    using s2(3) s3(3) gone_both [OF y1 y2] by (auto simp: passed_def st fun_eq_iff)
  ultimately show ?thesis using s3(1,2) st by (auto split: option.split)
qed

end

end
