(* ===== verification/Monitor_Props.thy ===== *)
theory Monitor_Props
  imports Poll Sample
begin

text \<open>
  The properties of the status mappings and of the monitor: what a poll leaves in the store, which
  events the debounce window lets through, which it merges and which it loses, and how orphans are
  counted.
\<close>

section \<open>The debounce window\<close>

text \<open>Whether the window of a resource is over at the n-th reading of the clock.\<close>

definition due :: "('s, 'k, 'p) Server \<Rightarrow> MonitorConfig \<Rightarrow> Monitor \<Rightarrow> string \<Rightarrow> nat \<Rightarrow> bool" where
  "due V cf m i n \<longleftrightarrow>
     (case map_of (mo_last_publish m) i of
        None \<Rightarrow> True
      | Some a \<Rightarrow> mc_debounce_window cf \<le> time_sub (sv_clock V n) a)"

lemma window_over_due: "fst (window_over V cf i m w) = due V cf m i (w_ticks w)"
  by (simp add: window_over_def due_def now_def split: option.split)

lemma due_mono:
  assumes "mono (sv_clock V)" "due V cf m i n" "n \<le> n'"
  shows "due V cf m i n'"
proof -
  have "sv_clock V n \<le> sv_clock V n'" using assms(1,3) by (rule monoD)
  then show ?thesis using assms(2) time_sub_mono order_trans
    by (fastforce simp: due_def split: option.splits)
qed

text \<open>The event that a status change stands for.\<close>

definition change :: "string \<Rightarrow> string \<Rightarrow> string \<Rightarrow> time \<Rightarrow> PendingEvent" where
  "change ty s msg t = \<lparr>pe_resource_type = ty, pe_status = s, pe_message = msg, pe_scheduled_at = t\<rparr>"

lemma publish_inside_window:
  assumes "\<not> due V cf m i (Suc (w_ticks w))"
  shows "publish_with_debounce V cf cx i ty s msg (w, m) =
    (w\<lparr>w_ticks := Suc (Suc (w_ticks w))\<rparr>,
     m\<lparr>mo_pending := map_set i (change ty s msg (sv_clock V (w_ticks w))) (mo_pending m),
       mo_status_changes := Suc (mo_status_changes m)\<rparr>)"
  using assms
  by (auto simp: publish_with_debounce_def window_over_def due_def now_def change_def Let_def
      split: option.splits)

lemma publish_outside_window:
  assumes "due V cf m i (Suc (w_ticks w))"
  obtains n where "Suc (w_ticks w) \<le> n" "n \<le> Suc (Suc (w_ticks w))"
    "publish_with_debounce V cf cx i ty s msg (w, m) =
      (publish_event V cx i (change ty s msg (sv_clock V (w_ticks w))) (w\<lparr>w_ticks := Suc n\<rparr>),
       m\<lparr>mo_pending := map_unset i (map_set i (change ty s msg (sv_clock V (w_ticks w))) (mo_pending m)),
         mo_last_publish := map_set i (sv_clock V n) (mo_last_publish m),
         mo_status_changes := Suc (mo_status_changes m)\<rparr>)"
proof (cases "map_of (mo_last_publish m) i")
  case None
  then show thesis
    by (intro that [of "Suc (w_ticks w)"])
      (simp_all add: publish_with_debounce_def window_over_def extract_pending_def now_def change_def Let_def)
next
  case (Some a)
  with assms show thesis
    by (intro that [of "Suc (Suc (w_ticks w))"])
      (simp_all add: publish_with_debounce_def window_over_def extract_pending_def due_def now_def
        change_def Let_def)
qed

text \<open>A monitor that has just published for the VM of the sample, with a window of 100 days.\<close>

definition demo_cf :: MonitorConfig where
  "demo_cf =
     \<lparr>mc_poll_interval = 30, mc_debounce_window = 100 * ns_per_day, mc_cluster_create_timeout = minute\<rparr>"

definition demo_mon :: Monitor where
  "demo_mon = new_monitor\<lparr>mo_last_publish := [(''vm-1'', 0)]\<rparr>"

lemma demo_not_due: "n < 100 \<Longrightarrow> \<not> due demo_server demo_cf demo_mon ''vm-1'' n"
  by (auto simp: due_def demo_server_def demo_cf_def demo_mon_def time_sub_def ns_per_day_def
      min_int64_def max_int64_def)

text \<open>
  C8: A status change is counted and is either published at once, which restarts the window of the
  resource and clears what was waiting for it, when the window since its last publication is over;
  or it replaces what was waiting for it, nothing is published and the window keeps running. The
  store, kweb and the other resources are not touched.
\<close>

theorem debounce_correct:
  assumes "publish_with_debounce V cf cx i ty s msg (w, m) = (w', m')"
  shows "w_store w' = w_store w \<and>
    w_kweb w' = w_kweb w \<and>
    w_managed w' = w_managed w \<and>
    mo_status_changes m' = Suc (mo_status_changes m) \<and>
    (if due V cf m i (Suc (w_ticks w)) then
      (\<exists>n > w_ticks w.
         w_pub w' = w_pub (publish_event V cx i (change ty s msg (sv_clock V (w_ticks w))) (w\<lparr>w_ticks := Suc n\<rparr>)) \<and>
         map_of (mo_pending m') = (map_of (mo_pending m))(i := None) \<and>
         map_of (mo_last_publish m') = (map_of (mo_last_publish m))(i \<mapsto> sv_clock V n))
      else
        w_pub w' = w_pub w \<and>
        map_of (mo_pending m') = (map_of (mo_pending m))(i \<mapsto> change ty s msg (sv_clock V (w_ticks w))) \<and>
        mo_last_publish m' = mo_last_publish m)"
proof (intro conjI)
  show "w_store w' = w_store w" "w_kweb w' = w_kweb w" "w_managed w' = w_managed w"
    using publish_with_debounce_effect [of V cf cx i ty s msg "(w, m)"] assms by simp_all
  show "mo_status_changes m' = Suc (mo_status_changes m)"
    using assms by (auto simp: publish_with_debounce_def extract_pending_def case_prod_unfold Let_def
        split: if_splits option.splits)
  let ?pe = "change ty s msg (sv_clock V (w_ticks w))"
  show "if due V cf m i (Suc (w_ticks w)) then
      (\<exists>n > w_ticks w.
         w_pub w' = w_pub (publish_event V cx i ?pe (w\<lparr>w_ticks := Suc n\<rparr>)) \<and>
         map_of (mo_pending m') = (map_of (mo_pending m))(i := None) \<and>
         map_of (mo_last_publish m') = (map_of (mo_last_publish m))(i \<mapsto> sv_clock V n))
      else
        w_pub w' = w_pub w \<and> map_of (mo_pending m') = (map_of (mo_pending m))(i \<mapsto> ?pe) \<and>
        mo_last_publish m' = mo_last_publish m"
  proof (cases "due V cf m i (Suc (w_ticks w))")
    case True
    obtain n where n: "Suc (w_ticks w) \<le> n" and
      eq: "publish_with_debounce V cf cx i ty s msg (w, m) =
        (publish_event V cx i ?pe (w\<lparr>w_ticks := Suc n\<rparr>),
         m\<lparr>mo_pending := map_unset i (map_set i ?pe (mo_pending m)),
           mo_last_publish := map_set i (sv_clock V n) (mo_last_publish m),
           mo_status_changes := Suc (mo_status_changes m)\<rparr>)"
      by (rule publish_outside_window [OF True])
    have w': "w' = publish_event V cx i ?pe (w\<lparr>w_ticks := Suc n\<rparr>)"
      and m': "m' = m\<lparr>mo_pending := map_unset i (map_set i ?pe (mo_pending m)),
           mo_last_publish := map_set i (sv_clock V n) (mo_last_publish m),
           mo_status_changes := Suc (mo_status_changes m)\<rparr>"
      using assms eq by simp_all
    have "w_ticks w < n" using n by simp
    with True show ?thesis unfolding w' m' by auto
  next
    case False
    with assms publish_inside_window [OF False] show ?thesis by auto
  qed
qed

theorem debounce_correct_witness:
  "w_pub (fst (publish_with_debounce demo_server demo_cf demo_ctx ''vm-1'' ''vm'' ''RUNNING'' ''up''
     (demo_world, demo_mon))) = w_pub demo_world"
proof -
  obtain w' m' where p: "publish_with_debounce demo_server demo_cf demo_ctx ''vm-1'' ''vm'' ''RUNNING'' ''up''
     (demo_world, demo_mon) = (w', m')" by force
  show ?thesis using debounce_correct [OF p] demo_not_due [of 1] by (simp add: p)
qed

text \<open>
  A burst of status changes of one resource inside its window is merged: nothing is published,
  the last change is the one that waits, each change is counted, and the window is not prolonged.
\<close>

theorem debounce_coalesces:
  assumes "cs \<noteq> []" and "\<And>n. n \<le> w_ticks w + 2 * length cs \<Longrightarrow> \<not> due V cf m i n"
    and "fold (\<lambda>(s, msg). publish_with_debounce V cf cx i ty s msg) cs (w, m) = (w', m')"
  shows "w_pub w' = w_pub w \<and>
    (\<exists>t. map_of (mo_pending m') i = Some (change ty (fst (last cs)) (snd (last cs)) t)) \<and>
    mo_last_publish m' = mo_last_publish m \<and>
    mo_status_changes m' = mo_status_changes m + length cs"
proof -
  have "w_pub w' = w_pub w \<and> mo_last_publish m' = mo_last_publish m \<and>
      mo_status_changes m' = mo_status_changes m + length cs \<and>
      (cs \<noteq> [] \<longrightarrow> (\<exists>t. map_of (mo_pending m') i = Some (change ty (fst (last cs)) (snd (last cs)) t)))"
    using assms(2,3)
  proof (induction cs arbitrary: w m)
    case (Cons c cs)
    let ?w = "w\<lparr>w_ticks := Suc (Suc (w_ticks w))\<rparr>"
    let ?m = "m\<lparr>mo_pending := map_set i (change ty (fst c) (snd c) (sv_clock V (w_ticks w))) (mo_pending m),
       mo_status_changes := Suc (mo_status_changes m)\<rparr>"
    have "\<not> due V cf m i (Suc (w_ticks w))" using Cons.prems(1) by simp
    from publish_inside_window [OF this]
    have f: "fold (\<lambda>(s, msg). publish_with_debounce V cf cx i ty s msg) cs (?w, ?m) = (w', m')"
      using Cons.prems(2) by (cases c) simp
    have "\<not> due V cf ?m i n" if "n \<le> w_ticks ?w + 2 * length cs" for n
      using Cons.prems(1) [of n] that by (simp add: due_def)
    from Cons.IH [OF this f] show ?case using f by (cases cs) auto
  qed simp
  with assms(1) show ?thesis by simp
qed

theorem debounce_coalesces_witness:
  "w_pub (fst (fold (\<lambda>(s, msg). publish_with_debounce demo_server demo_cf demo_ctx ''vm-1'' ''vm'' s msg)
     [(''STOPPED'', ''down''), (''RUNNING'', ''up'')] (demo_world, demo_mon))) = w_pub demo_world"
proof -
  let ?cs = "[(''STOPPED'', ''down''), (''RUNNING'', ''up'')]"
  obtain w' m' where p: "fold (\<lambda>(s, msg). publish_with_debounce demo_server demo_cf demo_ctx ''vm-1'' ''vm'' s msg)
     ?cs (demo_world, demo_mon) = (w', m')" by force
  have "w_pub w' = w_pub demo_world"
    by (rule debounce_coalesces [OF _ _ p, THEN conjunct1]) (use demo_not_due in auto)
  then show ?thesis by (simp only: p fst_conv)
qed

text \<open>
  C36: A VM that kweb no longer reports is removed from the store, but when its window is still
  running the DELETED event is not published and does not wait either: it is dropped.
\<close>

theorem deleted_event_lost:
  assumes "live_bolt B" "sv_store V = store_ops B" "live_inv B (w_store w)" "store_ready B (w_store w)"
    and "store_view B (w_store w) (re_id e) = Some e"
    and "re_status e \<noteq> ''DELETED''" "re_status e \<noteq> ''DELETING''"
    and "\<not> due V cf m (re_id e) (Suc (w_ticks w))"
    and p: "poll_vm_entry V cf cx None e (w, m) = (w', m')"
  shows "store_view B (w_store w') (re_id e) = None \<and>
    w_pub w' = w_pub w \<and>
    map_of (mo_pending m') (re_id e) = None"
proof (intro conjI)
  show "store_view B (w_store w') (re_id e) = None"
    using live_store.poll_vm_entry_store [OF live_bolt.is_live_store [OF assms(1)] assms(3,4,2,5) p] assms(6,7)
    by (simp add: vm_after_def)
  show "w_pub w' = w_pub w" and "map_of (mo_pending m') (re_id e) = None"
    using p assms(6,7) publish_inside_window [OF assms(8)]
    by (auto simp: poll_vm_entry_def forget_def effect_simps)
qed

lemma demo_world1_ticks: "w_ticks demo_world1 = 1"
  unfolding demo_world1_def by code_simp

theorem deleted_event_lost_witness:
  "w_pub (fst (poll_vm_entry demo_server demo_cf demo_ctx None demo_entry (demo_world1, demo_mon))) =
     w_pub demo_world1"
proof -
  obtain w' m' where p: "poll_vm_entry demo_server demo_cf demo_ctx None demo_entry (demo_world1, demo_mon) = (w', m')"
    by force
  have e: "re_id demo_entry = ''vm-1''" "re_status demo_entry = ''PROVISIONING''" by (simp_all add: demo_entry_def)
  have "w_pub w' = w_pub demo_world1"
    by (rule deleted_event_lost [OF live_kv.live_bolt_axioms demo_store(1) demo_world1_store(3,2) _ _ _ _ p,
          THEN conjunct2, THEN conjunct1])
      (use demo_not_due [of "Suc 1"] in \<open>simp_all add: e demo_world1_store(4) demo_world1_ticks\<close>)
  then show ?thesis by (simp add: p)
qed

section \<open>Flushing\<close>

lemma extract_pending_some:
  assumes "map_of (mo_pending m) i = Some pe"
  shows "extract_pending V i (w, m) =
    (Some pe, w\<lparr>w_ticks := Suc (w_ticks w)\<rparr>,
     m\<lparr>mo_pending := map_unset i (mo_pending m),
       mo_last_publish := map_set i (sv_clock V (w_ticks w)) (mo_last_publish m)\<rparr>)"
  using assms by (simp add: extract_pending_def now_def)

lemma take_due_skip:
  assumes "\<not> (due V cf m j (w_ticks w) \<and> map_of (mo_pending m) j \<noteq> None)"
  shows "take_due V cf (j # ids) (w, m) = take_due V cf ids (snd (window_over V cf j m w), m)"
  using assms window_over_due [of V cf j m w]
  by (auto simp: extract_pending_def case_prod_unfold split: option.splits)

lemma take_due_take:
  fixes w :: "('s, 'k, 'p) World"
  assumes "due V cf m j (w_ticks w)" "map_of (mo_pending m) j = Some pe"
  obtains w1 :: "('s, 'k, 'p) World" and m1 where "w_ticks w \<le> w_ticks w1"
    "map_of (mo_pending m1) = (map_of (mo_pending m))(j := None)"
    "\<forall>i n. i \<noteq> j \<longrightarrow> due V cf m1 i n = due V cf m i n"
    "take_due V cf (j # ids) (w, m) =
       (case take_due V cf ids (w1, m1) of (items, st) \<Rightarrow> ((j, pe) # items, st))"
proof -
  let ?w = "snd (window_over V cf j m w)"
  have "w_ticks w \<le> w_ticks ?w" using quiet_window_over [of w V cf j m] by (simp add: quiet_def)
  moreover have "take_due V cf (j # ids) (w, m) =
      (case take_due V cf ids (snd (extract_pending V j (?w, m))) of (items, st) \<Rightarrow> ((j, pe) # items, st))"
    using assms window_over_due [of V cf j m w] extract_pending_some [OF assms(2), of V ?w]
    by (simp add: case_prod_unfold)
  ultimately show thesis
    by (intro that [of "?w\<lparr>w_ticks := Suc (w_ticks ?w)\<rparr>"
          "m\<lparr>mo_pending := map_unset j (mo_pending m),
             mo_last_publish := map_set j (sv_clock V (w_ticks ?w)) (mo_last_publish m)\<rparr>"])
      (simp_all add: extract_pending_some [OF assms(2)] due_def)
qed

text \<open>What a scan of \<open>flushPending\<close> over the IDs \<open>ids\<close> takes out.\<close>

definition taken ::
  "('s, 'k, 'p) Server \<Rightarrow> MonitorConfig \<Rightarrow> string list \<Rightarrow> nat \<Rightarrow> nat \<Rightarrow> Monitor \<Rightarrow>
   (string \<times> PendingEvent) list \<Rightarrow> Monitor \<Rightarrow> bool" where
  "taken V cf ids n n' m items m' \<longleftrightarrow>
     n \<le> n' \<and> distinct (map fst items) \<and> fst ` set items \<subseteq> set ids \<and>
     (\<forall>(i, pe) \<in> set items. map_of (mo_pending m) i = Some pe \<and> due V cf m i n') \<and>
     {i \<in> set ids. map_of (mo_pending m) i \<noteq> None \<and> due V cf m i n} \<subseteq> fst ` set items \<and>
     map_of (mo_pending m') = (\<lambda>i. if i \<in> fst ` set items then None else map_of (mo_pending m) i)"

lemma take_due_taken:
  fixes w :: "('s, 'k, 'p) World"
  assumes "mono (sv_clock V)"
  shows "distinct ids \<Longrightarrow> take_due V cf ids (w, m) = (items, w', m') \<Longrightarrow>
    taken V cf ids (w_ticks w) (w_ticks w') m items m'"
proof (induction ids arbitrary: w m items)
  case Nil
  then show ?case by (simp add: taken_def)
next
  case (Cons j ids)
  show ?case
  proof (cases "due V cf m j (w_ticks w) \<and> map_of (mo_pending m) j \<noteq> None")
    case True
    then obtain pe where d: "due V cf m j (w_ticks w)" and pe: "map_of (mo_pending m) j = Some pe" by auto
    obtain w1 m1 where 1: "w_ticks w \<le> w_ticks (w1 :: ('s, 'k, 'p) World)"
      "map_of (mo_pending m1) = (map_of (mo_pending m))(j := None)"
      "\<forall>i n. i \<noteq> j \<longrightarrow> due V cf m1 i n = due V cf m i n"
      "take_due V cf (j # ids) (w, m) =
         (case take_due V cf ids (w1, m1) of (items, st) \<Rightarrow> ((j, pe) # items, st))"
      by (rule take_due_take [OF d pe, where ids = ids])
    obtain items' st where t: "take_due V cf ids (w1, m1) = (items', st)"
      by (rule that [OF prod.collapse [symmetric]])
    then have st: "st = (w', m')" and items: "items = (j, pe) # items'" using Cons.prems(2) 1(4) by simp_all
    have ih: "taken V cf ids (w_ticks w1) (w_ticks w') m1 items' m'"
      using Cons.IH [of w1 m1 items'] Cons.prems(1) t st by simp
    have le: "w_ticks w \<le> w_ticks w'" using ih 1(1) by (simp add: taken_def)
    have j: "j \<notin> set ids" "j \<notin> fst ` set items'" using ih Cons.prems(1) by (auto simp: taken_def)
    have k: "i \<noteq> j" if "(i, q) \<in> set items'" for i q using j(2) that by force
    have "due V cf m j (w_ticks w')" by (rule due_mono [OF assms d le])
    then have all: "\<forall>(i, q) \<in> set items. map_of (mo_pending m) i = Some q \<and> due V cf m i (w_ticks w')"
      using ih 1(2,3) k pe unfolding items taken_def by (auto split: if_splits)
    have "i \<in> fst ` set items" if "i \<in> set (j # ids)" "map_of (mo_pending m) i \<noteq> None"
      "due V cf m i (w_ticks w)" for i
    proof (cases "i = j")
      case False
      then have "due V cf m1 i (w_ticks w1)" using due_mono [OF assms that(3) 1(1)] 1(3) by simp
      then show ?thesis using False that ih 1(2) unfolding items taken_def by auto
    qed (simp add: items)
    moreover have "map_of (mo_pending m') =
        (\<lambda>i. if i \<in> fst ` set items then None else map_of (mo_pending m) i)"
      using ih 1(2) unfolding items taken_def by (auto simp: fun_eq_iff)
    ultimately show ?thesis using ih le j all unfolding taken_def items by auto
  next
    case False
    let ?w = "snd (window_over V cf j m w)"
    have le: "w_ticks w \<le> w_ticks ?w" using quiet_window_over [of w V cf j m] by (simp add: quiet_def)
    have "take_due V cf ids (?w, m) = (items, w', m')"
      using Cons.prems(2) take_due_skip [OF False] by simp
    then have ih: "taken V cf ids (w_ticks ?w) (w_ticks w') m items m'" using Cons by simp
    have "i \<in> fst ` set items" if "i \<in> set (j # ids)" "map_of (mo_pending m) i \<noteq> None"
      "due V cf m i (w_ticks w)" for i
      using that False ih due_mono [OF assms that(3) le] unfolding taken_def by auto
    then show ?thesis using ih le unfolding taken_def by auto
  qed
qed

text \<open>
  C23: \<open>flushPending\<close> takes out each waiting event at most once, exactly as it waits, and only for
  resources whose window is over by then; it takes out every event whose window is over when it
  starts; what it does not take out keeps waiting.
\<close>

theorem flush_takes_due:
  assumes "mono (sv_clock V)" "distinct ids"
    and "take_due V cf ids (w, m) = (items, w', m')"
  shows "distinct (map fst items) \<and>
    set items \<subseteq> {(i, pe). map_of (mo_pending m) i = Some pe \<and> due V cf m i (w_ticks w')} \<and>
    {i \<in> set ids. map_of (mo_pending m) i \<noteq> None \<and> due V cf m i (w_ticks w)} \<subseteq> fst ` set items \<and>
    map_of (mo_pending m') = (\<lambda>i. if i \<in> fst ` set items then None else map_of (mo_pending m) i)"
  using take_due_taken [OF assms] unfolding taken_def by auto

theorem flush_takes_due_witness:
  "''vm-1'' \<in> fst ` set (fst (take_due demo_server demo_cf [''vm-1'']
     (demo_world, new_monitor\<lparr>mo_pending := [(''vm-1'', change ''vm'' ''RUNNING'' ''up'' 0)]\<rparr>)))"
proof -
  let ?m = "new_monitor\<lparr>mo_pending := [(''vm-1'', change ''vm'' ''RUNNING'' ''up'' 0)]\<rparr>"
  obtain items w' m' where t: "take_due demo_server demo_cf [''vm-1''] (demo_world, ?m) = (items, w', m')"
    by (metis prod_cases3)
  have "mono (sv_clock demo_server)" by (auto intro!: monoI simp: demo_server_def ns_per_day_def)
  from flush_takes_due [OF this _ t]
  have "{i \<in> set [''vm-1'']. map_of (mo_pending ?m) i \<noteq> None \<and> due demo_server demo_cf ?m i (w_ticks demo_world)}
      \<subseteq> fst ` set items" by simp
  then have "''vm-1'' \<in> fst ` set items" by (auto simp: new_monitor_def due_def)
  then show ?thesis by (simp only: t fst_conv)
qed

section \<open>Orphans\<close>

lemma see_orphans:
  "set (mo_seen_orphans (fold see_orphan names m)) = set (mo_seen_orphans m) \<union> set names \<and>
   mo_orphan_counter (fold see_orphan names m) =
     mo_orphan_counter m + card (set names - set (mo_seen_orphans m))"
proof (induction names arbitrary: m)
  case (Cons n names)
  show ?case
  proof (cases "n \<in> set (mo_seen_orphans m)")
    case True
    then have "see_orphan n m = m" by (simp add: see_orphan_def)
    moreover have "set (n # names) - set (mo_seen_orphans m) = set names - set (mo_seen_orphans m)"
      using True by auto
    ultimately show ?thesis using Cons.IH [of m] True by auto
  next
    case False
    let ?m = "see_orphan n m"
    have m: "set (mo_seen_orphans ?m) = insert n (set (mo_seen_orphans m))"
      "mo_orphan_counter ?m = Suc (mo_orphan_counter m)"
      using False by (simp_all add: see_orphan_def)
    have "set (n # names) - set (mo_seen_orphans m) =
        insert n (set names - insert n (set (mo_seen_orphans m)))" using False by auto
    then have "card (set (n # names) - set (mo_seen_orphans m)) =
        Suc (card (set names - insert n (set (mo_seen_orphans m))))" by simp
    then show ?thesis using Cons.IH [of ?m] m by auto
  qed
qed simp

text \<open>The names of kweb's VMs that look like DCM's and that the store does not know.\<close>

definition orphans :: "ResourceEntry list \<Rightarrow> VMInfo list \<Rightarrow> string set" where
  "orphans es vms = {vi_name v | v. v \<in> set vms \<and> orphan es v}"

text \<open>
  After an orphan scan the seen orphans are the present ones, and the counter has grown by
  those that the scan before had not seen: an orphan counts once while it stays, and again when it
  comes back. Without a listing nothing changes.
\<close>

theorem orphans_counted_once:
  "set (mo_seen_orphans (detect_vm_orphans (Some vms) es m)) = orphans es vms \<and>
   mo_orphan_counter (detect_vm_orphans (Some vms) es m) =
     mo_orphan_counter m + card (orphans es vms - set (mo_seen_orphans m)) \<and>
   detect_vm_orphans None es m = m"
proof -
  let ?names = "map vi_name (filter (orphan es) vms)"
  have o: "orphans es vms = set ?names" by (auto simp: orphans_def)
  show ?thesis
    using see_orphans [of ?names m] by (auto simp: detect_vm_orphans_def Let_def o)
qed

section \<open>The store after a poll\<close>

text \<open>
  C4: A poll brings the store in line with kweb: each stored VM and cluster gets the status that
  kweb's listing and a reading of the clock during the poll give it, or is removed when kweb no
  longer lists it and it is not being deleted (nor, for a cluster, created); a listing that fails
  changes nothing of its type; nothing is added. The gauge of each type falls by what was removed.
\<close>

theorem poll_syncs_store:
  assumes "live_bolt B" "sv_store V = store_ops B" "live_inv B (w_store w)" "store_ready B (w_store w)"
    and "kc_list_profiles (sv_kweb V) (w_kweb w) = (rp, k1)"
    and "kc_list_vms (sv_kweb V) k1 = (rv, k2)"
    and "kc_list_clusters (sv_kweb V) k2 = (rc, k3)"
    and "poll V cf cx (w, m) = (w', m')"
  shows "live_inv B (w_store w') \<and> store_ready B (w_store w') \<and> w_kweb w' = k3 \<and>
    (\<forall>i. case store_view B (w_store w) i of
        None \<Rightarrow> store_view B (w_store w') i = None
      | Some e \<Rightarrow>
          (\<exists>t \<in> readings V w w'.
             store_view B (w_store w') i = polled (mc_cluster_create_timeout cf) rv rc e t)) \<and>
    w_managed w' = (\<lambda>ty. w_managed w ty -
      (if ty = ''vm'' \<or> ty = ''cluster''
       then int (card (gone ty (store_view B (w_store w)) (store_view B (w_store w')))) else 0))"
  by (rule live_store.poll_store [OF live_bolt.is_live_store [OF assms(1)] assms(3,4,2,5-8)])

theorem poll_syncs_store_witness:
  "live_inv kv_bolt (w_store (fst (poll demo_server demo_cf demo_ctx (demo_world1, demo_mon))))"
proof -
  obtain rp k1 where 1: "kc_list_profiles (sv_kweb demo_server) (w_kweb demo_world1) = (rp, k1)" by force
  obtain rv k2 where 2: "kc_list_vms (sv_kweb demo_server) k1 = (rv, k2)" by force
  obtain rc k3 where 3: "kc_list_clusters (sv_kweb demo_server) k2 = (rc, k3)" by force
  obtain w' m' where p: "poll demo_server demo_cf demo_ctx (demo_world1, demo_mon) = (w', m')" by force
  show ?thesis
    using poll_syncs_store [OF live_kv.live_bolt_axioms demo_store(1) demo_world1_store(3,2) 1 2 3 p]
    by (simp add: p)
qed

section \<open>The status mappings\<close>

text \<open>
  The mappings give canonical states only. While kweb's report stays the same, time changes
  a VM's status at most once, from PROVISIONING to STOPPED, and a cluster's at most once, from
  CREATING to ERROR.
\<close>

theorem statuses_settle:
  assumes "t \<le> t'"
  shows "map_vm_status s c t \<in> vm_states \<and> map_cluster_status h c d t \<in> cluster_states \<and>
    (map_vm_status s c t' = map_vm_status s c t \<or>
      map_vm_status s c t = ''PROVISIONING'' \<and> map_vm_status s c t' = ''STOPPED'') \<and>
    (map_cluster_status h c d t' = map_cluster_status h c d t \<or>
      map_cluster_status h c d t = ''CREATING'' \<and> map_cluster_status h c d t' = ''ERROR'')"
proof (intro conjI)
  show "map_vm_status s c t' = map_vm_status s c t \<or>
      map_vm_status s c t = ''PROVISIONING'' \<and> map_vm_status s c t' = ''STOPPED''"
  proof (cases "map_vm_status s c t = ''PROVISIONING''")
    case True
    then have "map_vm_status s c t' = ''PROVISIONING'' \<or> map_vm_status s c t' = ''STOPPED''"
      unfolding map_vm_status_transient map_vm_status_stopped by auto
    with True show ?thesis by auto
  qed (use map_vm_status_settles [OF assms] in simp)
  show "map_cluster_status h c d t' = map_cluster_status h c d t \<or>
      map_cluster_status h c d t = ''CREATING'' \<and> map_cluster_status h c d t' = ''ERROR''"
    using time_sub_mono [OF assms, of c] by (auto simp: map_cluster_status_def)
qed (rule map_vm_status_range map_cluster_status_range)+

theorem statuses_settle_witness:
  "map_vm_status ''Down'' 0 ns_per_day = map_vm_status ''Down'' 0 0 \<or>
   map_vm_status ''Down'' 0 0 = ''PROVISIONING'' \<and> map_vm_status ''Down'' 0 ns_per_day = ''STOPPED''"
proof -
  have "0 \<le> ns_per_day" by (simp add: ns_per_day_def)
  from statuses_settle [OF this] show ?thesis by blast
qed

section \<open>A listing that is too old\<close>

text \<open>
  C40: A poll asks kweb for its VMs before it asks the store. A VM that is created between the two
  is in the store but not in the listing, and the poll takes it for lost: the entry of a create
  that was answered with 201 is removed, although no one asked kweb to delete the VM; the gauge is
  what it was before the create, and reading the ID is a 404.
\<close>

theorem created_vm_lost:
  assumes "live_bolt B" "sv_store V = store_ops B" "live_inv B (w_store w0)" "store_ready B (w_store w0)"
    and "find_existing V client_id w0 = None" "entry_ok (new_vm_entry V client_id spec w0)"
    and "create_vm V client_id spec w0 = (CreateVM201 vm, w1)"
    and "vm_map listing (re_kcli_name (new_vm_entry V client_id spec w0)) = None"
    and "reconcile_vms V cf cx listing (w1, m) = (ret, w2, m2)"
  shows "\<exists>i. vm_id vm = Some i \<and> store_view B (w_store w1) i \<noteq> None \<and> store_view B (w_store w2) i = None \<and>
    w_kweb w2 = w_kweb w1 \<and>
    get_vm V i w2 = (GetVM404 (problem_error 404 (''VM '' @ quoted i @ '' not found'')), w2)"
proof -
  note ls = live_bolt.is_live_store [OF assms(1)] and ss = live_bolt.is_live_state_store [OF assms(1)]
  let ?e = "new_vm_entry V client_id spec w0"
  note c = state_store.create_vm_new [OF ss assms(3,2,5-7)]
  have v1: "vm_id vm = Some (re_id ?e)" "store_view B (w_store w1) (re_id ?e) = Some ?e" using c(4) by simp_all
  have "live_inv B (w_store w1)" "store_ready B (w_store w1)" using c(1,2) assms(4) by simp_all
  from live_store.reconcile_vms_pass [OF ls this assms(2,9)]
  have p: "live_inv B (w_store w2)" "store_ready B (w_store w2)" "w_kweb w2 = w_kweb w1"
    "synced ''vm'' (vm_rule (Inr listing)) (readings V w1 w2) (store_view B (w_store w1)) (store_view B (w_store w2))"
    by (simp_all add: passed_def)
  from synced_Some [OF p(4) v1(2)] have "store_view B (w_store w2) (re_id ?e) = None"
    using assms(8) by (auto simp: vm_rule_def vm_after_def new_vm_entry_def)
  moreover from this have "get_vm V (re_id ?e) w2 =
      (GetVM404 (problem_error 404 (''VM '' @ quoted (re_id ?e) @ '' not found'')), w2)"
    using state_store.get_vm_view [OF ss p(1,2) assms(2), of "re_id ?e"] by simp
  ultimately show ?thesis using v1 p(3) by auto
qed

theorem created_vm_lost_witness:
  "store_view kv_bolt (w_store (fst (snd (reconcile_vms demo_server demo_cf demo_ctx (Some []) (demo_world1, demo_mon)))))
     ''vm-1'' = None"
proof -
  obtain ret w2 m2 where r: "reconcile_vms demo_server demo_cf demo_ctx (Some []) (demo_world1, demo_mon) = (ret, w2, m2)"
    by (metis prod_cases3)
  have f: "find_existing demo_server (Some ''vm-1'') demo_world = None" by code_simp
  have c: "create_vm demo_server (Some ''vm-1'') demo_vm_spec demo_world =
      (CreateVM201 \<lparr>vm_id = Some ''vm-1'', vm_ip = None, vm_path = Some ''vms/vm-1'',
       vm_spec = demo_vm_spec, vm_ssh_user = None, vm_status = Some ''PROVISIONING''\<rparr>, demo_world1)"
    unfolding demo_world1_def using demo_create by (metis prod.collapse)
  have "vm_map (Some []) (re_kcli_name (new_vm_entry demo_server (Some ''vm-1'') demo_vm_spec demo_world)) = None"
    by (simp add: vm_map_def)
  from created_vm_lost [OF live_kv.live_bolt_axioms demo_store(1) _ _ f demo_entry_ok c this r] kv_empty_live kv_empty_ready
  show ?thesis by (auto simp: r)
qed

end
