(* ===== verification/Http.thy ===== *)
theory Http
  imports World
begin

text \<open>
  Requests, what is written to a connection, and the middleware of internal/handlers and
  internal/metrics.

  An exchange is the writing side of one request (\<open>http.ResponseWriter\<close>): the Content-Type header
  as it is set at the moment, the response once its header is out, the last status given to
  \<open>WriteHeader\<close> (what \<open>statusWriter\<close> of internal/metrics keeps), and the pattern of the route that
  chi recorded in the request's context. A handler takes the request, the exchange and a state,
  and reports whether it panicked.
\<close>

record Request =
  rq_method :: string
  rq_path :: string
  rq_query :: "(string \<times> string list) list"
  rq_body :: bytes
  rq_body_limit :: "int option"     \<comment> \<open>set by \<open>http.MaxBytesReader\<close>\<close>
  rq_chi_id :: string               \<comment> \<open>\<open>middleware.GetReqID\<close>\<close>
  rq_req_id :: "string option"      \<comment> \<open>the context value under \<open>reqIDKey\<close>\<close>

record Response =
  rs_code :: int
  rs_type :: string
  rs_body :: bytes

record Exchange =
  ex_type :: string
  ex_out :: "Response option"
  ex_seen :: int
  ex_route :: string

datatype outcome = Finished | Panicked

type_synonym 'w handler = "Request \<Rightarrow> Exchange \<times> 'w \<Rightarrow> outcome \<times> Exchange \<times> 'w"

section \<open>net/http\<close>

text \<open>Only the first header goes out; a body without one goes out under 200.\<close>

definition write_header :: "int \<Rightarrow> Exchange \<Rightarrow> Exchange" where
  "write_header code ex =
     (case ex_out ex of
        None \<Rightarrow> ex\<lparr>ex_out := Some \<lparr>rs_code = code, rs_type = ex_type ex, rs_body = []\<rparr>, ex_seen := code\<rparr>
      | Some _ \<Rightarrow> ex\<lparr>ex_seen := code\<rparr>)"

definition write_body :: "bytes \<Rightarrow> Exchange \<Rightarrow> Exchange" where
  "write_body bs ex =
     (case ex_out ex of
        None \<Rightarrow> ex\<lparr>ex_out := Some \<lparr>rs_code = 200, rs_type = ex_type ex, rs_body = bs\<rparr>\<rparr>
      | Some r \<Rightarrow> ex\<lparr>ex_out := Some (r\<lparr>rs_body := rs_body r @ bs\<rparr>)\<rparr>)"

definition write_typed :: "string \<Rightarrow> int \<Rightarrow> bytes \<Rightarrow> Exchange \<Rightarrow> Exchange" where
  "write_typed ty code bs ex = write_body bs (write_header code (ex\<lparr>ex_type := ty\<rparr>))"

text \<open>\<open>json.NewEncoder(w).Encode\<close> ends the value with a newline.\<close>

definition encoded :: "json \<Rightarrow> bytes" where
  "encoded v = json_print v @ [CHR 0x0A]"

definition http_error :: "string \<Rightarrow> int \<Rightarrow> Exchange \<Rightarrow> Exchange" where
  "http_error msg code ex = write_typed ''text/plain; charset=utf-8'' code (msg @ [CHR 0x0A]) ex"

text \<open>\<open>http.StatusText\<close> on the codes that the program and its middleware write.\<close>

definition http_status_text :: "int \<Rightarrow> string" where
  "http_status_text code =
     (case map_of
        [(200, ''OK''), (201, ''Created''), (202, ''Accepted''), (204, ''No Content''),
         (400, ''Bad Request''), (401, ''Unauthorized''), (403, ''Forbidden''), (404, ''Not Found''),
         (405, ''Method Not Allowed''), (406, ''Not Acceptable''), (408, ''Request Timeout''),
         (409, ''Conflict''), (410, ''Gone''), (413, ''Request Entity Too Large''),
         (415, ''Unsupported Media Type''), (422, ''Unprocessable Entity''),
         (429, ''Too Many Requests''), (500, ''Internal Server Error''), (501, ''Not Implemented''),
         (502, ''Bad Gateway''), (503, ''Service Unavailable''), (504, ''Gateway Timeout'')] code of
        None \<Rightarrow> ''''
      | Some s \<Rightarrow> s)"

text \<open>
  Reading the body: \<open>http.MaxBytesReader\<close> hands out the bytes up to the limit and then fails.
\<close>

definition body_cut :: "Request \<Rightarrow> bool" where
  "body_cut rq = (case rq_body_limit rq of None \<Rightarrow> False | Some n \<Rightarrow> n < int (length (rq_body rq)))"

definition body_read :: "Request \<Rightarrow> bytes" where
  "body_read rq = (case rq_body_limit rq of None \<Rightarrow> rq_body rq | Some n \<Rightarrow> take (nat n) (rq_body rq))"

section \<open>Problem details (problem.go, body_limit.go)\<close>

record ProblemDetail =
  pd_type :: string
  pd_title :: string
  pd_status :: int
  pd_detail :: string
  pd_instance :: string

definition problem_detail_json :: "ProblemDetail \<Rightarrow> json" where
  "problem_detail_json pd =
     JObj [(''type'', JStr (pd_type pd)), (''title'', JStr (pd_title pd)),
           (''status'', int_json (pd_status pd)), (''detail'', JStr (pd_detail pd)),
           (''instance'', JStr (pd_instance pd))]"

definition write_problem :: "Request \<Rightarrow> int \<Rightarrow> string \<Rightarrow> Exchange \<Rightarrow> Exchange" where
  "write_problem rq status detail ex =
     (let pd = \<lparr>pd_type = ''about:blank'', pd_title = http_status_text status, pd_status = status,
                pd_detail = detail, pd_instance = rq_path rq\<rparr> in
      write_typed ''application/problem+json'' status (encoded (problem_detail_json pd)) ex)"

definition rfc7807_json :: "int \<Rightarrow> string \<Rightarrow> string \<Rightarrow> json" where
  "rfc7807_json status title detail =
     JObj [(''type'', JStr ''about:blank''), (''title'', JStr title), (''status'', int_json status),
           (''detail'', JStr detail)]"

definition write_rfc7807 :: "int \<Rightarrow> string \<Rightarrow> string \<Rightarrow> Exchange \<Rightarrow> Exchange" where
  "write_rfc7807 status title detail ex =
     write_typed ''application/problem+json'' status (encoded (rfc7807_json status title detail)) ex"

section \<open>Middleware\<close>

definition max_body_size :: "int \<Rightarrow> 'w handler \<Rightarrow> 'w handler" where
  "max_body_size max_bytes next rq =
     next (if rq_method rq \<notin> {''GET'', ''HEAD'', ''OPTIONS''}
           then rq\<lparr>rq_body_limit := Some max_bytes\<rparr> else rq)"

definition request_logger :: "'w handler \<Rightarrow> 'w handler" where
  "request_logger next rq =
     (let req_id = rq_chi_id rq in
      if req_id \<noteq> '''' then next (rq\<lparr>rq_req_id := Some req_id\<rparr>) else next rq)"

definition request_id_from_context :: "Request \<Rightarrow> string" where
  "request_id_from_context rq = (case rq_req_id rq of Some i \<Rightarrow> i | None \<Rightarrow> '''')"

text \<open>The attributes that \<open>LoggerFromContext\<close> adds to the base logger.\<close>

definition logger_from_context :: "Request \<Rightarrow> (string \<times> string) list \<Rightarrow> (string \<times> string) list" where
  "logger_from_context rq attrs =
     (case rq_req_id rq of
        Some i \<Rightarrow> if i \<noteq> '''' then attrs @ [(''request_id'', i)] else attrs
      | None \<Rightarrow> attrs)"

definition panic_recovery :: "'w handler \<Rightarrow> 'w handler" where
  "panic_recovery next rq st =
     (case next rq st of
        (Finished, ex, w) \<Rightarrow> (Finished, ex, w)
      | (Panicked, ex, w) \<Rightarrow>
          (let pd = \<lparr>pd_type = ''about:blank'', pd_title = ''Internal Server Error'', pd_status = 500,
                     pd_detail = ''an unexpected error occurred'', pd_instance = rq_path rq\<rparr> in
           (Finished,
            write_typed ''application/problem+json'' 500 (encoded (problem_detail_json pd)) ex, w)))"

text \<open>
  The counter \<open>RequestsTotal\<close> by method, route and code. The middleware counts when the next
  handler returns, so a request that panics below it is not counted.
\<close>

record 'w App =
  ap_world :: 'w
  ap_requests :: "string \<times> string \<times> string \<Rightarrow> nat"

definition metrics_middleware :: "'w App handler \<Rightarrow> 'w App handler" where
  "metrics_middleware next rq st =
     (case next rq (case st of (ex, a) \<Rightarrow> (ex\<lparr>ex_seen := 200\<rparr>, a)) of
        (Panicked, ex, a) \<Rightarrow> (Panicked, ex, a)
      | (Finished, ex, a) \<Rightarrow>
          (let route = (if ex_route ex = '''' then rq_path rq else ex_route ex);
               label = (rq_method rq, route, itoa (ex_seen ex)) in
           (Finished, ex, a\<lparr>ap_requests := (ap_requests a)(label := Suc (ap_requests a label))\<rparr>)))"

section \<open>Facts\<close>

definition fresh :: "Exchange \<Rightarrow> bool" where
  "fresh ex \<longleftrightarrow> ex_out ex = None"

lemma write_typed_fresh:
  "fresh ex \<Longrightarrow> write_typed ty code bs ex =
     ex\<lparr>ex_type := ty, ex_out := Some \<lparr>rs_code = code, rs_type = ty, rs_body = bs\<rparr>, ex_seen := code\<rparr>"
  by (simp add: fresh_def write_typed_def write_header_def write_body_def)

lemma write_typed_late:
  "ex_out ex = Some r \<Longrightarrow> ex_out (write_typed ty code bs ex) = Some (r\<lparr>rs_body := rs_body r @ bs\<rparr>)"
  by (simp add: write_typed_def write_header_def write_body_def)

text \<open>
  Whatever the handler below does, the recovery middleware finishes the request, and the client
  gets a response if the handler wrote one or panicked: a panic before anything was written is a
  500 problem detail that names the path; a response that was already begun keeps its status and
  its Content-Type.
\<close>

theorem panic_recovered:
  assumes "next rq (ex, w) = (o1, ex1, w1)" and "panic_recovery next rq (ex, w) = (o2, ex2, w2)"
  shows "o2 = Finished \<and> w2 = w1 \<and>
    (if o1 = Finished then ex2 = ex1
     else case ex_out ex1 of
       None \<Rightarrow>
         ex_out ex2 = Some \<lparr>rs_code = 500, rs_type = ''application/problem+json'',
           rs_body = encoded (problem_detail_json
             \<lparr>pd_type = ''about:blank'', pd_title = ''Internal Server Error'', pd_status = 500,
              pd_detail = ''an unexpected error occurred'', pd_instance = rq_path rq\<rparr>)\<rparr>
     | Some r \<Rightarrow> \<exists>r'. ex_out ex2 = Some r' \<and> rs_code r' = rs_code r \<and> rs_type r' = rs_type r)"
  using assms
  by (cases o1; cases "ex_out ex1")
    (auto simp: panic_recovery_def Let_def write_typed_fresh [unfolded fresh_def] write_typed_late)

definition demo_request :: Request where
  "demo_request =
     \<lparr>rq_method = ''POST'', rq_path = ''/api/v1alpha1/vms'', rq_query = [], rq_body = '''',
      rq_body_limit = None, rq_chi_id = '''', rq_req_id = None\<rparr>"

definition new_exchange :: Exchange where
  "new_exchange = \<lparr>ex_type = '''', ex_out = None, ex_seen = 0, ex_route = ''''\<rparr>"

theorem panic_recovered_witness:
  "map_option rs_code (ex_out (fst (snd (panic_recovery (\<lambda>rq (ex, w). (Panicked, ex, w)) demo_request
     (new_exchange, ()))))) = Some 500"
proof -
  let ?next = "\<lambda>rq (ex, w). (Panicked, ex, w)"
  have n: "?next demo_request (new_exchange, ()) = (Panicked, new_exchange, ())" by simp
  obtain o2 ex2 w2 where p: "panic_recovery ?next demo_request (new_exchange, ()) = (o2, ex2, w2)"
    by (metis prod_cases3)
  from panic_recovered [of ?next, OF n p] show ?thesis unfolding p by (simp add: new_exchange_def)
qed

text \<open>
  The metrics middleware passes the request on unchanged and counts each request that returns
  exactly once, under its method, the route's pattern (the path when no route matched), and the
  status the client got, for a handler that writes its header once; a panic is not counted.
\<close>

theorem requests_counted:
  assumes "next rq (ex\<lparr>ex_seen := 200\<rparr>, a) = (o1, ex1, a1)"
    and "ap_requests a1 = ap_requests a"
    and "\<And>r. ex_out ex1 = Some r \<Longrightarrow> ex_seen ex1 = rs_code r"
    and "metrics_middleware next rq (ex, a) = (o2, ex2, a2)"
  shows "o2 = o1 \<and> ex2 = ex1 \<and> ap_world a2 = ap_world a1 \<and>
    (\<forall>method route code.
       ap_requests a2 (method, route, code) =
         ap_requests a (method, route, code) +
         (if o1 = Finished \<and> method = rq_method rq \<and>
             route = (if ex_route ex1 = '''' then rq_path rq else ex_route ex1) \<and>
             code = itoa (case ex_out ex1 of Some r \<Rightarrow> rs_code r | None \<Rightarrow> ex_seen ex1)
          then 1 else 0))"
  using assms by (cases o1) (auto simp: metrics_middleware_def Let_def split: option.splits)

theorem requests_counted_witness:
  "ap_requests (snd (snd (metrics_middleware (\<lambda>rq (ex, a). (Finished, write_header 404 ex, a)) demo_request
     (new_exchange, \<lparr>ap_world = (), ap_requests = (\<lambda>_. 0)\<rparr>))))
     (''POST'', ''/api/v1alpha1/vms'', ''404'') = 1"
proof -
  let ?next = "\<lambda>rq (ex, a :: unit App). (Finished, write_header 404 ex, a)"
  let ?a = "\<lparr>ap_world = (), ap_requests = (\<lambda>_. 0)\<rparr>"
  let ?ex = "write_header 404 (new_exchange\<lparr>ex_seen := 200\<rparr>)"
  have n: "?next demo_request (new_exchange\<lparr>ex_seen := 200\<rparr>, ?a) = (Finished, ?ex, ?a)" by simp
  have c: "ex_seen ?ex = rs_code r" if "ex_out ?ex = Some r" for r
    using that by (auto simp: write_header_def new_exchange_def)
  obtain o2 ex2 a2 where p: "metrics_middleware ?next demo_request (new_exchange, ?a) = (o2, ex2, a2)"
    by (metis prod_cases3)
  have i: "itoa 404 = ''404''" by code_simp
  from requests_counted [of ?next, OF n refl c p] show ?thesis
    unfolding p by (simp add: new_exchange_def demo_request_def write_header_def i)
qed

end
