(* ===== verification/Router.thy ===== *)
theory Router
  imports Http Vm_Handlers Cluster_Handlers
begin

text \<open>
  The HTTP layer of the API (internal/api/server/server.gen.go, and the error handlers that
  cmd/dcm-kcli-provider/server.go gives it): the routes, the wrappers that bind the parameters of a
  request, the strict handlers that decode the body and call the operation, and the methods that
  write a response object.

  Outside the repository, and so parameters: the binding of parameters (oapi-codegen's runtime), the
  chi router, the text of a float32, and the texts of \<open>encoding/json\<close> errors.
\<close>

record Runtime =
  rt_bind_int :: "string \<Rightarrow> (string \<times> string list) list \<Rightarrow> string + int option"
  rt_bind_str :: "string \<Rightarrow> (string \<times> string list) list \<Rightarrow> string + string option"
  rt_bind_path :: "string \<Rightarrow> string \<Rightarrow> string + string"
  rt_float32 :: "duration \<Rightarrow> string"
  rt_json_err :: "bytes \<Rightarrow> string"
  rt_scan_fails :: "bytes \<Rightarrow> bool"   \<comment> \<open>whether the scanner rejects the bytes as the start of a value\<close>

type_synonym ('s, 'k, 'p) state = "Exchange \<times> ('s, 'k, 'p) World"

section \<open>Writing the response objects\<close>

definition json_response :: "int \<Rightarrow> json \<Rightarrow> Exchange \<Rightarrow> Exchange" where
  "json_response code v ex = write_typed ''application/json'' code (encoded v) ex"

definition problem_response :: "int \<Rightarrow> Error \<Rightarrow> Exchange \<Rightarrow> Exchange" where
  "problem_response code e ex = write_typed ''application/problem+json'' code (encoded (error_json e)) ex"

fun health_status_str :: "HealthStatus \<Rightarrow> string" where
  "health_status_str Healthy = ''healthy''"
| "health_status_str Unhealthy = ''unhealthy''"

definition health_json :: "Runtime \<Rightarrow> Health \<Rightarrow> json" where
  "health_json R h =
     JObj (opt_member ''message'' JStr (he_message h)
           @ opt_member ''status'' (\<lambda>s. JStr (health_status_str s)) (he_status h)
           @ opt_member ''uptime'' (\<lambda>d. JNum (rt_float32 R d)) (he_uptime h)
           @ opt_member ''version'' JStr (he_version h))"

fun visit_list_clusters :: "ListClustersResponse \<Rightarrow> Exchange \<Rightarrow> Exchange" where
  "visit_list_clusters (ListClusters200 l) ex = json_response 200 (cluster_list_json l) ex"
| "visit_list_clusters (ListClustersDefault e code) ex = problem_response code e ex"

fun visit_create_cluster :: "CreateClusterResponse \<Rightarrow> Exchange \<Rightarrow> Exchange" where
  "visit_create_cluster (CreateCluster201 c) ex = json_response 201 (cluster_json c) ex"
| "visit_create_cluster (CreateCluster400 e) ex = problem_response 400 e ex"
| "visit_create_cluster (CreateCluster409 e) ex = problem_response 409 e ex"
| "visit_create_cluster (CreateClusterDefault e code) ex = problem_response code e ex"

fun visit_cluster_health :: "Runtime \<Rightarrow> HealthResponse \<Rightarrow> Exchange \<Rightarrow> Exchange" where
  "visit_cluster_health R (Health200 h) ex = json_response 200 (health_json R h) ex"
| "visit_cluster_health R (Health503 h) ex = json_response 503 (health_json R h) ex"

fun visit_delete_cluster :: "DeleteClusterResponse \<Rightarrow> Exchange \<Rightarrow> Exchange" where
  "visit_delete_cluster DeleteCluster204 ex = write_header 204 ex"
| "visit_delete_cluster (DeleteCluster404 e) ex = problem_response 404 e ex"
| "visit_delete_cluster (DeleteClusterDefault e code) ex = problem_response code e ex"

fun visit_get_cluster :: "GetClusterResponse \<Rightarrow> Exchange \<Rightarrow> Exchange" where
  "visit_get_cluster (GetCluster200 c) ex = json_response 200 (cluster_json c) ex"
| "visit_get_cluster (GetCluster404 e) ex = problem_response 404 e ex"
| "visit_get_cluster (GetClusterDefault e code) ex = problem_response code e ex"

fun visit_health :: "Runtime \<Rightarrow> HealthResponse \<Rightarrow> Exchange \<Rightarrow> Exchange" where
  "visit_health R (Health200 h) ex = json_response 200 (health_json R h) ex"
| "visit_health R (Health503 h) ex = json_response 503 (health_json R h) ex"

fun visit_list_vms :: "ListVMsResponse \<Rightarrow> Exchange \<Rightarrow> Exchange" where
  "visit_list_vms (ListVMs200 l) ex = json_response 200 (vm_list_json l) ex"
| "visit_list_vms (ListVMsDefault e code) ex = problem_response code e ex"

fun visit_create_vm :: "CreateVMResponse \<Rightarrow> Exchange \<Rightarrow> Exchange" where
  "visit_create_vm (CreateVM201 v) ex = json_response 201 (vm_json v) ex"
| "visit_create_vm (CreateVM400 e) ex = problem_response 400 e ex"
| "visit_create_vm (CreateVM409 e) ex = problem_response 409 e ex"
| "visit_create_vm (CreateVMDefault e code) ex = problem_response code e ex"

fun visit_vm_health :: "Runtime \<Rightarrow> HealthResponse \<Rightarrow> Exchange \<Rightarrow> Exchange" where
  "visit_vm_health R (Health200 h) ex = json_response 200 (health_json R h) ex"
| "visit_vm_health R (Health503 h) ex = json_response 503 (health_json R h) ex"

fun visit_delete_vm :: "DeleteVMResponse \<Rightarrow> Exchange \<Rightarrow> Exchange" where
  "visit_delete_vm DeleteVM204 ex = write_header 204 ex"
| "visit_delete_vm (DeleteVM404 e) ex = problem_response 404 e ex"
| "visit_delete_vm (DeleteVMDefault e code) ex = problem_response code e ex"

fun visit_get_vm :: "GetVMResponse \<Rightarrow> Exchange \<Rightarrow> Exchange" where
  "visit_get_vm (GetVM200 v) ex = json_response 200 (vm_json v) ex"
| "visit_get_vm (GetVM404 e) ex = problem_response 404 e ex"
| "visit_get_vm (GetVMDefault e code) ex = problem_response code e ex"

section \<open>Decoding the body\<close>

datatype body_error = BodyTooLarge | BadBody string

fun container :: "json \<Rightarrow> bool" where
  "container (JArr _) = True"
| "container (JObj _) = True"
| "container _ = False"

text \<open>
  \<open>json.NewDecoder(r.Body).Decode\<close> reads the first value of the body and leaves the rest. It meets
  the end of a limited body only if the value is not complete by then.
\<close>

definition decode_body :: "Runtime \<Rightarrow> (json \<Rightarrow> 'a option) \<Rightarrow> Request \<Rightarrow> body_error + 'a" where
  "decode_body R conv rq =
     (let bs = body_read rq in
      case parse_val (2 * length bs + 1) bs of
        None \<Rightarrow>
          if body_cut rq \<and> \<not> rt_scan_fails R bs then Inl BodyTooLarge else Inl (BadBody (rt_json_err R bs))
      | Some (v, rest) \<Rightarrow>
          if body_cut rq \<and> rest = [] \<and> \<not> container v then Inl BodyTooLarge
          else if 10000 < json_depth v then Inl (BadBody (rt_json_err R bs))
          else
            (case conv v of None \<Rightarrow> Inl (BadBody (rt_json_err R bs)) | Some x \<Rightarrow> Inr x))"

text \<open>\<open>RequestErrorHandlerFunc\<close>, as NewServer sets it.\<close>

definition request_error :: "body_error \<Rightarrow> Exchange \<Rightarrow> Exchange" where
  "request_error err ex =
     (case err of
        BodyTooLarge \<Rightarrow>
          write_rfc7807 413 ''Request Entity Too Large'' ''Request body exceeds the maximum allowed size.'' ex
      | BadBody msg \<Rightarrow> write_rfc7807 400 ''Bad Request'' (''can'' @ [CHR 0x27] @ ''t decode JSON body: '' @ msg) ex)"

section \<open>The strict handlers\<close>

definition sh_list_clusters ::
  "('s, 'k, 'p) Server \<Rightarrow> ListParams \<Rightarrow> ('s, 'k, 'p) state \<Rightarrow> ('s, 'k, 'p) state" where
  "sh_list_clusters V params st =
     (case st of (ex, w) \<Rightarrow>
        (case list_clusters V params w of (response, w) \<Rightarrow> (visit_list_clusters response ex, w)))"

definition sh_create_cluster ::
  "Runtime \<Rightarrow> ('s, 'k, 'p) Server \<Rightarrow> Request \<Rightarrow> string option \<Rightarrow> ('s, 'k, 'p) state \<Rightarrow>
   ('s, 'k, 'p) state" where
  "sh_create_cluster R V rq params_id st =
     (case st of (ex, w) \<Rightarrow>
        (case decode_body R cluster_of rq of
           Inl err \<Rightarrow> (request_error err ex, w)
         | Inr body \<Rightarrow>
             (case create_cluster V params_id (cl_spec body) w of
                (response, w) \<Rightarrow> (visit_create_cluster response ex, w))))"

definition sh_get_cluster_health ::
  "Runtime \<Rightarrow> ('s, 'k, 'p) Server \<Rightarrow> ('s, 'k, 'p) state \<Rightarrow> ('s, 'k, 'p) state" where
  "sh_get_cluster_health R V st =
     (case st of (ex, w) \<Rightarrow>
        (case get_cluster_health V w of (response, w) \<Rightarrow> (visit_cluster_health R response ex, w)))"

definition sh_delete_cluster ::
  "('s, 'k, 'p) Server \<Rightarrow> ctx \<Rightarrow> string \<Rightarrow> ('s, 'k, 'p) state \<Rightarrow> ('s, 'k, 'p) state" where
  "sh_delete_cluster V cx clusterId st =
     (case st of (ex, w) \<Rightarrow>
        (case delete_cluster V cx clusterId w of (response, w) \<Rightarrow> (visit_delete_cluster response ex, w)))"

definition sh_get_cluster ::
  "('s, 'k, 'p) Server \<Rightarrow> string \<Rightarrow> ('s, 'k, 'p) state \<Rightarrow> ('s, 'k, 'p) state" where
  "sh_get_cluster V clusterId st =
     (case st of (ex, w) \<Rightarrow>
        (case get_cluster V clusterId w of (response, w) \<Rightarrow> (visit_get_cluster response ex, w)))"

definition sh_get_health ::
  "Runtime \<Rightarrow> ('s, 'k, 'p) Server \<Rightarrow> ('s, 'k, 'p) state \<Rightarrow> ('s, 'k, 'p) state" where
  "sh_get_health R V st =
     (case st of (ex, w) \<Rightarrow>
        (case get_health V w of (response, w) \<Rightarrow> (visit_health R response ex, w)))"

definition sh_list_vms ::
  "('s, 'k, 'p) Server \<Rightarrow> ListParams \<Rightarrow> ('s, 'k, 'p) state \<Rightarrow> ('s, 'k, 'p) state" where
  "sh_list_vms V params st =
     (case st of (ex, w) \<Rightarrow>
        (case list_vms V params w of (response, w) \<Rightarrow> (visit_list_vms response ex, w)))"

definition sh_create_vm ::
  "Runtime \<Rightarrow> ('s, 'k, 'p) Server \<Rightarrow> Request \<Rightarrow> string option \<Rightarrow> ('s, 'k, 'p) state \<Rightarrow>
   ('s, 'k, 'p) state" where
  "sh_create_vm R V rq params_id st =
     (case st of (ex, w) \<Rightarrow>
        (case decode_body R vm_of rq of
           Inl err \<Rightarrow> (request_error err ex, w)
         | Inr body \<Rightarrow>
             (case create_vm V params_id (vm_spec body) w of
                (response, w) \<Rightarrow> (visit_create_vm response ex, w))))"

definition sh_get_vm_health ::
  "Runtime \<Rightarrow> ('s, 'k, 'p) Server \<Rightarrow> ('s, 'k, 'p) state \<Rightarrow> ('s, 'k, 'p) state" where
  "sh_get_vm_health R V st =
     (case st of (ex, w) \<Rightarrow>
        (case get_vm_health V w of (response, w) \<Rightarrow> (visit_vm_health R response ex, w)))"

definition sh_delete_vm ::
  "('s, 'k, 'p) Server \<Rightarrow> ctx \<Rightarrow> string \<Rightarrow> ('s, 'k, 'p) state \<Rightarrow> ('s, 'k, 'p) state" where
  "sh_delete_vm V cx vmId st =
     (case st of (ex, w) \<Rightarrow>
        (case delete_vm V cx vmId w of (response, w) \<Rightarrow> (visit_delete_vm response ex, w)))"

definition sh_get_vm ::
  "('s, 'k, 'p) Server \<Rightarrow> string \<Rightarrow> ('s, 'k, 'p) state \<Rightarrow> ('s, 'k, 'p) state" where
  "sh_get_vm V vmId st =
     (case st of (ex, w) \<Rightarrow>
        (case get_vm V vmId w of (response, w) \<Rightarrow> (visit_get_vm response ex, w)))"

section \<open>The wrappers\<close>

text \<open>
  \<open>InvalidParamFormatError.Error\<close>, and \<open>ErrorHandlerFunc\<close> as HandlerWithOptions sets it.
\<close>

definition invalid_param_text :: "string \<Rightarrow> string \<Rightarrow> string" where
  "invalid_param_text name err = ''Invalid format for parameter '' @ name @ '': '' @ err"

definition param_error :: "string \<Rightarrow> string \<Rightarrow> Exchange \<Rightarrow> Exchange" where
  "param_error name err ex = http_error (invalid_param_text name err) 400 ex"

definition siw_list_clusters ::
  "Runtime \<Rightarrow> ('s, 'k, 'p) Server \<Rightarrow> Request \<Rightarrow> ('s, 'k, 'p) state \<Rightarrow> ('s, 'k, 'p) state" where
  "siw_list_clusters R V rq st =
     (case rt_bind_int R ''max_page_size'' (rq_query rq) of
        Inl err \<Rightarrow> (param_error ''max_page_size'' err (fst st), snd st)
      | Inr max_page_size \<Rightarrow>
          (case rt_bind_str R ''page_token'' (rq_query rq) of
             Inl err \<Rightarrow> (param_error ''page_token'' err (fst st), snd st)
           | Inr page_token \<Rightarrow>
               sh_list_clusters V \<lparr>lp_max_page_size = max_page_size, lp_page_token = page_token\<rparr> st))"

definition siw_create_cluster ::
  "Runtime \<Rightarrow> ('s, 'k, 'p) Server \<Rightarrow> Request \<Rightarrow> ('s, 'k, 'p) state \<Rightarrow> ('s, 'k, 'p) state" where
  "siw_create_cluster R V rq st =
     (case rt_bind_str R ''id'' (rq_query rq) of
        Inl err \<Rightarrow> (param_error ''id'' err (fst st), snd st)
      | Inr i \<Rightarrow> sh_create_cluster R V rq i st)"

definition siw_get_cluster_health ::
  "Runtime \<Rightarrow> ('s, 'k, 'p) Server \<Rightarrow> ('s, 'k, 'p) state \<Rightarrow> ('s, 'k, 'p) state" where
  "siw_get_cluster_health R V st = sh_get_cluster_health R V st"

definition siw_delete_cluster ::
  "Runtime \<Rightarrow> ('s, 'k, 'p) Server \<Rightarrow> ctx \<Rightarrow> string \<Rightarrow> ('s, 'k, 'p) state \<Rightarrow> ('s, 'k, 'p) state" where
  "siw_delete_cluster R V cx url_param st =
     (case rt_bind_path R ''clusterId'' url_param of
        Inl err \<Rightarrow> (param_error ''clusterId'' err (fst st), snd st)
      | Inr clusterId \<Rightarrow> sh_delete_cluster V cx clusterId st)"

definition siw_get_cluster ::
  "Runtime \<Rightarrow> ('s, 'k, 'p) Server \<Rightarrow> string \<Rightarrow> ('s, 'k, 'p) state \<Rightarrow> ('s, 'k, 'p) state" where
  "siw_get_cluster R V url_param st =
     (case rt_bind_path R ''clusterId'' url_param of
        Inl err \<Rightarrow> (param_error ''clusterId'' err (fst st), snd st)
      | Inr clusterId \<Rightarrow> sh_get_cluster V clusterId st)"

definition siw_get_health ::
  "Runtime \<Rightarrow> ('s, 'k, 'p) Server \<Rightarrow> ('s, 'k, 'p) state \<Rightarrow> ('s, 'k, 'p) state" where
  "siw_get_health R V st = sh_get_health R V st"

definition siw_list_vms ::
  "Runtime \<Rightarrow> ('s, 'k, 'p) Server \<Rightarrow> Request \<Rightarrow> ('s, 'k, 'p) state \<Rightarrow> ('s, 'k, 'p) state" where
  "siw_list_vms R V rq st =
     (case rt_bind_int R ''max_page_size'' (rq_query rq) of
        Inl err \<Rightarrow> (param_error ''max_page_size'' err (fst st), snd st)
      | Inr max_page_size \<Rightarrow>
          (case rt_bind_str R ''page_token'' (rq_query rq) of
             Inl err \<Rightarrow> (param_error ''page_token'' err (fst st), snd st)
           | Inr page_token \<Rightarrow>
               sh_list_vms V \<lparr>lp_max_page_size = max_page_size, lp_page_token = page_token\<rparr> st))"

definition siw_create_vm ::
  "Runtime \<Rightarrow> ('s, 'k, 'p) Server \<Rightarrow> Request \<Rightarrow> ('s, 'k, 'p) state \<Rightarrow> ('s, 'k, 'p) state" where
  "siw_create_vm R V rq st =
     (case rt_bind_str R ''id'' (rq_query rq) of
        Inl err \<Rightarrow> (param_error ''id'' err (fst st), snd st)
      | Inr i \<Rightarrow> sh_create_vm R V rq i st)"

definition siw_get_vm_health ::
  "Runtime \<Rightarrow> ('s, 'k, 'p) Server \<Rightarrow> ('s, 'k, 'p) state \<Rightarrow> ('s, 'k, 'p) state" where
  "siw_get_vm_health R V st = sh_get_vm_health R V st"

definition siw_delete_vm ::
  "Runtime \<Rightarrow> ('s, 'k, 'p) Server \<Rightarrow> ctx \<Rightarrow> string \<Rightarrow> ('s, 'k, 'p) state \<Rightarrow> ('s, 'k, 'p) state" where
  "siw_delete_vm R V cx url_param st =
     (case rt_bind_path R ''vmId'' url_param of
        Inl err \<Rightarrow> (param_error ''vmId'' err (fst st), snd st)
      | Inr vmId \<Rightarrow> sh_delete_vm V cx vmId st)"

definition siw_get_vm ::
  "Runtime \<Rightarrow> ('s, 'k, 'p) Server \<Rightarrow> string \<Rightarrow> ('s, 'k, 'p) state \<Rightarrow> ('s, 'k, 'p) state" where
  "siw_get_vm R V url_param st =
     (case rt_bind_path R ''vmId'' url_param of
        Inl err \<Rightarrow> (param_error ''vmId'' err (fst st), snd st)
      | Inr vmId \<Rightarrow> sh_get_vm V vmId st)"

section \<open>The routes\<close>

datatype operation =
    ListClusters | CreateCluster | GetClusterHealth | DeleteCluster | GetCluster | GetHealth
  | ListVMs | CreateVM | GetVMHealth | DeleteVM | GetVM

type_synonym route = "string \<times> string \<times> operation"

definition api_routes :: "string \<Rightarrow> route list" where
  "api_routes base_url =
     [(''GET'', base_url @ ''/clusters'', ListClusters),
      (''POST'', base_url @ ''/clusters'', CreateCluster),
      (''GET'', base_url @ ''/clusters/health'', GetClusterHealth),
      (''DELETE'', base_url @ ''/clusters/{clusterId}'', DeleteCluster),
      (''GET'', base_url @ ''/clusters/{clusterId}'', GetCluster),
      (''GET'', base_url @ ''/health'', GetHealth),
      (''GET'', base_url @ ''/vms'', ListVMs),
      (''POST'', base_url @ ''/vms'', CreateVM),
      (''GET'', base_url @ ''/vms/health'', GetVMHealth),
      (''DELETE'', base_url @ ''/vms/{vmId}'', DeleteVM),
      (''GET'', base_url @ ''/vms/{vmId}'', GetVM)]"

text \<open>
  chi: the route it finds for a method and a path, with the pattern and the URL parameters, and what
  it answers when there is none.
\<close>

record Chi =
  ch_find :: "route list \<Rightarrow> string \<Rightarrow> string \<Rightarrow> (string \<times> operation \<times> (string \<times> string) list) option"
  ch_refuse :: "Request \<Rightarrow> Exchange \<Rightarrow> Exchange"

definition url_param :: "(string \<times> string) list \<Rightarrow> string \<Rightarrow> string" where
  "url_param ps name = (case map_of ps name of Some v \<Rightarrow> v | None \<Rightarrow> '''')"

definition call_operation ::
  "Runtime \<Rightarrow> ('s, 'k, 'p) Server \<Rightarrow> ctx \<Rightarrow> operation \<Rightarrow> (string \<times> string) list \<Rightarrow> Request \<Rightarrow>
   ('s, 'k, 'p) state \<Rightarrow> ('s, 'k, 'p) state" where
  "call_operation R V cx oper ps rq st =
     (case oper of
        ListClusters \<Rightarrow> siw_list_clusters R V rq st
      | CreateCluster \<Rightarrow> siw_create_cluster R V rq st
      | GetClusterHealth \<Rightarrow> siw_get_cluster_health R V st
      | DeleteCluster \<Rightarrow> siw_delete_cluster R V cx (url_param ps ''clusterId'') st
      | GetCluster \<Rightarrow> siw_get_cluster R V (url_param ps ''clusterId'') st
      | GetHealth \<Rightarrow> siw_get_health R V st
      | ListVMs \<Rightarrow> siw_list_vms R V rq st
      | CreateVM \<Rightarrow> siw_create_vm R V rq st
      | GetVMHealth \<Rightarrow> siw_get_vm_health R V st
      | DeleteVM \<Rightarrow> siw_delete_vm R V cx (url_param ps ''vmId'') st
      | GetVM \<Rightarrow> siw_get_vm R V (url_param ps ''vmId'') st)"

text \<open>The operations do not panic.\<close>

definition api_handler ::
  "Chi \<Rightarrow> Runtime \<Rightarrow> ('s, 'k, 'p) Server \<Rightarrow> ctx \<Rightarrow> string \<Rightarrow> ('s, 'k, 'p) World handler" where
  "api_handler C R V cx base_url rq st =
     (case ch_find C (api_routes base_url) (rq_method rq) (rq_path rq) of
        None \<Rightarrow> (Finished, ch_refuse C rq (fst st), snd st)
      | Some (pattern, oper, ps) \<Rightarrow>
          (Finished, call_operation R V cx oper ps rq ((fst st)\<lparr>ex_route := pattern\<rparr>, snd st)))"

end
