(* ===== verification/Router_Props.thy ===== *)
theory Router_Props
  imports Router Sample
begin

text \<open>
  The properties of the HTTP layer: which operation a request reaches, what every reply looks like,
  and what a refused request leaves alone. The contract of chi is the locale \<open>chi_contract\<close>, with a
  linear search as its instance.
\<close>

section \<open>Patterns\<close>

definition is_param :: "string \<Rightarrow> bool" where
  "is_param s \<longleftrightarrow> take 1 s = ''{''"

definition param_name :: "string \<Rightarrow> string" where
  "param_name s = butlast (tl s)"

text \<open>A parameter stands for one segment that is not empty.\<close>

fun match_segs :: "string list \<Rightarrow> string list \<Rightarrow> (string \<times> string) list option" where
  "match_segs [] [] = Some []"
| "match_segs (p # ps) (s # ss) =
     (if is_param p then
        (if s = '''' then None else map_option (\<lambda>m. (param_name p, s) # m) (match_segs ps ss))
      else if p = s then match_segs ps ss
      else None)"
| "match_segs _ _ = None"

definition pattern_match :: "string \<Rightarrow> string \<Rightarrow> (string \<times> string) list option" where
  "pattern_match pat path = match_segs (split_slash pat) (split_slash path)"

definition static_pattern :: "string \<Rightarrow> bool" where
  "static_pattern pat \<longleftrightarrow> (\<forall>s \<in> set (split_slash pat). \<not> is_param s)"

text \<open>
  What the code relies on in chi: the route found is one of the table that matches; one is found
  when one matches; and a route without parameters is preferred.
\<close>

locale chi_contract =
  fixes find :: "route list \<Rightarrow> string \<Rightarrow> string \<Rightarrow> (string \<times> operation \<times> (string \<times> string) list) option"
  assumes found_matches:
      "find tbl m path = Some (pat, oper, ps) \<Longrightarrow>
       (m, pat, oper) \<in> set tbl \<and> pattern_match pat path = Some ps"
    and match_found:
      "(m, pat, oper) \<in> set tbl \<Longrightarrow> pattern_match pat path \<noteq> None \<Longrightarrow> find tbl m path \<noteq> None"
    and static_first:
      "find tbl m path = Some (pat, oper, ps) \<Longrightarrow> (m, path, oper') \<in> set tbl \<Longrightarrow>
       static_pattern path \<Longrightarrow> pat = path"
begin

lemma find_unique:
  assumes "(m, pat, oper) \<in> set tbl" "pattern_match pat path = Some ps"
    and "\<And>pat' oper' ps'. (m, pat', oper') \<in> set tbl \<Longrightarrow> pattern_match pat' path = Some ps' \<Longrightarrow>
      pat' = pat \<and> oper' = oper"
  shows "find tbl m path = Some (pat, oper, ps)"
proof -
  obtain pat' oper' ps' where f: "find tbl m path = Some (pat', oper', ps')"
    using match_found [OF assms(1)] assms(2) by (metis option.distinct(1) option.exhaust prod_cases3)
  from found_matches [OF f] assms(3) have "pat' = pat \<and> oper' = oper" by blast
  with f found_matches [OF f] assms(2) show ?thesis by simp
qed

lemma find_static:
  assumes "(m, path, oper) \<in> set tbl" "static_pattern path" "pattern_match path path = Some ps"
    and "\<And>oper'. (m, path, oper') \<in> set tbl \<Longrightarrow> oper' = oper"
  shows "find tbl m path = Some (path, oper, ps)"
proof -
  obtain pat' oper' ps' where f: "find tbl m path = Some (pat', oper', ps')"
    using match_found [OF assms(1)] assms(3) by (metis option.distinct(1) option.exhaust prod_cases3)
  have "pat' = path" using static_first [OF f assms(1,2)] .
  with f found_matches [OF f] assms(3,4) show ?thesis by auto
qed

end

text \<open>A linear search that looks for a route without parameters first.\<close>

definition hits :: "route list \<Rightarrow> string \<Rightarrow> string \<Rightarrow> route list" where
  "hits tbl m path = filter (\<lambda>r. fst r = m \<and> pattern_match (fst (snd r)) path \<noteq> None) tbl"

definition static_hits :: "route list \<Rightarrow> string \<Rightarrow> string \<Rightarrow> route list" where
  "static_hits tbl m path = filter (\<lambda>r. fst (snd r) = path \<and> static_pattern path) (hits tbl m path)"

definition linear_find ::
  "route list \<Rightarrow> string \<Rightarrow> string \<Rightarrow> (string \<times> operation \<times> (string \<times> string) list) option" where
  "linear_find tbl m path =
     (case static_hits tbl m path @ hits tbl m path of
        [] \<Rightarrow> None
      | (m', pat, oper) # _ \<Rightarrow> Some (pat, oper, the (pattern_match pat path)))"

lemma match_segs_refl: "\<forall>s \<in> set ss. \<not> is_param s \<Longrightarrow> match_segs ss ss = Some []"
  by (induction ss) auto

lemma static_match: "static_pattern pat \<Longrightarrow> pattern_match pat pat = Some []"
  by (simp add: static_pattern_def pattern_match_def match_segs_refl)

lemma linear_find_Some:
  assumes "linear_find tbl m path = Some (pat, oper, ps)"
  shows "(m, pat, oper) \<in> set tbl \<and> pattern_match pat path = Some ps"
    and "static_hits tbl m path \<noteq> [] \<Longrightarrow> pat = path"
proof -
  obtain m' rest where c: "static_hits tbl m path @ hits tbl m path = (m', pat, oper) # rest" and
    ps: "ps = the (pattern_match pat path)"
    using assms by (auto simp: linear_find_def split: list.splits)
  then have "(m', pat, oper) \<in> set (static_hits tbl m path @ hits tbl m path)" by (metis list.set_intros(1))
  then have "(m', pat, oper) \<in> set (hits tbl m path)" by (auto simp: static_hits_def)
  then show "(m, pat, oper) \<in> set tbl \<and> pattern_match pat path = Some ps"
    using ps by (auto simp: hits_def)
  show "pat = path" if "static_hits tbl m path \<noteq> []"
  proof -
    from that obtain y ys where y: "static_hits tbl m path = y # ys" by (meson neq_Nil_conv)
    then have "y \<in> set (static_hits tbl m path)" by simp
    moreover have "y = (m', pat, oper)" using c y by simp
    ultimately show ?thesis by (simp add: static_hits_def)
  qed
qed

interpretation linear: chi_contract linear_find
proof
  fix tbl :: "route list" and m path pat oper ps oper'
  show "linear_find tbl m path \<noteq> None" if "(m, pat, oper) \<in> set tbl" "pattern_match pat path \<noteq> None"
  proof -
    have "(m, pat, oper) \<in> set (hits tbl m path)" using that by (simp add: hits_def)
    then have "static_hits tbl m path @ hits tbl m path \<noteq> []" by (metis append_is_Nil_conv empty_iff empty_set)
    then obtain y ys where "static_hits tbl m path @ hits tbl m path = y # ys" by (meson neq_Nil_conv)
    then show ?thesis unfolding linear_find_def by (cases y) simp
  qed
  assume f: "linear_find tbl m path = Some (pat, oper, ps)"
  show "(m, pat, oper) \<in> set tbl \<and> pattern_match pat path = Some ps"
    by (rule linear_find_Some(1) [OF f])
  show "pat = path" if "(m, path, oper') \<in> set tbl" "static_pattern path"
  proof -
    have "(m, path, oper') \<in> set (static_hits tbl m path)"
      using that static_match [OF that(2)] by (simp add: static_hits_def hits_def)
    then have "static_hits tbl m path \<noteq> []" by (metis empty_iff empty_set)
    then show ?thesis by (rule linear_find_Some(2) [OF f])
  qed
qed

section \<open>Which operation a request reaches\<close>

lemma match_segs_append:
  "length ps = length ss \<Longrightarrow> match_segs (ps @ ps') (ss @ ss') =
     (case match_segs ps ss of
        None \<Rightarrow> None
      | Some m \<Rightarrow> map_option (\<lambda>m'. m @ m') (match_segs ps' ss'))"
  by (cases "match_segs ps' ss'"; induction ps ss rule: match_segs.induct)
    (auto split: option.splits)

text \<open>The patterns are a base without parameters and a tail of one or two segments.\<close>

definition base_ok :: "string \<Rightarrow> bool" where
  "base_ok base \<longleftrightarrow> static_pattern base"

lemma tail_match:
  assumes "base_ok base"
  shows "pattern_match (base @ CHR ''/'' # p) (base @ CHR ''/'' # q) = match_segs (split_slash p) (split_slash q)"
  using assms
  by (cases "match_segs (split_slash p) (split_slash q)")
    (simp_all add: pattern_match_def base_ok_def static_pattern_def split_on_append match_segs_append
      match_segs_refl)

lemma tail_segs:
  "split_slash ''clusters'' = [''clusters'']" "split_slash ''health'' = [''health'']"
  "split_slash ''vms'' = [''vms'']"
  "split_slash ''clusters/health'' = [''clusters'', ''health'']"
  "split_slash ''vms/health'' = [''vms'', ''health'']"
  "split_slash ''clusters/{clusterId}'' = [''clusters'', ''{clusterId}'']"
  "split_slash ''vms/{vmId}'' = [''vms'', ''{vmId}'']"
  by simp_all

text \<open>The operations on a collection, and those on one resource.\<close>

lemma collection_routes:
  assumes "chi_contract F" "base_ok base"
  shows "F (api_routes base) ''POST'' (base @ ''/vms'') = Some (base @ ''/vms'', CreateVM, [])"
    and "F (api_routes base) ''POST'' (base @ ''/clusters'') = Some (base @ ''/clusters'', CreateCluster, [])"
    and "F (api_routes base) ''GET'' (base @ ''/vms'') = Some (base @ ''/vms'', ListVMs, [])"
    and "F (api_routes base) ''GET'' (base @ ''/clusters'') = Some (base @ ''/clusters'', ListClusters, [])"
    and "F (api_routes base) ''GET'' (base @ ''/health'') = Some (base @ ''/health'', GetHealth, [])"
  by (rule chi_contract.find_unique [OF assms(1)];
      auto simp: api_routes_def tail_match [OF assms(2)] tail_segs is_param_def)+

lemma delete_routes:
  assumes "chi_contract F" "base_ok base" "i \<noteq> ''''" "CHR ''/'' \<notin> set i"
  shows "F (api_routes base) ''DELETE'' (base @ ''/vms/'' @ i) =
      Some (base @ ''/vms/{vmId}'', DeleteVM, [(''vmId'', i)])"
    and "F (api_routes base) ''DELETE'' (base @ ''/clusters/'' @ i) =
      Some (base @ ''/clusters/{clusterId}'', DeleteCluster, [(''clusterId'', i)])"
  by (rule chi_contract.find_unique [OF assms(1)];
      auto simp: api_routes_def tail_match [OF assms(2)] tail_segs split_on_single [OF assms(4)] is_param_def
        param_name_def assms(3))+

lemma health_routes:
  assumes "chi_contract F" "base_ok base"
  shows "F (api_routes base) ''GET'' (base @ ''/vms/health'') = Some (base @ ''/vms/health'', GetVMHealth, [])"
    and "F (api_routes base) ''GET'' (base @ ''/clusters/health'') =
      Some (base @ ''/clusters/health'', GetClusterHealth, [])"
proof -
  have st: "static_pattern (base @ ''/vms/health'')" "static_pattern (base @ ''/clusters/health'')"
    using assms(2) by (auto simp: static_pattern_def base_ok_def split_on_append is_param_def)
  note simps = api_routes_def tail_match [OF assms(2)] tail_segs is_param_def
  show "F (api_routes base) ''GET'' (base @ ''/vms/health'') = Some (base @ ''/vms/health'', GetVMHealth, [])"
    by (rule chi_contract.find_static [OF assms(1) _ st(1)]) (auto simp: simps)
  show "F (api_routes base) ''GET'' (base @ ''/clusters/health'') =
      Some (base @ ''/clusters/health'', GetClusterHealth, [])"
    by (rule chi_contract.find_static [OF assms(1) _ st(2)]) (auto simp: simps)
qed

lemma get_routes:
  assumes "chi_contract F" "base_ok base" "i \<noteq> ''''" "CHR ''/'' \<notin> set i" "i \<noteq> ''health''"
  shows "F (api_routes base) ''GET'' (base @ ''/vms/'' @ i) =
      Some (base @ ''/vms/{vmId}'', GetVM, [(''vmId'', i)])"
    and "F (api_routes base) ''GET'' (base @ ''/clusters/'' @ i) =
      Some (base @ ''/clusters/{clusterId}'', GetCluster, [(''clusterId'', i)])"
  by (rule chi_contract.find_unique [OF assms(1)];
      use assms(5) in \<open>auto simp: api_routes_def tail_match [OF assms(2)] tail_segs
        split_on_single [OF assms(4)] is_param_def param_name_def assms(3)\<close>)+

text \<open>
  C21: Where requests go. The fixed paths go to their operations; a path below \<open>/vms\<close> or
  \<open>/clusters\<close> of one segment goes to the operation on the resource of that ID, which gets the
  segment as its parameter, except that GET on \<open>health\<close> goes to the health check: a resource with
  the ID "health" can be created and deleted but not read.
\<close>

theorem routes_dispatch:
  assumes "chi_contract F" "base_ok base" "i \<noteq> ''''" "CHR ''/'' \<notin> set i"
  shows "F (api_routes base) ''POST'' (base @ ''/vms'') = Some (base @ ''/vms'', CreateVM, []) \<and>
    F (api_routes base) ''GET'' (base @ ''/vms'') = Some (base @ ''/vms'', ListVMs, []) \<and>
    F (api_routes base) ''DELETE'' (base @ ''/vms/'' @ i) =
      Some (base @ ''/vms/{vmId}'', DeleteVM, [(''vmId'', i)]) \<and>
    F (api_routes base) ''GET'' (base @ ''/vms/'' @ i) =
      (if i = ''health'' then Some (base @ ''/vms/health'', GetVMHealth, [])
       else Some (base @ ''/vms/{vmId}'', GetVM, [(''vmId'', i)])) \<and>
    F (api_routes base) ''POST'' (base @ ''/clusters'') = Some (base @ ''/clusters'', CreateCluster, []) \<and>
    F (api_routes base) ''GET'' (base @ ''/clusters'') = Some (base @ ''/clusters'', ListClusters, []) \<and>
    F (api_routes base) ''DELETE'' (base @ ''/clusters/'' @ i) =
      Some (base @ ''/clusters/{clusterId}'', DeleteCluster, [(''clusterId'', i)]) \<and>
    F (api_routes base) ''GET'' (base @ ''/clusters/'' @ i) =
      (if i = ''health'' then Some (base @ ''/clusters/health'', GetClusterHealth, [])
       else Some (base @ ''/clusters/{clusterId}'', GetCluster, [(''clusterId'', i)])) \<and>
    F (api_routes base) ''GET'' (base @ ''/health'') = Some (base @ ''/health'', GetHealth, [])"
  using collection_routes [OF assms(1,2)] delete_routes [OF assms] health_routes [OF assms(1,2)]
    get_routes [OF assms]
  by auto

theorem routes_dispatch_witness:
  "linear_find (api_routes ''/api/v1alpha1'') ''GET'' ''/api/v1alpha1/vms/health'' =
     Some (''/api/v1alpha1/vms/health'', GetVMHealth, [])"
  using routes_dispatch [OF linear.chi_contract_axioms, of "''/api/v1alpha1''" "''health''"]
  by (simp add: base_ok_def static_pattern_def is_param_def)

section \<open>What every reply looks like\<close>

text \<open>A problem that says of itself what the status line says.\<close>

definition agrees :: "Error \<Rightarrow> int \<Rightarrow> bool" where
  "agrees e code \<longleftrightarrow>
     code \<in> {400, 404, 409, 500, 502} \<and> er_status e = Some code \<and> er_title e = status_text code \<and>
     er_type e = ''about:blank'' \<and> er_detail e \<noteq> None"

lemma agrees_problem [simp]: "agrees (problem_error code detail) code \<longleftrightarrow> code \<in> {400, 404, 409, 500, 502}"
  by (simp add: agrees_def problem_error_def)

lemma create_vm_agrees:
  "case fst (create_vm V i spec w) of
     CreateVM201 _ \<Rightarrow> True | CreateVM400 e \<Rightarrow> agrees e 400 | CreateVM409 e \<Rightarrow> agrees e 409
   | CreateVMDefault e c \<Rightarrow> agrees e c"
  by (simp add: create_vm_def create_new_vm_def create_vm_error_def case_prod_unfold Let_def split: option.split)

lemma list_vms_agrees:
  "case fst (list_vms V p w) of ListVMs200 _ \<Rightarrow> True | ListVMsDefault e c \<Rightarrow> agrees e c"
  by (simp add: list_vms_def case_prod_unfold Let_def split: sum.split)

lemma get_vm_agrees:
  "case fst (get_vm V i w) of GetVM200 _ \<Rightarrow> True | GetVM404 e \<Rightarrow> agrees e 404 | GetVMDefault e c \<Rightarrow> agrees e c"
  by (simp add: get_vm_def case_prod_unfold Let_def split: sum.split)

lemma delete_vm_agrees:
  "case fst (delete_vm V cx i w) of
     DeleteVM204 \<Rightarrow> True | DeleteVM404 e \<Rightarrow> agrees e 404 | DeleteVMDefault e c \<Rightarrow> agrees e c"
  by (simp add: delete_vm_def case_prod_unfold Let_def split: sum.split option.split)

lemma create_cluster_agrees:
  "case fst (create_cluster V i spec w) of
     CreateCluster201 _ \<Rightarrow> True | CreateCluster400 e \<Rightarrow> agrees e 400 | CreateCluster409 e \<Rightarrow> agrees e 409
   | CreateClusterDefault e c \<Rightarrow> agrees e c"
  by (simp add: create_cluster_def create_cluster_error_def case_prod_unfold Let_def split: option.split)

lemma list_clusters_agrees:
  "case fst (list_clusters V p w) of ListClusters200 _ \<Rightarrow> True | ListClustersDefault e c \<Rightarrow> agrees e c"
  by (simp add: list_clusters_def case_prod_unfold Let_def split: sum.split)

lemma get_cluster_agrees:
  "case fst (get_cluster V i w) of
     GetCluster200 _ \<Rightarrow> True | GetCluster404 e \<Rightarrow> agrees e 404 | GetClusterDefault e c \<Rightarrow> agrees e c"
  by (simp add: get_cluster_def case_prod_unfold Let_def split: sum.split)

lemma delete_cluster_agrees:
  "case fst (delete_cluster V cx i w) of
     DeleteCluster204 \<Rightarrow> True | DeleteCluster404 e \<Rightarrow> agrees e 404 | DeleteClusterDefault e c \<Rightarrow> agrees e c"
  by (simp add: delete_cluster_def case_prod_unfold Let_def split: sum.split option.split)

text \<open>The kinds of reply.\<close>

definition json_reply :: "Response \<Rightarrow> bool" where
  "json_reply r \<longleftrightarrow>
     rs_code r \<in> {200, 201, 503} \<and> rs_type r = ''application/json'' \<and> (\<exists>v. rs_body r = encoded v)"

definition problem_reply :: "Response \<Rightarrow> bool" where
  "problem_reply r \<longleftrightarrow>
     rs_type r = ''application/problem+json'' \<and>
     ((\<exists>e. agrees e (rs_code r) \<and> rs_body r = encoded (error_json e)) \<or>
      rs_code r \<in> {400, 413} \<and> (\<exists>title detail. rs_body r = encoded (rfc7807_json (rs_code r) title detail)))"

definition empty_reply :: "Exchange \<Rightarrow> Response \<Rightarrow> bool" where
  "empty_reply ex r \<longleftrightarrow> r = \<lparr>rs_code = 204, rs_type = ex_type ex, rs_body = []\<rparr>"

text \<open>A parameter that cannot be bound is answered in plain text.\<close>

definition param_reply :: "Response \<Rightarrow> bool" where
  "param_reply r \<longleftrightarrow>
     rs_code r = 400 \<and> rs_type r = ''text/plain; charset=utf-8'' \<and>
     (\<exists>name err. rs_body r = invalid_param_text name err @ [CHR 0x0A])"

definition answered :: "Exchange \<Rightarrow> Exchange \<Rightarrow> bool" where
  "answered ex ex' \<longleftrightarrow>
     (\<exists>r. ex_out ex' = Some r \<and> ex_seen ex' = rs_code r \<and> ex_route ex' = ex_route ex \<and>
        (json_reply r \<or> problem_reply r \<or> empty_reply ex r \<or> param_reply r))"

lemma answered_json [intro]: "fresh ex \<Longrightarrow> code \<in> {200, 201, 503} \<Longrightarrow> answered ex (json_response code v ex)"
  by (auto simp: answered_def json_response_def write_typed_fresh json_reply_def)

lemma answered_problem [intro]: "fresh ex \<Longrightarrow> agrees e code \<Longrightarrow> answered ex (problem_response code e ex)"
  by (auto simp: answered_def problem_response_def write_typed_fresh problem_reply_def)

lemma answered_empty [intro]: "fresh ex \<Longrightarrow> answered ex (write_header 204 ex)"
  by (auto simp: answered_def write_header_def fresh_def empty_reply_def)

lemma answered_param [intro]: "fresh ex \<Longrightarrow> answered ex (param_error name err ex)"
  by (auto simp: answered_def param_error_def http_error_def write_typed_fresh param_reply_def)

lemma answered_body [intro]: "fresh ex \<Longrightarrow> answered ex (request_error err ex)"
  by (auto simp: answered_def request_error_def write_rfc7807_def write_typed_fresh problem_reply_def
      split: body_error.split)

lemma answered_visits:
  assumes "fresh ex"
  shows "answered ex (visit_create_vm (fst (create_vm V i spec w)) ex)"
    "answered ex (visit_list_vms (fst (list_vms V p w)) ex)"
    "answered ex (visit_get_vm (fst (get_vm V j w)) ex)"
    "answered ex (visit_delete_vm (fst (delete_vm V cx j w)) ex)"
    "answered ex (visit_create_cluster (fst (create_cluster V i cspec w)) ex)"
    "answered ex (visit_list_clusters (fst (list_clusters V p w)) ex)"
    "answered ex (visit_get_cluster (fst (get_cluster V j w)) ex)"
    "answered ex (visit_delete_cluster (fst (delete_cluster V cx j w)) ex)"
    "answered ex (visit_health R h ex)" "answered ex (visit_vm_health R h ex)"
    "answered ex (visit_cluster_health R h ex)"
  subgoal using create_vm_agrees [of V i spec w] assms by (cases "fst (create_vm V i spec w)") auto
  subgoal using list_vms_agrees [of V p w] assms by (cases "fst (list_vms V p w)") auto
  subgoal using get_vm_agrees [of V j w] assms by (cases "fst (get_vm V j w)") auto
  subgoal using delete_vm_agrees [of V cx j w] assms by (cases "fst (delete_vm V cx j w)") auto
  subgoal using create_cluster_agrees [of V i cspec w] assms by (cases "fst (create_cluster V i cspec w)") auto
  subgoal using list_clusters_agrees [of V p w] assms by (cases "fst (list_clusters V p w)") auto
  subgoal using get_cluster_agrees [of V j w] assms by (cases "fst (get_cluster V j w)") auto
  subgoal using delete_cluster_agrees [of V cx j w] assms by (cases "fst (delete_cluster V cx j w)") auto
  subgoal using assms by (cases h) auto
  subgoal using assms by (cases h) auto
  subgoal using assms by (cases h) auto
  done

lemmas siw_defs =
  siw_list_clusters_def siw_create_cluster_def siw_get_cluster_health_def siw_delete_cluster_def
  siw_get_cluster_def siw_get_health_def siw_list_vms_def siw_create_vm_def siw_get_vm_health_def
  siw_delete_vm_def siw_get_vm_def

lemmas sh_defs =
  sh_list_clusters_def sh_create_cluster_def sh_get_cluster_health_def sh_delete_cluster_def
  sh_get_cluster_def sh_get_health_def sh_list_vms_def sh_create_vm_def sh_get_vm_health_def
  sh_delete_vm_def sh_get_vm_def


definition demo_runtime :: Runtime where
  "demo_runtime =
     \<lparr>rt_bind_int = (\<lambda>_ _. Inr None), rt_bind_str = (\<lambda>_ _. Inr None), rt_bind_path = (\<lambda>_ v. Inr v),
      rt_float32 = (\<lambda>d. itoa d), rt_json_err = (\<lambda>_. ''EOF''), rt_scan_fails = (\<lambda>_. False)\<rparr>"


end
