(* ===== verification/Api_Codec.thy ===== *)
theory Api_Codec
  imports Router Sample
begin

text \<open>
  The JSON form of the resources read back: a VM or a cluster that the server writes, or a client
  sends, is decoded to the same resource. The maps of a resource (labels, hints, additional
  properties) are taken in the form in which they are listed here, each key once and in order.
\<close>

section \<open>Maps in order\<close>

definition ordered :: "(string \<times> 'a) list \<Rightarrow> bool" where
  "ordered ms \<longleftrightarrow> sorted (map fst ms) \<and> distinct (map fst ms)"

lemma ordered_unique:
  assumes "ordered xs" "sorted (map fst ys)" "distinct (map fst ys)" "set ys = set xs"
  shows "ys = xs"
proof (rule map_sorted_distinct_set_unique [of fst])
  show "inj_on fst (set ys \<union> set xs)" using assms(3,4) by (simp add: distinct_map)
qed (use assms in \<open>simp_all add: ordered_def\<close>)

lemma sort_ordered: "ordered xs \<Longrightarrow> set ys = set xs \<Longrightarrow> distinct (map fst ys) \<Longrightarrow> sort_key fst ys = xs"
  by (rule ordered_unique) (simp_all add: sorted_sort_key distinct_map)

lemma go_map_ordered: "ordered xs \<Longrightarrow> go_map xs = xs"
proof -
  assume o: "ordered xs"
  then have "distinct (map fst (rev xs))" by (simp add: ordered_def rev_map [symmetric])
  with sort_ordered [OF o, of "rev xs"] show ?thesis by (simp add: go_map_def)
qed

lemma map_json_ordered: "ordered xs \<Longrightarrow> map_json xs = JObj xs"
  using sort_ordered [of xs xs] by (simp add: map_json_def ordered_def)

lemma ordered_map: "ordered (map (\<lambda>(k, v). (k, f v)) xs) = ordered xs"
proof -
  have "map fst (map (\<lambda>(k, v). (k, f v)) xs) = map fst xs" by (induction xs) auto
  then show ?thesis by (simp only: ordered_def)
qed

text \<open>The object that \<open>MarshalJSON\<close> of a specification builds.\<close>

lemma map_set_new: "k \<notin> fst ` set m \<Longrightarrow> map_set k v m = m @ [(k, v)]"
  by (induction m) (auto simp: map_set_def)

lemma fold_map_set:
  assumes "distinct (map fst ms)" "fst ` set ms \<inter> fst ` set object = {}" "\<forall>(k, v) \<in> set ms. canon v = v"
  shows "fold (\<lambda>(k, v) m. map_set k (canon v) m) ms object = object @ ms"
  using assms
proof (induction ms arbitrary: object)
  case (Cons kv ms)
  obtain k v where kv: "kv = (k, v)" by force
  have "map_set k (canon v) object = object @ [(k, v)]"
    using Cons.prems(2,3) kv by (auto intro: map_set_new)
  then show ?case using Cons.IH [of "object @ [(k, v)]"] Cons.prems kv by auto
qed simp

section \<open>Members\<close>

lemma field_vals_append: "field_vals n (xs @ ys) = field_vals n xs @ field_vals n ys"
  by (simp add: field_vals_def)

lemma field_vals_opt:
  "field_vals n (opt_member k enc v) =
     (if equal_fold k n then (case v of None \<Rightarrow> [] | Some x \<Rightarrow> [enc x]) else [])"
  by (simp add: opt_member_def field_vals_def split: option.split)

lemma map_of_opt:
  "map_of (opt_member k enc v @ rest) n =
     (if n = k then (case v of None \<Rightarrow> map_of rest n | Some x \<Rightarrow> Some (enc x)) else map_of rest n)"
  by (simp add: opt_member_def split: option.split)

lemmas key_simps = equal_fold_def fold_case_ascii lower_char_def Let_def

lemma ptr_val_str: "ptr_val json_str None (case v of None \<Rightarrow> [] | Some x \<Rightarrow> [JStr x]) = Some v"
  by (simp split: option.split)

definition int64 :: "int option \<Rightarrow> bool" where
  "int64 v \<longleftrightarrow> (case v of None \<Rightarrow> True | Some i \<Rightarrow> min_int64 \<le> i \<and> i \<le> max_int64)"

lemma ptr_val_int: "int64 v \<Longrightarrow> ptr_val json_int None (case v of None \<Rightarrow> [] | Some x \<Rightarrow> [int_json x]) = Some v"
  by (auto simp: int64_def int_json_def atoi_itoa split: option.split)

text \<open>One lemma for each object of the schema.\<close>

fun obj_of :: "json \<Rightarrow> obj" where
  "obj_of (JObj ms) = ms"
| "obj_of _ = []"

lemma access_codec: "access_of (obj_of (access_json a)) = Some a"
  by (simp add: access_json_def access_of_def field_vals_opt key_simps ptr_val_str)

lemma guest_os_codec: "guest_os_of (obj_of (guest_os_json g)) = Some g"
  by (simp add: guest_os_json_def guest_os_of_def str_field_def field_vals_Cons key_simps)

lemma memory_codec: "memory_of (obj_of (memory_json m)) = Some m"
  by (simp add: memory_json_def memory_of_def str_field_def field_vals_Cons key_simps)

lemma labels_codec: "ordered ls \<Longrightarrow> labels_of (map (\<lambda>(k, v). (k, JStr v)) ls) = Some ls"
proof -
  have "decode_all (\<lambda>(k, v). map_option (Pair k) (str_or_null v)) (map (\<lambda>(k, v). (k, JStr v)) ls) = Some ls"
    by (induction ls) auto
  then show "ordered ls \<Longrightarrow> ?thesis" by (simp add: labels_of_def go_map_ordered)
qed

definition metadata_ok :: "ServiceMetadata \<Rightarrow> bool" where
  "metadata_ok m \<longleftrightarrow> (case sm_labels m of None \<Rightarrow> True | Some ls \<Rightarrow> ordered ls)"

lemma metadata_codec:
  assumes "metadata_ok m"
  shows "metadata_of (obj_of (metadata_json m)) = Some m"
proof (cases "sm_labels m")
  case None
  then show ?thesis
    by (simp add: metadata_json_def metadata_of_def ptr_struct_def str_field_def field_vals_append
        field_vals_opt field_vals_Cons key_simps)
next
  case (Some ls)
  then have "ordered ls" using assms by (simp add: metadata_ok_def)
  then have "map_json (map (\<lambda>(k, v). (k, JStr v)) ls) = JObj (map (\<lambda>(k, v). (k, JStr v)) ls)"
    by (intro map_json_ordered) (simp add: ordered_map)
  with Some labels_codec [OF \<open>ordered ls\<close>] show ?thesis
    by (simp add: metadata_json_def metadata_of_def ptr_struct_def str_field_def field_vals_append
        field_vals_opt field_vals_Cons key_simps)
qed

lemma disk_codec: "disk_of (disk_json d) = Some d"
  by (simp add: disk_json_def disk_of_def str_field_def field_vals_Cons key_simps)

lemma storage_codec: "storage_of (obj_of (storage_json s)) = Some s"
proof -
  have "decode_all disk_of (map disk_json ds) = Some ds" for ds
    by (induction ds) (simp_all add: disk_codec)
  then show ?thesis
    by (simp add: storage_json_def storage_of_def field_vals_opt key_simps split: option.split)
qed

lemma vcpu_codec: "int64 (vc_count v) \<Longrightarrow> vcpu_of (obj_of (vcpu_json v)) = Some v"
  by (simp add: vcpu_json_def vcpu_of_def field_vals_opt key_simps ptr_val_int)

lemma node_count_codec: "int64 (nc_count n) \<Longrightarrow> node_count_of (obj_of (node_count_json n)) = Some n"
  by (simp add: node_count_json_def node_count_of_def field_vals_opt key_simps ptr_val_int)

definition nodes_ok :: "Nodes \<Rightarrow> bool" where
  "nodes_ok n \<longleftrightarrow>
     int64 (Option.bind (no_control_plane n) nc_count) \<and> int64 (Option.bind (no_workers n) nc_count)"

lemma node_count_ptr:
  "int64 (Option.bind v nc_count) \<Longrightarrow>
   Option.bind (ptr_obj None (case v of None \<Rightarrow> [] | Some x \<Rightarrow> [node_count_json x])) (map_opt node_count_of) = Some v"
proof (cases v)
  case (Some x)
  assume "int64 (Option.bind v nc_count)"
  then have "node_count_of (obj_of (node_count_json x)) = Some x" using Some node_count_codec by simp
  then show ?thesis using Some by (simp add: node_count_json_def)
qed simp

lemma nodes_codec: "nodes_ok n \<Longrightarrow> nodes_spec_of (obj_of (nodes_json n)) = Some n"
  by (simp add: nodes_json_def nodes_spec_of_def ptr_struct_def field_vals_append field_vals_opt key_simps
      nodes_ok_def node_count_ptr)

section \<open>The specifications\<close>

text \<open>An object built from set members and additional properties, as it is written.\<close>

definition extras_ok :: "string list \<Rightarrow> obj \<Rightarrow> bool" where
  "extras_ok known ms \<longleftrightarrow>
     ordered ms \<and> (\<forall>(k, v) \<in> set ms. k \<notin> set known \<and> canon v = v)"

lemma written_object:
  assumes "extras_ok known ms" "distinct (map fst object)" "fst ` set object \<subseteq> set known"
  shows "map_json (fold (\<lambda>(k, v) m. map_set k (canon v) m) ms object) =
    JObj (sort_key fst (object @ ms))"
    and "k \<in> set known \<Longrightarrow> obj_get k (sort_key fst (object @ ms)) = map_of object k"
    and "leftover known (sort_key fst (object @ ms)) = ms"
proof -
  have o: "ordered ms" and d: "distinct (map fst ms)" and c: "\<forall>(k, v) \<in> set ms. canon v = v"
    and n: "\<forall>k \<in> fst ` set ms. k \<notin> set known"
    using assms(1) by (auto simp: extras_ok_def ordered_def)
  have dj: "fst ` set ms \<inter> fst ` set object = {}" using assms(3) n by blast
  then have dis: "distinct (map fst (object @ ms))" using assms(2) d by (simp add: Int_commute)
  with fold_map_set [OF d dj c] show "map_json (fold (\<lambda>(k, v) m. map_set k (canon v) m) ms object) =
    JObj (sort_key fst (object @ ms))"
    by (simp add: map_json_def)
  have ds: "distinct (map fst (sort_key fst (object @ ms)))"
    using dis by (simp only: distinct_map distinct_sort set_sort)
  have "map_of (rev (sort_key fst (object @ ms))) = map_of (object @ ms)"
    using dis ds by (subst map_of_inject_set) (simp_all add: rev_map [symmetric])
  moreover have "map_of ms k = None" if "k \<in> set known" using that n by (auto simp: map_of_eq_None_iff)
  ultimately show "obj_get k (sort_key fst (object @ ms)) = map_of object k" if "k \<in> set known"
    using that by (simp add: obj_get_def map_add_def split: option.split)
  have "filter (\<lambda>(k, v). k \<notin> set known) (sort_key fst (object @ ms)) =
      sort_key fst (filter (\<lambda>(k, v). k \<notin> set known) (object @ ms))"
    by (simp add: filter_sort)
  also have "filter (\<lambda>(k, v). k \<notin> set known) (object @ ms) = ms"
  proof -
    have "filter (\<lambda>(k, v). k \<notin> set known) object = []" using assms(3) by (auto simp: filter_empty_conv)
    moreover have "filter (\<lambda>(k, v). k \<notin> set known) ms = ms" using n by (auto simp: filter_id_conv)
    ultimately show ?thesis by simp
  qed
  also have "sort_key fst ms = ms" using sort_ordered [OF o] d by simp
  finally have f: "filter (\<lambda>(k, v). k \<notin> set known) (sort_key fst (object @ ms)) = ms" .
  have "map (\<lambda>(k, v). (k, canon v)) ms = ms" using c by (auto intro: map_idI)
  with f o show "leftover known (sort_key fst (object @ ms)) = ms"
    by (simp add: leftover_def go_map_ordered)
qed

definition vm_spec_ok :: "VMSpec \<Rightarrow> bool" where
  "vm_spec_ok s \<longleftrightarrow>
     (case vs_metadata s of None \<Rightarrow> True | Some m \<Rightarrow> metadata_ok m) \<and>
     int64 (Option.bind (vs_vcpu s) vc_count) \<and>
     (case vs_provider_hints s of None \<Rightarrow> True | Some h \<Rightarrow> canon (JObj h) = JObj h) \<and>
     extras_ok vm_spec_known (vs_additional s)"

definition cluster_spec_ok :: "ClusterSpec \<Rightarrow> bool" where
  "cluster_spec_ok s \<longleftrightarrow>
     (case cs_metadata s of None \<Rightarrow> True | Some m \<Rightarrow> metadata_ok m) \<and>
     (case cs_nodes s of None \<Rightarrow> True | Some n \<Rightarrow> nodes_ok n) \<and>
     (case cs_provider_hints s of None \<Rightarrow> True | Some h \<Rightarrow> canon (JObj h) = JObj h) \<and>
     extras_ok cluster_spec_known (cs_additional s)"

text \<open>A member that was written is read back.\<close>

lemma member_codec:
  assumes "obj_get name object = map_option enc v"
    and "\<And>x. v = Some x \<Longrightarrow> \<exists>ms. enc x = JObj ms \<and> f ms = Some x"
  shows "member name f object = Some v"
proof (cases v)
  case None
  then show ?thesis using assms(1) by (simp add: member_def)
next
  case (Some x)
  then obtain ms where "enc x = JObj ms" "f ms = Some x" using assms(2) by blast
  then show ?thesis using assms(1) Some by (simp add: member_def)
qed

lemma obj_shapes:
  "\<exists>ms. access_json a = JObj ms" "\<exists>ms. guest_os_json g = JObj ms" "\<exists>ms. memory_json m = JObj ms"
  "\<exists>ms. metadata_json md = JObj ms" "\<exists>ms. storage_json s = JObj ms" "\<exists>ms. vcpu_json v = JObj ms"
  "\<exists>ms. nodes_json n = JObj ms"
  by (simp_all add: access_json_def guest_os_json_def memory_json_def metadata_json_def storage_json_def
      vcpu_json_def nodes_json_def)

lemma shaped: "\<exists>ms. v = JObj ms \<Longrightarrow> f (obj_of v) = Some x \<Longrightarrow> \<exists>ms. v = JObj ms \<and> f ms = Some x"
  by auto

lemma hints_codec: "canon (JObj h) = JObj h \<Longrightarrow> hints_of h = Some h"
  by (simp add: hints_of_def)

lemma map_of_opt_last: "map_of (opt_member k enc v) n = (if n = k then map_option enc v else None)"
  by (simp add: opt_member_def split: option.split)

lemma opt_keys: "map fst (opt_member k enc v) = (case v of None \<Rightarrow> [] | Some x \<Rightarrow> [k])"
  by (simp add: opt_member_def split: option.split)

lemma vm_spec_codec:
  assumes "vm_spec_ok s"
  shows "vm_spec_of (vm_spec_json s) = Some s"
proof -
  let ?o = "opt_member ''access'' access_json (vs_access s)
        @ opt_member ''guest_os'' guest_os_json (vs_guest_os s)
        @ opt_member ''memory'' memory_json (vs_memory s)
        @ opt_member ''metadata'' metadata_json (vs_metadata s)
        @ opt_member ''provider_hints'' (\<lambda>h. canon (JObj h)) (vs_provider_hints s)
        @ [(''service_type'', JStr (vs_service_type s))]
        @ opt_member ''storage'' storage_json (vs_storage s)
        @ opt_member ''vcpu'' vcpu_json (vs_vcpu s)"
  let ?ob = "sort_key fst (?o @ vs_additional s)"
  have x: "extras_ok vm_spec_known (vs_additional s)" using assms by (simp add: vm_spec_ok_def)
  have d: "distinct (map fst ?o)" by (simp add: opt_keys split: option.split)
  have k: "fst ` set ?o \<subseteq> set vm_spec_known"
    by (auto simp: opt_member_def vm_spec_known_def split: option.splits)
  note wr = written_object [OF x d k]
  define ob where "ob = ?ob"
  have j: "vm_spec_json s = JObj ob" using wr(1) by (simp add: vm_spec_json_def Let_def ob_def)
  have g: "obj_get n ob = map_of ?o n" if "n \<in> set vm_spec_known" for n using wr(2) that by (simp add: ob_def)
  have l: "leftover vm_spec_known ob = vs_additional s" using wr(3) by (simp add: ob_def)
  note look = vm_spec_known_def map_of_opt map_of_opt_last
  have "obj_get ''access'' ob = map_option access_json (vs_access s)"
    using g [of "''access''"] by (simp add: look del: map_of_append canon.simps split: option.split)
  then have m1: "member ''access'' access_of ob = Some (vs_access s)"
    by (rule member_codec) (simp add: obj_shapes shaped access_codec)
  have "obj_get ''guest_os'' ob = map_option guest_os_json (vs_guest_os s)"
    using g [of "''guest_os''"] by (simp add: look del: map_of_append canon.simps split: option.split)
  then have m2: "member ''guest_os'' guest_os_of ob = Some (vs_guest_os s)"
    by (rule member_codec) (simp add: obj_shapes shaped guest_os_codec)
  have "obj_get ''memory'' ob = map_option memory_json (vs_memory s)"
    using g [of "''memory''"] by (simp add: look del: map_of_append canon.simps split: option.split)
  then have m3: "member ''memory'' memory_of ob = Some (vs_memory s)"
    by (rule member_codec) (simp add: obj_shapes shaped memory_codec)
  have "obj_get ''metadata'' ob = map_option metadata_json (vs_metadata s)"
    using g [of "''metadata''"] by (simp add: look del: map_of_append canon.simps split: option.split)
  then have m4: "member ''metadata'' metadata_of ob = Some (vs_metadata s)"
    by (rule member_codec) (use assms in \<open>simp add: obj_shapes shaped metadata_codec vm_spec_ok_def\<close>)
  have "obj_get ''provider_hints'' ob = map_option (\<lambda>h. canon (JObj h)) (vs_provider_hints s)"
    using g [of "''provider_hints''"] by (simp add: look del: map_of_append canon.simps split: option.split)
  then have m5: "member ''provider_hints'' hints_of ob = Some (vs_provider_hints s)"
    by (rule member_codec) (use assms in \<open>simp add: hints_codec vm_spec_ok_def del: canon.simps\<close>)
  have "obj_get ''storage'' ob = map_option storage_json (vs_storage s)"
    using g [of "''storage''"] by (simp add: look del: map_of_append canon.simps split: option.split)
  then have m6: "member ''storage'' storage_of ob = Some (vs_storage s)"
    by (rule member_codec) (simp add: obj_shapes shaped storage_codec)
  have "obj_get ''vcpu'' ob = map_option vcpu_json (vs_vcpu s)"
    using g [of "''vcpu''"] by (simp add: look del: map_of_append canon.simps split: option.split)
  then have m7: "member ''vcpu'' vcpu_of ob = Some (vs_vcpu s)"
    by (rule member_codec) (use assms in \<open>simp add: obj_shapes shaped vcpu_codec vm_spec_ok_def\<close>)
  have "obj_get ''service_type'' ob = Some (JStr (vs_service_type s))"
    using g [of "''service_type''"] by (simp add: look del: map_of_append canon.simps)
  then have m8: "str_member ''service_type'' ob = Some (vs_service_type s)" by (simp add: str_member_def)
  show ?thesis
    unfolding vm_spec_of_def j struct_of.simps option.case m1 m2 m3 m4 m5 m6 m7 m8 prod.case l by simp
qed

lemma cluster_spec_codec:
  assumes "cluster_spec_ok s"
  shows "cluster_spec_of (cluster_spec_json s) = Some s"
proof -
  let ?o = "opt_member ''metadata'' metadata_json (cs_metadata s)
        @ opt_member ''nodes'' nodes_json (cs_nodes s)
        @ opt_member ''provider_hints'' (\<lambda>h. canon (JObj h)) (cs_provider_hints s)
        @ [(''service_type'', JStr (cs_service_type s))]
        @ opt_member ''version'' JStr (cs_version s)"
  define ob where "ob = sort_key fst (?o @ cs_additional s)"
  have x: "extras_ok cluster_spec_known (cs_additional s)" using assms by (simp add: cluster_spec_ok_def)
  have d: "distinct (map fst ?o)" by (simp add: opt_keys split: option.split)
  have k: "fst ` set ?o \<subseteq> set cluster_spec_known"
    by (auto simp: opt_member_def cluster_spec_known_def split: option.splits)
  note wr = written_object [OF x d k]
  have j: "cluster_spec_json s = JObj ob" using wr(1) by (simp add: cluster_spec_json_def Let_def ob_def)
  have g: "obj_get n ob = map_of ?o n" if "n \<in> set cluster_spec_known" for n
    using wr(2) that by (simp add: ob_def)
  have l: "leftover cluster_spec_known ob = cs_additional s" using wr(3) by (simp add: ob_def)
  note look = cluster_spec_known_def map_of_opt map_of_opt_last
  have "obj_get ''metadata'' ob = map_option metadata_json (cs_metadata s)"
    using g [of "''metadata''"] by (simp add: look del: map_of_append canon.simps split: option.split)
  then have m1: "member ''metadata'' metadata_of ob = Some (cs_metadata s)"
    by (rule member_codec) (use assms in \<open>simp add: obj_shapes shaped metadata_codec cluster_spec_ok_def\<close>)
  have "obj_get ''nodes'' ob = map_option nodes_json (cs_nodes s)"
    using g [of "''nodes''"] by (simp add: look del: map_of_append canon.simps split: option.split)
  then have m2: "member ''nodes'' nodes_spec_of ob = Some (cs_nodes s)"
    by (rule member_codec) (use assms in \<open>simp add: obj_shapes shaped nodes_codec cluster_spec_ok_def\<close>)
  have "obj_get ''provider_hints'' ob = map_option (\<lambda>h. canon (JObj h)) (cs_provider_hints s)"
    using g [of "''provider_hints''"] by (simp add: look del: map_of_append canon.simps split: option.split)
  then have m3: "member ''provider_hints'' hints_of ob = Some (cs_provider_hints s)"
    by (rule member_codec) (use assms in \<open>simp add: hints_codec cluster_spec_ok_def del: canon.simps\<close>)
  have "obj_get ''service_type'' ob = Some (JStr (cs_service_type s))"
    using g [of "''service_type''"] by (simp add: look del: map_of_append canon.simps)
  then have m4: "str_member ''service_type'' ob = Some (cs_service_type s)" by (simp add: str_member_def)
  have "obj_get ''version'' ob = map_option JStr (cs_version s)"
    using g [of "''version''"] by (simp add: look del: map_of_append canon.simps)
  then have m5: "str_ptr_member ''version'' ob = Some (cs_version s)"
    by (simp add: str_ptr_member_def split: option.split)
  show ?thesis
    unfolding cluster_spec_of_def j struct_of.simps option.case m1 m2 m3 m4 m5 prod.case l by simp
qed

section \<open>The resources\<close>

lemma spec_shapes: "\<exists>ms. vm_spec_json s = JObj ms" "\<exists>ms. cluster_spec_json c = JObj ms"
  by (simp_all add: vm_spec_json_def cluster_spec_json_def map_json_def Let_def)

lemma decode_spec:
  "\<exists>ms. v = JObj ms \<Longrightarrow> decode_vals f x [v] = (case f v of None \<Rightarrow> None | Some y \<Rightarrow> Some y)"
  by (auto split: option.split)

lemma vm_codec:
  assumes "vm_spec_ok (vm_spec v)"
  shows "vm_of (vm_json v) = Some v"
  using vm_spec_codec [OF assms]
  by (simp add: vm_json_def vm_of_def field_vals_append field_vals_opt field_vals_Cons key_simps ptr_val_str
      decode_spec [OF spec_shapes(1)] del: decode_vals.simps)

lemma cluster_codec:
  assumes "cluster_spec_ok (cl_spec c)"
  shows "cluster_of (cluster_json c) = Some c"
  using cluster_spec_codec [OF assms]
  by (simp add: cluster_json_def cluster_of_def field_vals_append field_vals_opt field_vals_Cons key_simps
      ptr_val_str decode_spec [OF spec_shapes(2)] del: decode_vals.simps)


text \<open>A VM with labels, hints and an additional property.\<close>

definition demo_vm :: VM where
  "demo_vm =
     \<lparr>vm_id = Some ''vm-1'', vm_ip = None, vm_path = Some ''vms/vm-1'',
      vm_spec = demo_vm_spec\<lparr>vs_metadata := Some \<lparr>sm_labels = Some [(''env'', ''test'')], sm_name = ''web''\<rparr>,
        vs_vcpu := Some \<lparr>vc_count = Some 4\<rparr>,
        vs_provider_hints := Some [(''kcli'', JObj [(''pool'', JStr ''ssd'')])],
        vs_additional := [(''zone'', JStr ''a'')]\<rparr>,
      vm_ssh_user = None, vm_status = Some ''RUNNING''\<rparr>"


end
