(* ===== verification/Registration.thy ===== *)
theory Registration
  imports GoBase Json
begin

text \<open>
  The registration with the Service Provider Manager (internal/registration/registrar.go): the
  registrar, one attempt, the retry loop with its backoff, and the life of the background goroutine
  as a step relation.

  The SPM client and \<open>uuid.Parse\<close> are third-party code: an environment holds the two calls of the
  client on a state of its own, the parser (the canonical form, or the text of its error) and the
  verb \<open>%q\<close> of fmt. The two metrics are kept with the state of the client.
\<close>

section \<open>Data\<close>

record ProviderConfig =
  pr_id :: string
  pr_name :: string
  pr_display_name :: string
  pr_endpoint :: string
  pr_service_type :: string
  pr_schema_version :: string
  pr_operations :: "string list"
  pr_metadata :: "(string \<times> json) list"

text \<open>What is sent to SPM (\<open>spmv1alpha1.Provider\<close>): absent members are nil pointers.\<close>

record Provider =
  pv_name :: string
  pv_endpoint :: string
  pv_service_type :: string
  pv_schema_version :: string
  pv_display_name :: "string option"
  pv_operations :: "string list option"
  pv_metadata :: "(string \<times> json) list option"

text \<open>
  A response of the client: the status, the parsed documents where the client parsed them (nil
  otherwise), the ID inside a provider (which may be nil again) and the title inside a problem.
\<close>

record SpmResponse =
  sr_status :: int
  sr_json200 :: "string option option"
  sr_json201 :: "string option option"
  sr_problem400 :: "string option"
  sr_problem409 :: "string option"

record 'c SpmEnv =
  en_create :: "string \<Rightarrow> Provider \<Rightarrow> 'c \<Rightarrow> (string + SpmResponse) \<times> 'c"
  en_delete :: "string \<Rightarrow> 'c \<Rightarrow> (string + int) \<times> 'c"
  en_uuid :: "string \<Rightarrow> string + string"
  en_quote :: "string \<Rightarrow> string"

text \<open>\<open>sp_status\<close> and \<open>sp_attempts\<close> are \<open>RegistrationStatus\<close> and \<open>RegistrationAttemptsTotal\<close>.\<close>

record 'c Spm =
  sp_client :: 'c
  sp_status :: "string \<Rightarrow> int"
  sp_attempts :: "string \<Rightarrow> string \<Rightarrow> nat"

record Registrar =
  rg_cfg :: ProviderConfig
  rg_initial_backoff :: duration
  rg_max_backoff :: duration
  rg_started :: bool        \<comment> \<open>\<open>startOnce\<close> has run and \<open>cancel\<close> is set\<close>
  rg_cancelled :: bool
  rg_succeeded :: bool

definition set_initial_backoff :: "duration \<Rightarrow> Registrar \<Rightarrow> Registrar" where
  "set_initial_backoff d r = r\<lparr>rg_initial_backoff := d\<rparr>"

definition set_max_backoff :: "duration \<Rightarrow> Registrar \<Rightarrow> Registrar" where
  "set_max_backoff d r = r\<lparr>rg_max_backoff := d\<rparr>"

text \<open>\<open>client\<close> is the constructor of the SPM client.\<close>

definition new_registrar ::
  "(string \<Rightarrow> string + 'c) \<Rightarrow> string \<Rightarrow> ProviderConfig \<Rightarrow> (Registrar \<Rightarrow> Registrar) list \<Rightarrow>
   string + Registrar \<times> 'c" where
  "new_registrar client spm_url cfg opts =
     (case client spm_url of
        Inl err \<Rightarrow> Inl (''creating SPM client: '' @ err)
      | Inr c \<Rightarrow>
          Inr (fold (\<lambda>opt. opt) opts
                 \<lparr>rg_cfg = cfg, rg_initial_backoff = second, rg_max_backoff = 60 * second,
                  rg_started = False, rg_cancelled = False, rg_succeeded = False\<rparr>, c))"

definition registered :: "Registrar \<Rightarrow> bool" where
  "registered r = rg_succeeded r"

section \<open>One attempt\<close>

text \<open>The error carries whether it wraps \<open>errNonRetryable\<close>.\<close>

datatype attempt =
    AttemptOk
  | AttemptErr (fatal: bool) (err_text: string)
  | AttemptPanic

definition count_attempt :: "string \<Rightarrow> string \<Rightarrow> 'c Spm \<Rightarrow> 'c Spm" where
  "count_attempt name result w =
     w\<lparr>sp_attempts := (sp_attempts w)(name := (sp_attempts w name)(result := Suc (sp_attempts w name result)))\<rparr>"

definition set_status :: "string \<Rightarrow> int \<Rightarrow> 'c Spm \<Rightarrow> 'c Spm" where
  "set_status name v w = w\<lparr>sp_status := (sp_status w)(name := v)\<rparr>"

definition provider_of :: "ProviderConfig \<Rightarrow> Provider" where
  "provider_of cfg =
     \<lparr>pv_name = pr_name cfg, pv_endpoint = pr_endpoint cfg, pv_service_type = pr_service_type cfg,
      pv_schema_version = pr_schema_version cfg,
      pv_display_name = (if pr_display_name cfg \<noteq> '''' then Some (pr_display_name cfg) else None),
      pv_operations = (if pr_operations cfg \<noteq> [] then Some (pr_operations cfg) else None),
      pv_metadata = (if pr_metadata cfg \<noteq> [] then Some (pr_metadata cfg) else None)\<rparr>"

text \<open>The ID of the reply is dereferenced for the log before anything is recorded.\<close>

definition accepted ::
  "string option option \<Rightarrow> Registrar \<times> 'c Spm \<Rightarrow> attempt \<times> Registrar \<times> 'c Spm" where
  "accepted doc st =
     (case doc of
        Some (Some _) \<Rightarrow>
          (case st of
             (r, w) \<Rightarrow>
               (let name = pr_name (rg_cfg r) in
                (AttemptOk, r\<lparr>rg_succeeded := True\<rparr>, count_attempt name ''success'' (set_status name 1 w))))
      | _ \<Rightarrow> (AttemptPanic, st))"

text \<open>\<open>rejected\<close> is counted before the title is read.\<close>

definition refused ::
  "string \<Rightarrow> string option \<Rightarrow> Registrar \<times> 'c Spm \<Rightarrow> attempt \<times> Registrar \<times> 'c Spm" where
  "refused text problem st =
     (case st of
        (r, w) \<Rightarrow>
          (let w = count_attempt (pr_name (rg_cfg r)) ''rejected'' w in
           case problem of
             None \<Rightarrow> (AttemptPanic, r, w)
           | Some title \<Rightarrow> (AttemptErr True (text @ title @ '': non-retryable''), r, w)))"

definition register ::
  "'c SpmEnv \<Rightarrow> Registrar \<times> 'c Spm \<Rightarrow> attempt \<times> Registrar \<times> 'c Spm" where
  "register E st =
     (case st of
        (r, w) \<Rightarrow>
          (let cfg = rg_cfg r; name = pr_name cfg in
           case en_uuid E (pr_id cfg) of
             Inl err \<Rightarrow>
               (AttemptErr True (''invalid provider ID '' @ en_quote E (pr_id cfg) @ '': '' @ err @ '': non-retryable''),
                r, count_attempt name ''rejected'' w)
           | Inr provider_id \<Rightarrow>
               (case en_create E provider_id (provider_of cfg) (sp_client w) of
                  (Inl err, c) \<Rightarrow>
                    (AttemptErr False (''failed to register provider: '' @ err), r,
                     count_attempt name ''error'' (w\<lparr>sp_client := c\<rparr>))
                | (Inr resp, c) \<Rightarrow>
                    (let w = w\<lparr>sp_client := c\<rparr>; sc = sr_status resp in
                     if sc = 201 then accepted (sr_json201 resp) (r, w)
                     else if sc = 200 then accepted (sr_json200 resp) (r, w)
                     else if sc = 409 then refused ''conflict registering provider: '' (sr_problem409 resp) (r, w)
                     else if sc = 400 then refused ''validation error: '' (sr_problem400 resp) (r, w)
                     else if 400 \<le> sc \<and> sc < 500 then
                       (AttemptErr True
                          (''registration returned non-retryable status '' @ itoa sc @ '': non-retryable''), r,
                        count_attempt name ''rejected'' w)
                     else
                       (AttemptErr False (''unexpected response status: '' @ itoa sc), r,
                        count_attempt name ''error'' w)))))"

definition deregister :: "'c SpmEnv \<Rightarrow> Registrar \<times> 'c Spm \<Rightarrow> Registrar \<times> 'c Spm" where
  "deregister E st =
     (case st of
        (r, w) \<Rightarrow>
          (case en_uuid E (pr_id (rg_cfg r)) of
             Inl _ \<Rightarrow> (r, w)
           | Inr provider_id \<Rightarrow>
               (case en_delete E provider_id (sp_client w) of
                  (Inl _, c) \<Rightarrow> (r, w\<lparr>sp_client := c\<rparr>)
                | (Inr sc, c) \<Rightarrow>
                    (if 200 \<le> sc \<and> sc < 300 then
                       (r, set_status (pr_name (rg_cfg r)) 0 (w\<lparr>sp_client := c\<rparr>))
                     else (r, w\<lparr>sp_client := c\<rparr>)))))"

section \<open>The retry loop\<close>

definition next_backoff :: "duration \<Rightarrow> duration \<Rightarrow> duration" where
  "next_backoff max_backoff backoff =
     (let backoff = wrap64 (backoff * 2) in if max_backoff < backoff then max_backoff else backoff)"

datatype run_end = Succeeded | GaveUp | Cancelled | Crashed

text \<open>
  \<open>run\<close>, with \<open>fuel\<close> attempts at most: how it ended and how long it waited between the attempts.
  \<open>ended k\<close> says whether the context ended the wait after the k-th attempt.
\<close>

fun run_loop ::
  "'c SpmEnv \<Rightarrow> (nat \<Rightarrow> bool) \<Rightarrow> nat \<Rightarrow> nat \<Rightarrow> duration \<Rightarrow> Registrar \<times> 'c Spm \<Rightarrow>
   (run_end \<times> duration list \<times> Registrar \<times> 'c Spm) option" where
  "run_loop E ended 0 k backoff st = None"
| "run_loop E ended (Suc fuel) k backoff st =
     (case register E st of
        (AttemptOk, st) \<Rightarrow> Some (Succeeded, [], st)
      | (AttemptPanic, st) \<Rightarrow> Some (Crashed, [], st)
      | (AttemptErr non_retryable _, st) \<Rightarrow>
          (if non_retryable then Some (GaveUp, [], st)
           else if ended k then Some (Cancelled, [backoff], st)
           else
             (case run_loop E ended fuel (Suc k) (next_backoff (rg_max_backoff (fst st)) backoff) st of
                None \<Rightarrow> None
              | Some (e, waits, st) \<Rightarrow> Some (e, backoff # waits, st))))"

definition reg_run ::
  "'c SpmEnv \<Rightarrow> (nat \<Rightarrow> bool) \<Rightarrow> nat \<Rightarrow> Registrar \<times> 'c Spm \<Rightarrow>
   (run_end \<times> duration list \<times> Registrar \<times> 'c Spm) option" where
  "reg_run E ended fuel st = run_loop E ended fuel 0 (rg_initial_backoff (fst st)) st"

section \<open>The goroutine\<close>

text \<open>Where the goroutine of \<open>StartBackground\<close> is. \<open>done\<close> is closed when it is \<open>Exited\<close>.\<close>

datatype thread = NotStarted | Attempting duration | Waiting duration | Exited | Dead

type_synonym 'c life = "thread \<times> Registrar \<times> 'c Spm"

definition start_background :: "'c life \<Rightarrow> 'c life" where
  "start_background s =
     (case s of
        (th, r, w) \<Rightarrow>
          if rg_started r then s
          else (Attempting (rg_initial_backoff r), r\<lparr>rg_started := True\<rparr>, w))"

text \<open>\<open>Stop\<close> cancels when there is something to cancel, and returns when \<open>done\<close> is closed.\<close>

definition stop_request :: "'c life \<Rightarrow> 'c life" where
  "stop_request s =
     (case s of (th, r, w) \<Rightarrow> (th, if rg_started r then r\<lparr>rg_cancelled := True\<rparr> else r, w))"

definition stop_returns :: "'c life \<Rightarrow> bool" where
  "stop_returns s = (fst s = Exited)"

definition attempt_step :: "'c SpmEnv \<Rightarrow> duration \<Rightarrow> Registrar \<times> 'c Spm \<Rightarrow> 'c life" where
  "attempt_step E backoff st =
     (case register E st of
        (AttemptOk, st) \<Rightarrow> (Exited, st)
      | (AttemptPanic, st) \<Rightarrow> (Dead, st)
      | (AttemptErr non_retryable _, st) \<Rightarrow> (if non_retryable then Exited else Waiting backoff, st))"

inductive life_step :: "'c SpmEnv \<Rightarrow> 'c life \<Rightarrow> 'c life \<Rightarrow> bool" for E where
  start: "life_step E s (start_background s)"
| attempt: "life_step E (Attempting backoff, st) (attempt_step E backoff st)"
| timer: "life_step E (Waiting backoff, r, w) (Attempting (next_backoff (rg_max_backoff r) backoff), r, w)"
| ctx_done: "rg_cancelled r \<Longrightarrow> life_step E (Waiting backoff, r, w) (Exited, r, w)"
| stop: "life_step E s (stop_request s)"
| leave: "life_step E (th, st) (th, deregister E st)"

text \<open>The parent context of the goroutine is the background context, so only \<open>Stop\<close> cancels.\<close>

abbreviation life_steps :: "'c SpmEnv \<Rightarrow> 'c life \<Rightarrow> 'c life \<Rightarrow> bool" where
  "life_steps E \<equiv> (life_step E)\<^sup>*\<^sup>*"

inductive_cases exited_stepE: "life_step E (Exited, st) s'"

end
