(* ===== verification/Config.thy ===== *)
theory Config
  imports GoBase
begin

text \<open>
  The configuration (internal/config/config.go): \<open>time.ParseDuration\<close>, the settings with their
  defaults, and \<open>Load\<close> with its checks in their order.

  \<open>getenv\<close> stands for \<open>os.Getenv\<close>, which gives the empty string for a variable that is not set. The
  verb \<open>%q\<close> of fmt, the quoting of package time and the float64 arithmetic with which \<open>ParseDuration\<close> takes the nanoseconds of a
  decimal fraction are fields of a record of library functions: \<open>lf_fraction f k unit\<close> is the number
  of nanoseconds in \<open>f / 10 ^ k\<close> units.
\<close>

record lib_funs =
  lf_quote :: "string \<Rightarrow> string"
  lf_time_quote :: "string \<Rightarrow> string"
  lf_fraction :: "nat \<Rightarrow> nat \<Rightarrow> nat \<Rightarrow> nat"

section \<open>Durations\<close>

definition unit_map :: "string \<Rightarrow> nat option" where
  "unit_map =
     map_of [(''ns'', 1), (''us'', 1000), ([CHR 0xC2, CHR 0xB5] @ ''s'', 1000),
       ([CHR 0xCE, CHR 0xBC] @ ''s'', 1000), (''ms'', 1000000), (''s'', 1000000000),
       (''m'', 60000000000), (''h'', 3600000000000)]"

text \<open>\<open>leadingInt\<close>: None is the overflow error.\<close>

fun leading_int :: "nat \<Rightarrow> string \<Rightarrow> (nat \<times> string) option" where
  "leading_int x [] = Some (x, [])"
| "leading_int x (c # s) =
     (if \<not> is_digit c then Some (x, c # s)
      else if 2 ^ 63 div 10 < x then None
      else if 2 ^ 63 < x * 10 + digit_val c then None
      else leading_int (x * 10 + digit_val c) s)"

text \<open>\<open>leadingFraction\<close>: digits that do not fit are read and dropped; \<open>k\<close> counts those kept.\<close>

fun leading_fraction :: "nat \<Rightarrow> nat \<Rightarrow> bool \<Rightarrow> string \<Rightarrow> nat \<times> nat \<times> string" where
  "leading_fraction x k overflow [] = (x, k, [])"
| "leading_fraction x k overflow (c # s) =
     (if \<not> is_digit c then (x, k, c # s)
      else if overflow then leading_fraction x k True s
      else if (2 ^ 63 - 1) div 10 < x then leading_fraction x k True s
      else if 2 ^ 63 < x * 10 + digit_val c then leading_fraction x k True s
      else leading_fraction (x * 10 + digit_val c) (Suc k) False s)"

lemma leading_int_length: "leading_int x s = Some (v, r) \<Longrightarrow> length r \<le> length s"
  by (induction x s rule: leading_int.induct) (auto split: if_splits)

lemma leading_fraction_length: "leading_fraction x k b s = (v, k', r) \<Longrightarrow> length r \<le> length s"
  by (induction x k b s rule: leading_fraction.induct) (auto split: if_splits)

definition is_unit_char :: "char \<Rightarrow> bool" where
  "is_unit_char c \<longleftrightarrow> c \<noteq> CHR ''.'' \<and> \<not> is_digit c"

text \<open>One number with its unit; the value in nanoseconds (an unsigned 64-bit integer) and the rest.\<close>

definition parse_component :: "lib_funs \<Rightarrow> string \<Rightarrow> string \<Rightarrow> string + nat \<times> string" where
  "parse_component L orig s =
     (let invalid = Inl (''time: invalid duration '' @ lf_time_quote L orig) in
      if \<not> (take 1 s = ''.'' \<or> (s \<noteq> [] \<and> is_digit (hd s))) then invalid
      else
        (case leading_int 0 s of
           None \<Rightarrow> invalid
         | Some (v, s1) \<Rightarrow>
             (let pre = length s \<noteq> length s1;
                  (f, k, post, s2) =
                    (if take 1 s1 = ''.'' then
                       (case leading_fraction 0 0 False (tl s1) of
                          (f, k, s2) \<Rightarrow> (f, k, length (tl s1) \<noteq> length s2, s2))
                     else (0, 0, False, s1)) in
              if \<not> pre \<and> \<not> post then invalid
              else
                (let u = takeWhile is_unit_char s2; s3 = dropWhile is_unit_char s2 in
                 if u = [] then Inl (''time: missing unit in duration '' @ lf_time_quote L orig)
                 else
                   (case unit_map u of
                      None \<Rightarrow>
                        Inl (''time: unknown unit '' @ lf_time_quote L u @ '' in duration '' @ lf_time_quote L orig)
                    | Some ns \<Rightarrow>
                        (if 2 ^ 63 div ns < v then invalid
                         else
                           (let v = (if 0 < f then (v * ns + lf_fraction L f k ns) mod 2 ^ 64 else v * ns) in
                            if 0 < f \<and> 2 ^ 63 < v then invalid else Inr (v, s3))))))))"

lemma parse_component_shorter:
  assumes "parse_component L orig s = Inr (v, r)"
  shows "length r < length s"
proof -
  obtain x s1 where i: "leading_int 0 s = Some (x, s1)"
    using assms by (auto simp: parse_component_def Let_def split: if_splits option.splits)
  define s2 where "s2 = (if take 1 s1 = ''.'' then snd (snd (leading_fraction 0 0 False (tl s1))) else s1)"
  have r: "r = dropWhile is_unit_char s2" and u: "takeWhile is_unit_char s2 \<noteq> []"
    using assms i by (auto simp: parse_component_def Let_def s2_def case_prod_unfold split: if_splits option.splits)
  obtain v' k' t where f: "leading_fraction 0 0 False (tl s1) = (v', k', t)" by (metis prod_cases3)
  have "length t \<le> length (tl s1)" by (rule leading_fraction_length [OF f])
  then have "length s2 \<le> length s1" by (auto simp: s2_def f)
  moreover have "length s1 \<le> length s" by (rule leading_int_length [OF i])
  moreover have "length s2 = length (takeWhile is_unit_char s2) + length r"
    by (metis length_append r takeWhile_dropWhile_id)
  ultimately show ?thesis using u by (cases "takeWhile is_unit_char s2") auto
qed

function parse_components :: "lib_funs \<Rightarrow> string \<Rightarrow> nat \<Rightarrow> string \<Rightarrow> string + nat" where
  "parse_components L orig d s =
     (if s = [] then Inr d
      else
        (case parse_component L orig s of
           Inl err \<Rightarrow> Inl err
         | Inr (v, r) \<Rightarrow>
             (let d = (d + v) mod 2 ^ 64 in
              if 2 ^ 63 < d then Inl (''time: invalid duration '' @ lf_time_quote L orig)
              else parse_components L orig d r)))"
  by pat_completeness auto
termination
  by (relation "measure (\<lambda>(L, orig, d, s). length s)") (auto dest: parse_component_shorter)

declare parse_components.simps [simp del]

definition parse_duration :: "lib_funs \<Rightarrow> string \<Rightarrow> string + duration" where
  "parse_duration L orig =
     (let neg = (take 1 orig = ''-'');
          s = (if take 1 orig = ''-'' \<or> take 1 orig = ''+'' then tl orig else orig) in
      if s = ''0'' then Inr 0
      else if s = '''' then Inl (''time: invalid duration '' @ lf_time_quote L orig)
      else
        (case parse_components L orig 0 s of
           Inl err \<Rightarrow> Inl err
         | Inr d \<Rightarrow>
             (if neg then Inr (wrap64 (- int d))
              else if 2 ^ 63 - 1 < d then Inl (''time: invalid duration '' @ lf_time_quote L orig)
              else Inr (int d))))"

section \<open>Settings\<close>

record Config =
  cf_listen_address :: string
  cf_kweb_url :: string
  cf_spm_url :: string
  cf_nats_url :: string
  cf_provider_id_vm :: string
  cf_provider_id_cluster :: string
  cf_provider_name_vm :: string
  cf_provider_name_cluster :: string
  cf_schema_version :: string
  cf_poll_interval :: duration
  cf_debounce_window :: duration
  cf_state_store_path :: string
  cf_log_level :: string
  cf_shutdown_timeout :: duration
  cf_read_timeout :: duration
  cf_write_timeout :: duration
  cf_idle_timeout :: duration
  cf_request_timeout :: duration
  cf_kweb_timeout :: duration
  cf_cluster_create_timeout :: duration

definition env_or_default :: "(string \<Rightarrow> string) \<Rightarrow> string \<Rightarrow> string \<Rightarrow> string" where
  "env_or_default getenv key fallback = (let v = getenv key in if v \<noteq> '''' then v else fallback)"

definition parse_duration_env ::
  "lib_funs \<Rightarrow> (string \<Rightarrow> string) \<Rightarrow> string \<Rightarrow> string \<Rightarrow> string + duration" where
  "parse_duration_env L getenv env_key fallback =
     (let raw = env_or_default getenv env_key fallback in
      case parse_duration L raw of
        Inl err \<Rightarrow> Inl (''invalid duration for '' @ env_key @ '': '' @ lf_quote L raw @ '': '' @ err)
      | Inr d \<Rightarrow> Inr d)"

text \<open>The durations are read one after the other; the first that is invalid is reported.\<close>

definition load :: "lib_funs \<Rightarrow> (string \<Rightarrow> string) \<Rightarrow> string + Config" where
  "load L getenv =
     (let kweb_url = getenv ''KWEB_URL''; spm_url = getenv ''SPM_URL''; dur = parse_duration_env L getenv in
      if kweb_url = '''' then Inl ''KWEB_URL is required''
      else if spm_url = '''' then Inl ''SPM_URL is required''
      else
        and_then (dur ''POLL_INTERVAL'' ''30s'') (\<lambda>poll_interval.
        and_then (dur ''DEBOUNCE_WINDOW'' ''5s'') (\<lambda>debounce_window.
        and_then (dur ''SHUTDOWN_TIMEOUT'' ''10s'') (\<lambda>shutdown_timeout.
        and_then (dur ''READ_TIMEOUT'' ''15s'') (\<lambda>read_timeout.
        and_then (dur ''WRITE_TIMEOUT'' ''60s'') (\<lambda>write_timeout.
        and_then (dur ''IDLE_TIMEOUT'' ''60s'') (\<lambda>idle_timeout.
        and_then (dur ''REQUEST_TIMEOUT'' ''45s'') (\<lambda>request_timeout.
        and_then (dur ''KWEB_TIMEOUT'' ''120s'') (\<lambda>kweb_timeout.
        and_then (dur ''CLUSTER_CREATE_TIMEOUT'' ''30m'') (\<lambda>cluster_create_timeout.
          Inr \<lparr>cf_listen_address = env_or_default getenv ''LISTEN_ADDRESS'' '':8080'',
               cf_kweb_url = kweb_url, cf_spm_url = spm_url, cf_nats_url = getenv ''NATS_URL'',
               cf_provider_id_vm = env_or_default getenv ''PROVIDER_ID_VM'' '''',
               cf_provider_id_cluster = env_or_default getenv ''PROVIDER_ID_CLUSTER'' '''',
               cf_provider_name_vm = env_or_default getenv ''PROVIDER_NAME_VM'' ''kcli-vm'',
               cf_provider_name_cluster = env_or_default getenv ''PROVIDER_NAME_CLUSTER'' ''kcli-cluster'',
               cf_schema_version = env_or_default getenv ''SCHEMA_VERSION'' ''v1alpha1'',
               cf_poll_interval = poll_interval, cf_debounce_window = debounce_window,
               cf_state_store_path = env_or_default getenv ''STATE_STORE_PATH'' ''/data/state.db'',
               cf_log_level = env_or_default getenv ''LOG_LEVEL'' ''info'',
               cf_shutdown_timeout = shutdown_timeout, cf_read_timeout = read_timeout,
               cf_write_timeout = write_timeout, cf_idle_timeout = idle_timeout,
               cf_request_timeout = request_timeout, cf_kweb_timeout = kweb_timeout,
               cf_cluster_create_timeout = cluster_create_timeout\<rparr>))))))))))"

section \<open>Which durations are read\<close>

lemma leading_int_digits:
  assumes "list_all is_digit ds" "rest = [] \<or> \<not> is_digit (hd rest)" "x \<le> 2 ^ 63"
  shows "leading_int x (ds @ rest) =
    (let v = foldl (\<lambda>a c. 10 * a + digit_val c) x ds in if v \<le> 2 ^ 63 then Some (v, rest) else None)"
  using assms(1,3)
proof (induction ds arbitrary: x)
  case Nil
  then show ?case using assms(2) by (cases rest) auto
next
  case (Cons c ds)
  let ?y = "10 * x + digit_val c"
  have grows: "y \<le> foldl (\<lambda>a c. 10 * a + digit_val c) y ds" for y
  proof (induction ds arbitrary: y)
    case (Cons a ds)
    have "y \<le> 10 * y + digit_val a" by simp
    also have "\<dots> \<le> foldl (\<lambda>a c. 10 * a + digit_val c) (10 * y + digit_val a) ds" by (rule Cons)
    finally show ?case by simp
  qed simp
  show ?case
  proof (cases "?y \<le> 2 ^ 63")
    case True
    with Cons show ?thesis by (simp add: mult.commute)
  next
    case False
    then have "\<not> foldl (\<lambda>a c. 10 * a + digit_val c) ?y ds \<le> 2 ^ 63" using grows [of ?y] by linarith
    with False Cons.prems show ?thesis by (simp add: mult.commute)
  qed
qed

lemma leading_int_nat_str:
  assumes "rest = [] \<or> \<not> is_digit (hd rest)"
  shows "leading_int 0 (nat_str n @ rest) = (if n \<le> 2 ^ 63 then Some (n, rest) else None)"
  using leading_int_digits [OF nat_str_digits assms, of 0 n] digits_val_nat_str [of n]
  by (simp add: digits_val_def Let_def)

text \<open>The units, as they are written.\<close>

definition duration_units :: "(string \<times> nat) list" where
  "duration_units =
     [(''ns'', 1), (''us'', 1000), (''ms'', 1000000), (''s'', 1000000000), (''m'', 60000000000),
      (''h'', 3600000000000)]"

lemma units_split:
  assumes "(u, ns) \<in> set duration_units"
  shows "takeWhile is_unit_char u = u" "dropWhile is_unit_char u = []" "unit_map u = Some ns" "u \<noteq> []"
    "\<not> is_digit (hd u)" "take 1 u \<noteq> ''.''" "0 < ns"
  using assms by (auto simp: duration_units_def is_unit_char_def is_digit_def unit_map_def)

lemma parse_component_int:
  assumes "(u, ns) \<in> set duration_units"
  shows "parse_component L orig (nat_str n @ u) =
    (if n * ns \<le> 2 ^ 63 then Inr (n * ns, []) else Inl (''time: invalid duration '' @ lf_time_quote L orig))"
proof -
  note u = units_split [OF assms]
  have i: "leading_int 0 (nat_str n @ u) = (if n \<le> 2 ^ 63 then Some (n, u) else None)"
    using u(5) by (intro leading_int_nat_str) simp
  have t: "take (Suc 0) u \<noteq> ''.''" using u(6) by simp
  have b: "2 ^ 63 div ns < n \<longleftrightarrow> \<not> n * ns \<le> 2 ^ 63"
    using u(7) by (simp add: div_less_iff_less_mult not_le)
  have "n * 1 \<le> n * ns" using u(7) by (intro mult_le_mono2) simp
  then have "n \<le> 2 ^ 63" if "n * ns \<le> 2 ^ 63" using that by linarith
  then show ?thesis
    by (cases "n * ns \<le> 2 ^ 63") (simp_all add: parse_component_def i Let_def b [simplified] nat_str_hd_digit u(1-5) t)
qed

lemma parse_duration_int:
  assumes "(u, ns) \<in> set duration_units"
  shows "parse_duration L (nat_str n @ u) =
    (if int n * int ns \<le> max_int64 then Inr (int n * int ns)
     else Inl (''time: invalid duration '' @ lf_time_quote L (nat_str n @ u)))"
proof -
  let ?s = "nat_str n @ u"
  have t: "take 1 ?s \<noteq> ''-''" "take 1 ?s \<noteq> ''+''" 
    using take1_nat_str [of n] by (cases "nat_str n"; simp)+
  have z: "?s \<noteq> ''0''" "?s \<noteq> []"
    using units_split(4) [OF assms] by (auto simp: append_eq_Cons_conv)
  have i: "int n * int ns \<le> max_int64 \<longleftrightarrow> n * ns \<le> 2 ^ 63 - 1"
    unfolding max_int64_def by (simp flip: of_nat_mult)
  have "parse_components L ?s 0 ?s =
    (if n * ns \<le> 2 ^ 63 then Inr (n * ns) else Inl (''time: invalid duration '' @ lf_time_quote L ?s))"
    using z(2) by (subst parse_components.simps) (simp add: parse_component_int [OF assms] parse_components.simps [of _ _ _ "[]"] Let_def)
  then show ?thesis using t z unfolding i by (auto simp: parse_duration_def Let_def)
qed

definition demo_funs :: lib_funs where
  "demo_funs = \<lparr>lf_quote = id, lf_time_quote = id, lf_fraction = (\<lambda>f k unit. f * unit div 10 ^ k)\<rparr>"

text \<open>
  A duration setting that is written as a number and a unit is read as that many nanoseconds;
  one that does not fit an int64 is refused with an error that names the variable, never wrapped.
\<close>

theorem duration_value:
  assumes "(u, ns) \<in> set duration_units" "env_or_default getenv key fallback = nat_str n @ u"
  shows "parse_duration_env L getenv key fallback =
    (if int n * int ns \<le> max_int64 then Inr (int n * int ns)
     else Inl (''invalid duration for '' @ key @ '': '' @ lf_quote L (nat_str n @ u) @
       '': time: invalid duration '' @ lf_time_quote L (nat_str n @ u)))"
  using parse_duration_int [OF assms(1), of L n] by (simp add: parse_duration_env_def assms(2) Let_def)

theorem duration_value_witness:
  "parse_duration_env demo_funs (\<lambda>_. '''') ''POLL_INTERVAL'' (nat_str 30 @ ''s'') = Inr (30 * second)"
  using duration_value [of "''s''" 1000000000 "\<lambda>_. ''''" "''POLL_INTERVAL''" "nat_str 30 @ ''s''" 30 demo_funs]
  by (simp add: duration_units_def env_or_default_def max_int64_def second_def Let_def)

section \<open>What is loaded\<close>

text \<open>The durations of the configuration, in the order they are read, with their defaults.\<close>

definition duration_settings :: "(string \<times> string \<times> (Config \<Rightarrow> duration)) list" where
  "duration_settings =
     [(''POLL_INTERVAL'', ''30s'', cf_poll_interval), (''DEBOUNCE_WINDOW'', ''5s'', cf_debounce_window),
      (''SHUTDOWN_TIMEOUT'', ''10s'', cf_shutdown_timeout), (''READ_TIMEOUT'', ''15s'', cf_read_timeout),
      (''WRITE_TIMEOUT'', ''60s'', cf_write_timeout), (''IDLE_TIMEOUT'', ''60s'', cf_idle_timeout),
      (''REQUEST_TIMEOUT'', ''45s'', cf_request_timeout), (''KWEB_TIMEOUT'', ''120s'', cf_kweb_timeout),
      (''CLUSTER_CREATE_TIMEOUT'', ''30m'', cf_cluster_create_timeout)]"

definition string_settings :: "(string \<times> string \<times> (Config \<Rightarrow> string)) list" where
  "string_settings =
     [(''LISTEN_ADDRESS'', '':8080'', cf_listen_address), (''KWEB_URL'', '''', cf_kweb_url),
      (''SPM_URL'', '''', cf_spm_url), (''NATS_URL'', '''', cf_nats_url),
      (''PROVIDER_ID_VM'', '''', cf_provider_id_vm), (''PROVIDER_ID_CLUSTER'', '''', cf_provider_id_cluster),
      (''PROVIDER_NAME_VM'', ''kcli-vm'', cf_provider_name_vm),
      (''PROVIDER_NAME_CLUSTER'', ''kcli-cluster'', cf_provider_name_cluster),
      (''SCHEMA_VERSION'', ''v1alpha1'', cf_schema_version),
      (''STATE_STORE_PATH'', ''/data/state.db'', cf_state_store_path), (''LOG_LEVEL'', ''info'', cf_log_level)]"

lemma env_no_default: "env_or_default getenv key '''' = getenv key"
  by (simp add: env_or_default_def Let_def)

lemma parse_duration_env_Inr:
  "parse_duration_env L getenv key fallback = Inr d \<longleftrightarrow>
   parse_duration L (env_or_default getenv key fallback) = Inr d"
  by (simp add: parse_duration_env_def Let_def split: sum.split)

text \<open>
  C28: When a configuration is loaded, and which one: both URLs must be set and every duration must
  parse, each setting being its variable, or its default where that is empty or not set.
\<close>

theorem config_loaded:
  "load L getenv = Inr c \<longleftrightarrow>
     getenv ''KWEB_URL'' \<noteq> '''' \<and> getenv ''SPM_URL'' \<noteq> '''' \<and>
     (\<forall>(key, fallback, field) \<in> set duration_settings.
        parse_duration L (env_or_default getenv key fallback) = Inr (field c)) \<and>
     (\<forall>(key, fallback, field) \<in> set string_settings. field c = env_or_default getenv key fallback)"
proof (cases "getenv ''KWEB_URL'' = '''' \<or> getenv ''SPM_URL'' = ''''")
  case True
  then show ?thesis by (auto simp: load_def Let_def)
next
  case False
  then show ?thesis
    by (auto simp: load_def Let_def and_then_Inr parse_duration_env_Inr duration_settings_def string_settings_def
        env_no_default)
qed

text \<open>An environment with the two URLs and nothing else.\<close>

definition demo_env :: "string \<Rightarrow> string" where
  "demo_env key =
     (if key = ''KWEB_URL'' then ''http://kweb:9000'' else if key = ''SPM_URL'' then ''http://spm:8080'' else '''')"

definition demo_config :: Config where
  "demo_config =
     \<lparr>cf_listen_address = '':8080'', cf_kweb_url = ''http://kweb:9000'', cf_spm_url = ''http://spm:8080'',
      cf_nats_url = '''', cf_provider_id_vm = '''', cf_provider_id_cluster = '''',
      cf_provider_name_vm = ''kcli-vm'', cf_provider_name_cluster = ''kcli-cluster'',
      cf_schema_version = ''v1alpha1'', cf_poll_interval = 30 * second, cf_debounce_window = 5 * second,
      cf_state_store_path = ''/data/state.db'', cf_log_level = ''info'', cf_shutdown_timeout = 10 * second,
      cf_read_timeout = 15 * second, cf_write_timeout = minute, cf_idle_timeout = minute,
      cf_request_timeout = 45 * second, cf_kweb_timeout = 2 * minute, cf_cluster_create_timeout = 30 * minute\<rparr>"

lemma demo_numbers:
  "nat_str 30 = ''30''" "nat_str 5 = ''5''" "nat_str 10 = ''10''" "nat_str 15 = ''15''" "nat_str 60 = ''60''"
  "nat_str 45 = ''45''" "nat_str 120 = ''120''"
  by code_simp+

lemma demo_durations:
  "parse_duration demo_funs ''30s'' = Inr (30 * second)" "parse_duration demo_funs ''5s'' = Inr (5 * second)"
  "parse_duration demo_funs ''10s'' = Inr (10 * second)" "parse_duration demo_funs ''15s'' = Inr (15 * second)"
  "parse_duration demo_funs ''60s'' = Inr minute" "parse_duration demo_funs ''45s'' = Inr (45 * second)"
  "parse_duration demo_funs ''120s'' = Inr (2 * minute)" "parse_duration demo_funs ''30m'' = Inr (30 * minute)"
  using parse_duration_int [of "''s''" 1000000000 demo_funs 30] parse_duration_int [of "''s''" 1000000000 demo_funs 5]
    parse_duration_int [of "''s''" 1000000000 demo_funs 10] parse_duration_int [of "''s''" 1000000000 demo_funs 15]
    parse_duration_int [of "''s''" 1000000000 demo_funs 60] parse_duration_int [of "''s''" 1000000000 demo_funs 45]
    parse_duration_int [of "''s''" 1000000000 demo_funs 120] parse_duration_int [of "''m''" 60000000000 demo_funs 30]
  by (simp_all add: duration_units_def max_int64_def second_def minute_def demo_numbers)

theorem config_loaded_witness:
  "load demo_funs demo_env = Inr demo_config"
proof -
  have "demo_env ''KWEB_URL'' \<noteq> ''''" "demo_env ''SPM_URL'' \<noteq> ''''" by (simp_all add: demo_env_def)
  moreover have "\<forall>(key, fallback, field) \<in> set duration_settings.
      parse_duration demo_funs (env_or_default demo_env key fallback) = Inr (field demo_config)"
    by (simp add: duration_settings_def env_or_default_def demo_env_def demo_config_def demo_durations Let_def)
  moreover have "\<forall>(key, fallback, field) \<in> set string_settings. field demo_config = env_or_default demo_env key fallback"
    by (simp add: string_settings_def env_or_default_def demo_env_def demo_config_def Let_def)
  ultimately show ?thesis unfolding config_loaded by blast
qed

end
