(* ===== verification/Lifecycle.thy ===== *)
theory Lifecycle
  imports Registration Config Router Monitor
begin

text \<open>
  The life of the process (cmd/dcm-kcli-provider/server.go and api/v1alpha1/paths.go): what
  \<open>NewServer\<close> builds and in which order it can fail, the handlers of
  \<open>/health\<close> and \<open>/ready\<close>, the root mux and the chain of middleware, and the shutdown.

  Outside the repository, and so parameters: the constructors of the database, of the NATS connection
  and of the SPM client, the random UUIDs, the OpenAPI document as kin-openapi has read it, and the
  third-party middleware.
\<close>

section \<open>The paths of the OpenAPI document\<close>

text \<open>
  The paths in the order of \<open>InMatchingOrder\<close>, each with the tags of its POST operation if it has
  one, and the URLs of the servers.
\<close>

record OpenApi =
  oa_paths :: "(string \<times> string list option) list"
  oa_servers :: "string list"

definition post_path :: "string + OpenApi \<Rightarrow> string + string" where
  "post_path spec =
     (case spec of
        Inl err \<Rightarrow> Inl (''loading OpenAPI spec: '' @ err)
      | Inr s \<Rightarrow>
          (case List.find (\<lambda>p. snd p \<noteq> None) (oa_paths s) of
             Some (p, _) \<Rightarrow> Inr p
           | None \<Rightarrow> Inl ''no POST path found in OpenAPI spec''))"

definition add_post_path :: "string \<times> string list option \<Rightarrow> (string \<times> string) list \<Rightarrow> (string \<times> string) list" where
  "add_post_path item result =
     (case snd item of Some (tag # _) \<Rightarrow> map_set tag (fst item) result | _ \<Rightarrow> result)"

definition post_paths :: "string + OpenApi \<Rightarrow> string + (string \<times> string) list" where
  "post_paths spec =
     (case spec of
        Inl err \<Rightarrow> Inl (''loading OpenAPI spec: '' @ err)
      | Inr s \<Rightarrow>
          (let result = fold add_post_path (oa_paths s) [] in
           if result = [] then Inl ''no POST paths found in OpenAPI spec'' else Inr result))"

section \<open>NewServer\<close>

text \<open>The gauge \<open>ResourcesManaged\<close> starts from what the store holds.\<close>

definition count_entry :: "ResourceEntry \<Rightarrow> int \<times> int \<Rightarrow> int \<times> int" where
  "count_entry e n =
     (if re_type e = ''vm'' then (fst n + 1, snd n)
      else if re_type e = ''cluster'' then (fst n, snd n + 1)
      else n)"

definition init_gauges :: "('s, 'k, 'p) Server \<Rightarrow> ('s, 'k, 'p) World \<Rightarrow> ('s, 'k, 'p) World" where
  "init_gauges V w =
     (case ss_list_all (sv_store V) (w_store w) of
        Inl _ \<Rightarrow> w
      | Inr entries \<Rightarrow>
          (case fold count_entry entries (0, 0) of
             (vms, clusters) \<Rightarrow> gauge_add ''cluster'' clusters (gauge_add ''vm'' vms w)))"

definition provider_cfg ::
  "Config \<Rightarrow> string \<Rightarrow> string \<Rightarrow> string \<Rightarrow> string \<Rightarrow> string \<Rightarrow> string \<Rightarrow> ProviderConfig" where
  "provider_cfg cfg configured_id fresh_id name display_name path_suffix service_type =
     \<lparr>pr_id = (if configured_id = '''' then fresh_id else configured_id), pr_name = name,
      pr_display_name = display_name,
      pr_endpoint = ''http://'' @ cf_listen_address cfg @ ''/api/v1alpha1'' @ path_suffix,
      pr_service_type = service_type, pr_schema_version = cf_schema_version cfg,
      pr_operations = [''create'', ''delete'', ''get'', ''list''],
      pr_metadata = [(''backend'', JStr ''libvirt''), (''kweb_url'', JStr (cf_kweb_url cfg))]\<rparr>"

text \<open>\<open>postPaths["vm"]\<close> is the empty string when the document has no such path.\<close>

definition path_of :: "(string \<times> string) list \<Rightarrow> string \<Rightarrow> string" where
  "path_of paths tag = (case map_of paths tag of Some p \<Rightarrow> p | None \<Rightarrow> '''')"

definition vm_provider_cfg :: "Config \<Rightarrow> (string \<times> string) list \<Rightarrow> string \<Rightarrow> ProviderConfig" where
  "vm_provider_cfg cfg paths fresh_id =
     provider_cfg cfg (cf_provider_id_vm cfg) fresh_id (cf_provider_name_vm cfg) ''kcli Virtual Machines''
       (path_of paths ''vm'') ''vm''"

definition cluster_provider_cfg :: "Config \<Rightarrow> (string \<times> string) list \<Rightarrow> string \<Rightarrow> ProviderConfig" where
  "cluster_provider_cfg cfg paths fresh_id =
     provider_cfg cfg (cf_provider_id_cluster cfg) fresh_id (cf_provider_name_cluster cfg)
       ''kcli Kubernetes Clusters'' (path_of paths ''cluster'') ''cluster''"

definition monitor_config :: "Config \<Rightarrow> MonitorConfig" where
  "monitor_config cfg =
     \<lparr>mc_poll_interval = cf_poll_interval cfg, mc_debounce_window = cf_debounce_window cfg,
      mc_cluster_create_timeout = cf_cluster_create_timeout cfg\<rparr>"

text \<open>No publisher is the \<open>NoopPublisher\<close>.\<close>

record ('s, 'p, 'c) Outside =
  os_open_store :: "string \<Rightarrow> string + 's"
  os_nats :: "string \<Rightarrow> string + 'p"
  os_spm :: "string \<Rightarrow> string + 'c"
  os_uuid :: "nat \<Rightarrow> string"
  os_spec :: "string + OpenApi"

definition choose_publisher :: "('s, 'p, 'c) Outside \<Rightarrow> Config \<Rightarrow> 'p option" where
  "choose_publisher Out cfg =
     (if cf_nats_url cfg \<noteq> '''' then
        (case os_nats Out (cf_nats_url cfg) of Inl _ \<Rightarrow> None | Inr p \<Rightarrow> Some p)
      else None)"

record ('s, 'p, 'c) Booted =
  sy_store :: 's
  sy_publisher :: "'p option"
  sy_monitor :: MonitorConfig
  sy_registrars :: "(Registrar \<times> 'c) list"
  sy_base_url :: string

text \<open>An error comes with the store that was closed because of it.\<close>

definition new_server ::
  "('s, 'p, 'c) Outside \<Rightarrow> Config \<Rightarrow> (string \<times> 's option) + ('s, 'p, 'c) Booted" where
  "new_server Out cfg =
     (case os_open_store Out (cf_state_store_path cfg) of
        Inl err \<Rightarrow> Inl (''opening state store: '' @ err, None)
      | Inr s \<Rightarrow>
          (case post_paths (os_spec Out) of
             Inl err \<Rightarrow> Inl (''resolving post paths from OpenAPI spec: '' @ err, Some s)
           | Inr paths \<Rightarrow>
               (case new_registrar (os_spm Out) (cf_spm_url cfg) (vm_provider_cfg cfg paths (os_uuid Out 0)) [] of
                  Inl err \<Rightarrow> Inl (''creating vm registrar: '' @ err, Some s)
                | Inr vm_registrar \<Rightarrow>
                    (let drawn = (if cf_provider_id_vm cfg = '''' then 1 else 0) in
                     case new_registrar (os_spm Out) (cf_spm_url cfg)
                            (cluster_provider_cfg cfg paths (os_uuid Out drawn)) [] of
                       Inl err \<Rightarrow> Inl (''creating cluster registrar: '' @ err, Some s)
                     | Inr cluster_registrar \<Rightarrow>
                         (case os_spec Out of
                            Inl err \<Rightarrow> Inl (''loading OpenAPI spec: '' @ err, Some s)
                          | Inr spec \<Rightarrow>
                              Inr \<lparr>sy_store = s, sy_publisher = choose_publisher Out cfg,
                                   sy_monitor = monitor_config cfg,
                                   sy_registrars = [vm_registrar, cluster_registrar],
                                   sy_base_url =
                                     (case oa_servers spec of [] \<Rightarrow> '''' | url # _ \<Rightarrow> url)\<rparr>)))))"

section \<open>The handlers of the root\<close>

definition readiness_handler ::
  "('s, 'k, 'p) Server \<Rightarrow> Registrar list \<Rightarrow> bool \<Rightarrow> ('s, 'k, 'p) World handler" where
  "readiness_handler V registrars poll_complete rq st =
     (case st of
        (ex, w) \<Rightarrow>
          (case on_kweb (kc_check_health (sv_kweb V)) w of
             ((healthy, err), w) \<Rightarrow>
               (let kweb_ok = (err = None \<and> healthy);
                    all_registered = list_all registered registrars;
                    ready = (kweb_ok \<and> all_registered \<and> poll_complete);
                    body = JObj [(''ready'', JBool ready), (''kweb'', JBool kweb_ok),
                                 (''registered'', JBool all_registered), (''polled'', JBool poll_complete)] in
                (Finished,
                 write_typed ''application/json'' (if ready then 200 else 503) (encoded body) ex, w))))"

definition root_health_handler ::
  "Runtime \<Rightarrow> ('s, 'k, 'p) Server \<Rightarrow> ('s, 'k, 'p) World handler" where
  "root_health_handler R V rq st =
     (case st of
        (ex, w) \<Rightarrow>
          (case now V w of
             (t, w) \<Rightarrow>
               (let uptime = time_sub t (sv_started_at V) in
                case on_kweb (kc_check_health (sv_kweb V)) w of
                  ((healthy, err), w) \<Rightarrow>
                    (let (status, message, code) =
                           (if err \<noteq> None \<or> \<not> healthy then
                              (''unhealthy'',
                               case err of
                                 Some e \<Rightarrow> kweb_error_text (sv_json_err V) e
                               | None \<Rightarrow> ''kweb unreachable'', 503)
                            else (''healthy'', '''', 200));
                         body = JObj ([(''status'', JStr status), (''version'', JStr (sv_version V)),
                                       (''uptime'', JNum (rt_float32 R uptime))]
                                      @ (if message = '''' then [] else [(''message'', JStr message)])) in
                     (Finished, write_typed ''application/json'' code (encoded body) ex, w)))))"

text \<open>\<open>cleanPath\<close> of \<open>http.ServeMux\<close> on a path that \<open>path.Clean\<close> sees rooted.\<close>

fun clean_segs :: "string list \<Rightarrow> string list \<Rightarrow> string list" where
  "clean_segs acc [] = rev acc"
| "clean_segs acc (s # ss) =
     (if s = '''' \<or> s = ''.'' then clean_segs acc ss
      else if s = ''..'' then clean_segs (tl acc) ss
      else clean_segs (s # acc) ss)"

definition clean_path :: "string \<Rightarrow> string" where
  "clean_path p =
     (if p = '''' then ''/''
      else
        (let segs = clean_segs [] (split_slash p);
             np = (if segs = [] then ''/'' else concat (map (\<lambda>s. ''/'' @ s) segs)) in
         if last p = CHR ''/'' \<and> np \<noteq> ''/'' then np @ ''/'' else np))"

text \<open>
  The root: exact paths for the three endpoints of the process, everything else to the API; a path
  that is not clean is redirected (\<open>redirect\<close> is what \<open>http.Redirect\<close> writes).
\<close>

definition root_mux ::
  "(string \<Rightarrow> Request \<Rightarrow> Exchange \<Rightarrow> Exchange) \<Rightarrow> 'w handler \<Rightarrow> 'w handler \<Rightarrow> 'w handler \<Rightarrow> 'w handler \<Rightarrow>
   'w handler" where
  "root_mux redirect metrics health ready api rq st =
     (let path = (if rq_method rq = ''CONNECT'' then rq_path rq else clean_path (rq_path rq)) in
      if path \<noteq> rq_path rq then (Finished, redirect path rq (fst st), snd st)
      else if path = ''/metrics'' then metrics rq st
      else if path = ''/health'' then health rq st
      else if path = ''/ready'' then ready rq st
      else api rq st)"

section \<open>The chain of middleware\<close>

definition in_app :: "'w handler \<Rightarrow> 'w App handler" where
  "in_app h rq st =
     (case st of
        (ex, a) \<Rightarrow>
          (case h rq (ex, ap_world a) of (out, ex, w) \<Rightarrow> (out, ex, a\<lparr>ap_world := w\<rparr>)))"

record 'w Chain =
  ch_request_id :: "'w handler \<Rightarrow> 'w handler"
  ch_timeout :: "'w handler \<Rightarrow> 'w handler"
  ch_validator :: "'w handler \<Rightarrow> 'w handler"

definition api_chain :: "'w App Chain \<Rightarrow> 'w App handler \<Rightarrow> 'w App handler" where
  "api_chain M h =
     ch_request_id M (request_logger (panic_recovery (metrics_middleware (ch_timeout M
       (max_body_size (2 ^ 20) (ch_validator M h))))))"

section \<open>The shutdown\<close>

text \<open>
  \<open>finish\<close> lets the goroutine of a cancelled registrar run to its end: a wait ends at once, an
  attempt in flight is the last one.
\<close>

definition finish :: "'c SpmEnv \<Rightarrow> 'c life \<Rightarrow> 'c life" where
  "finish E s =
     (case s of
        (Waiting _, st) \<Rightarrow> (Exited, st)
      | (Attempting backoff, st) \<Rightarrow>
          (case attempt_step E backoff st of
             (Waiting _, st) \<Rightarrow> (Exited, st)
           | s \<Rightarrow> s)
      | _ \<Rightarrow> s)"

text \<open>None when \<open>Stop\<close> never returns, or the process has crashed.\<close>

definition reg_stop :: "'c SpmEnv \<Rightarrow> 'c life \<Rightarrow> 'c life option" where
  "reg_stop E s = (let s = finish E (stop_request s) in if stop_returns s then Some s else None)"

definition reg_deregister :: "'c SpmEnv \<Rightarrow> 'c life \<Rightarrow> 'c life" where
  "reg_deregister E s = (case s of (th, st) \<Rightarrow> (th, deregister E st))"

definition shutdown ::
  "'c SpmEnv \<Rightarrow> ('p \<Rightarrow> 'p) \<Rightarrow> ('s \<Rightarrow> store_error option \<times> 's) \<Rightarrow> 'c life list \<times> 'p \<times> 's \<Rightarrow>
   ('c life list \<times> 'p \<times> 's) option" where
  "shutdown E close_pub close_store st =
     (case st of
        (lives, p, s) \<Rightarrow>
          (case those (map (reg_stop E) lives) of
             None \<Rightarrow> None
           | Some lives \<Rightarrow> Some (map (reg_deregister E) lives, close_pub p, snd (close_store s))))"

end
