(* ===== verification/System.thy ===== *)
theory System
  imports Poll Lifecycle
begin

text \<open>
  The operations of the API and the polls of the monitor together: a step relation on the world and
  the monitor, the invariant that every step keeps, and the gauge at startup. Each operation is one
  step; the handlers see the profiles that the monitor has last read.
\<close>

type_synonym ('s, 'k, 'p) sys = "('s, 'k, 'p) World \<times> Monitor"

text \<open>The server as the handlers see it.\<close>

definition served :: "('s, 'k, 'p) Server \<Rightarrow> Monitor \<Rightarrow> ('s, 'k, 'p) Server" where
  "served V m = V\<lparr>sv_profiles := Some (monitor_profiles m)\<rparr>"

text \<open>The IDs of the stored entries of a type.\<close>

definition held :: "string \<Rightarrow> (string \<Rightarrow> ResourceEntry option) \<Rightarrow> string set" where
  "held ty v = {i. \<exists>e. v i = Some e \<and> re_type e = ty}"

text \<open>
  What a create may assume of the new entry: JSON and bbolt can hold it, and an ID that the server
  draws is new.
\<close>

definition new_entry_ok :: "(string \<Rightarrow> ResourceEntry option) \<Rightarrow> string option \<Rightarrow> ResourceEntry \<Rightarrow> bool" where
  "new_entry_ok v client_id e \<longleftrightarrow> entry_ok e \<and> (given client_id = None \<longrightarrow> v (re_id e) = None)"

inductive api_step ::
  "('s \<Rightarrow> string \<Rightarrow> ResourceEntry option) \<Rightarrow> ('s, 'k, 'p) Server \<Rightarrow>
   ('s, 'k, 'p) sys \<Rightarrow> ('s, 'k, 'p) sys \<Rightarrow> bool"
  for view V where
  create_vm:
    "create_vm (served V m) client_id spec w = (r, w') \<Longrightarrow>
     new_entry_ok (view (w_store w)) client_id (new_vm_entry V client_id spec w) \<Longrightarrow>
     api_step view V (w, m) (w', m)"
| create_cluster:
    "create_cluster (served V m) client_id spec w = (r, w') \<Longrightarrow>
     new_entry_ok (view (w_store w)) client_id (new_cluster_entry V client_id spec w) \<Longrightarrow>
     api_step view V (w, m) (w', m)"
| delete_vm:
    "delete_vm (served V m) cx i w = (r, w') \<Longrightarrow> i \<notin> held ''cluster'' (view (w_store w)) \<Longrightarrow>
     api_step view V (w, m) (w', m)"
| delete_cluster:
    "delete_cluster (served V m) cx i w = (r, w') \<Longrightarrow> i \<notin> held ''vm'' (view (w_store w)) \<Longrightarrow>
     api_step view V (w, m) (w', m)"
| get_vm: "get_vm (served V m) i w = (r, w') \<Longrightarrow> api_step view V (w, m) (w', m)"
| get_cluster: "get_cluster (served V m) i w = (r, w') \<Longrightarrow> api_step view V (w, m) (w', m)"
| list_vms: "list_vms (served V m) ps w = (r, w') \<Longrightarrow> api_step view V (w, m) (w', m)"
| list_clusters: "list_clusters (served V m) ps w = (r, w') \<Longrightarrow> api_step view V (w, m) (w', m)"
| health: "get_health (served V m) w = (r, w') \<Longrightarrow> api_step view V (w, m) (w', m)"

inductive sys_step ::
  "('s \<Rightarrow> string \<Rightarrow> ResourceEntry option) \<Rightarrow> ('s, 'k, 'p) Server \<Rightarrow> MonitorConfig \<Rightarrow>
   ('s, 'k, 'p) sys \<Rightarrow> ('s, 'k, 'p) sys \<Rightarrow> bool"
  for view V cf where
  operation: "api_step view V st st' \<Longrightarrow> sys_step view V cf st st'"
| poll: "poll V cf cx (w, m) = (w', m') \<Longrightarrow> sys_step view V cf (w, m) (w', m')"

text \<open>
  The invariant: the store is well formed and open, every entry is a VM or a cluster in one of the
  states of its type, and the gauge counts the entries of each type.
\<close>

definition typed :: "ResourceEntry \<Rightarrow> bool" where
  "typed e \<longleftrightarrow>
     re_type e = ''vm'' \<and> re_status e \<in> vm_states \<or> re_type e = ''cluster'' \<and> re_status e \<in> cluster_states"

definition gauge_exact :: "(string \<Rightarrow> int) \<Rightarrow> (string \<Rightarrow> ResourceEntry option) \<Rightarrow> bool" where
  "gauge_exact g v \<longleftrightarrow>
     g ''vm'' = int (card (held ''vm'' v)) \<and> g ''cluster'' = int (card (held ''cluster'' v))"

definition sys_ok ::
  "('s \<Rightarrow> string \<Rightarrow> ResourceEntry option) \<Rightarrow> ('s \<Rightarrow> bool) \<Rightarrow> ('s \<Rightarrow> bool) \<Rightarrow> ('s, 'k, 'p) sys \<Rightarrow> bool" where
  "sys_ok view good ready st \<longleftrightarrow>
     good (w_store (fst st)) \<and> ready (w_store (fst st)) \<and>
     (\<forall>i e. view (w_store (fst st)) i = Some e \<longrightarrow> typed e) \<and>
     gauge_exact (w_managed (fst st)) (view (w_store (fst st)))"

section \<open>What reading leaves alone\<close>

lemma get_vm_effect [effect_simps]:
  "w_store (snd (get_vm V i w)) = w_store w" "w_managed (snd (get_vm V i w)) = w_managed w"
  by (simp_all add: get_vm_def case_prod_unfold effect_simps split: sum.split)

lemma get_cluster_effect [effect_simps]:
  "w_store (snd (get_cluster V i w)) = w_store w" "w_managed (snd (get_cluster V i w)) = w_managed w"
  by (simp_all add: get_cluster_def case_prod_unfold effect_simps get_cached_kubeconfig_effect Let_def
      split: sum.split)

lemma list_vms_effect [effect_simps]:
  "w_store (snd (list_vms V ps w)) = w_store w" "w_managed (snd (list_vms V ps w)) = w_managed w"
  by (simp_all add: list_vms_def case_prod_unfold effect_simps Let_def split: sum.split)

lemma list_clusters_effect [effect_simps]:
  "w_store (snd (list_clusters V ps w)) = w_store w" "w_managed (snd (list_clusters V ps w)) = w_managed w"
  by (simp_all add: list_clusters_def case_prod_unfold effect_simps Let_def split: sum.split)

lemma get_health_effect [effect_simps]:
  "w_store (snd (get_health V w)) = w_store w" "w_managed (snd (get_health V w)) = w_managed w"
  by (simp_all add: get_health_def do_health_check_def case_prod_unfold effect_simps Let_def)

lemma served_simps [simp]:
  "sv_store (served V m) = sv_store V" "sv_kweb (served V m) = sv_kweb V" "sv_uuid (served V m) = sv_uuid V"
  "sv_clock (served V m) = sv_clock V" "sv_json_err (served V m) = sv_json_err V"
  "sv_quote (served V m) = sv_quote V"
  "new_vm_entry (served V m) c spec w = new_vm_entry V c spec w"
  "new_cluster_entry (served V m) c cspec w = new_cluster_entry V c cspec w"
  by (simp_all add: served_def new_vm_entry_def new_cluster_entry_def)

section \<open>Counting\<close>

lemma held_None: "held ty (v(i := None)) = held ty v - {i}"
  by (auto simp: held_def)

lemma held_Some:
  "held ty (v(i \<mapsto> e)) = (if re_type e = ty then insert i (held ty v) else held ty v - {i})"
  by (auto simp: held_def)

lemma held_unknown: "v i = None \<Longrightarrow> i \<notin> held ty v"
  by (simp add: held_def)

lemma card_new:
  assumes "v i = None" "finite (held ty' v)"
  shows "int (card (held ty' (v(i \<mapsto> e)))) = int (card (held ty' v)) + (if ty' = re_type e then 1 else 0)"
  using assms held_unknown [of v i ty'] by (auto simp: held_Some)

lemma card_removed:
  assumes "i \<in> held ty v" "finite (held ty v)"
  shows "int (card (held ty' (v(i := None)))) = int (card (held ty' v)) - (if ty' = ty then 1 else 0)"
proof (cases "ty' = ty")
  case True
  have "card (held ty v) = Suc (card (held ty v - {i}))" using card_Suc_Diff1 [OF assms(2,1)] by simp
  with True show ?thesis by (simp add: held_None)
next
  case False
  with assms(1) have "i \<notin> held ty' v" by (auto simp: held_def)
  with False show ?thesis by (simp add: held_None)
qed

lemma gauge_exact_new:
  assumes "gauge_exact g v" "v i = None" "finite (held ''vm'' v)" "finite (held ''cluster'' v)"
    and "re_type e = ty"
  shows "gauge_exact (g(ty := g ty + 1)) (v(i \<mapsto> e))"
  using assms card_new [OF assms(2,3), of e] card_new [OF assms(2,4), of e]
  by (auto simp: gauge_exact_def)

lemma gauge_exact_removed:
  assumes "gauge_exact g v" "i \<in> held ty v" "finite (held ty v)"
  shows "gauge_exact (g(ty := g ty - 1)) (v(i := None))"
  using assms(1) card_removed [OF assms(2,3), of "''vm''"] card_removed [OF assms(2,3), of "''cluster''"]
  by (auto simp: gauge_exact_def)

lemma typed_not_deleting:
  "typed e \<Longrightarrow> re_status e \<noteq> ''DELETING'' \<and> re_status e \<noteq> ''DELETED''"
  by (auto simp: typed_def vm_states_def cluster_states_def)

lemma typed_held: "typed e \<Longrightarrow> v i = Some e \<Longrightarrow> i \<notin> held ''cluster'' v \<Longrightarrow> i \<in> held ''vm'' v"
  "typed e \<Longrightarrow> v i = Some e \<Longrightarrow> i \<notin> held ''vm'' v \<Longrightarrow> i \<in> held ''cluster'' v"
  by (auto simp: typed_def held_def)

context live_store
begin

lemma held_finite:
  assumes "inv s" "ready s"
  shows "finite (held ty (view s))"
proof -
  obtain es where "ss_list S ty s = Inr es" using list_ready [OF assms] by blast
  from list_set [OF assms(1) this] have "held ty (view s) \<subseteq> re_id ` set es"
    using view_id [OF assms(1)] by (auto simp: held_def)
  then show ?thesis by (rule finite_subset) simp
qed

text \<open>A step that leaves the store and the gauge alone.\<close>

lemma sys_ok_same:
  "sys_ok view inv ready (w, m) \<Longrightarrow> w_store w' = w_store w \<Longrightarrow> w_managed w' = w_managed w \<Longrightarrow>
   sys_ok view inv ready (w', m')"
  by (simp add: sys_ok_def)

lemma sys_ok_same_view:
  "sys_ok view inv ready (w, m) \<Longrightarrow> inv (w_store w') \<Longrightarrow> ready (w_store w') \<Longrightarrow>
   view (w_store w') = view (w_store w) \<Longrightarrow> w_managed w' = w_managed w \<Longrightarrow> sys_ok view inv ready (w', m')"
  by (simp add: sys_ok_def)

lemma sys_ok_new:
  assumes "sys_ok view inv ready (w, m)" "inv (w_store w')" "ready (w_store w')"
    and "view (w_store w') = (view (w_store w))(re_id e \<mapsto> e)" "view (w_store w) (re_id e) = None"
    and "w_managed w' = (w_managed w)(re_type e := w_managed w (re_type e) + 1)" "typed e"
  shows "sys_ok view inv ready (w', m')"
proof -
  have "gauge_exact (w_managed w') (view (w_store w'))"
    unfolding assms(4,6)
    by (rule gauge_exact_new [OF _ assms(5) held_finite held_finite refl])
      (use assms(1) in \<open>simp_all add: sys_ok_def\<close>)
  with assms show ?thesis by (auto simp: sys_ok_def)
qed

lemma sys_ok_removed:
  assumes "sys_ok view inv ready (w, m)" "inv (w_store w')" "ready (w_store w')"
    and "view (w_store w') = (view (w_store w))(i := None)" "i \<in> held ty (view (w_store w))"
    and "w_managed w' = (w_managed w)(ty := w_managed w ty - 1)"
  shows "sys_ok view inv ready (w', m')"
proof -
  have "gauge_exact (w_managed w') (view (w_store w'))"
    unfolding assms(4,6)
    by (rule gauge_exact_removed [OF _ assms(5) held_finite])
      (use assms(1) in \<open>simp_all add: sys_ok_def\<close>)
  with assms show ?thesis by (auto simp: sys_ok_def)
qed

section \<open>The steps\<close>

lemma create_vm_step:
  assumes "sys_ok view inv ready (w, m)" "sv_store V = S"
    and "create_vm (served V m) c spec w = (r, w')"
    and "new_entry_ok (view (w_store w)) c (new_vm_entry V c spec w)"
  shows "sys_ok view inv ready (w', m)"
proof -
  let ?e = "new_vm_entry V c spec w"
  have i: "inv (w_store w)" "ready (w_store w)" using assms(1) by (simp_all add: sys_ok_def)
  have f: "find_existing (served V m) c w = Option.bind (given c) (view (w_store w))"
    by (rule find_existing_view) (use i assms(2) in simp_all)
  show ?thesis
  proof (cases "find_existing (served V m) c w")
    case (Some e)
    with assms(3) have "w' = w" by (auto simp: create_vm_def split: if_splits)
    with assms(1) show ?thesis by simp
  next
    case None
    note p = create_vm_new [OF i(1) _ None _ assms(3)]
    have p': "inv (w_store w')" "ready (w_store w')"
      using p(1,2) i assms(2,4) by (simp_all add: new_entry_ok_def)
    have new: "view (w_store w) (re_id ?e) = None"
      using None f assms(4)
      by (cases "given c") (auto simp: new_entry_ok_def new_vm_entry_def resolve_id_def given_def split: option.splits if_splits)
    have e: "re_type ?e = ''vm''" "typed ?e" by (simp_all add: new_vm_entry_def typed_def vm_states_def)
    show ?thesis
    proof (cases "\<exists>vm. r = CreateVM201 vm")
      case True
      then show ?thesis
        using p(4) assms(2,4) e(1)
        by (intro sys_ok_new [OF assms(1) p' _ new _ e(2)]) (auto simp: new_entry_ok_def)
    next
      case False
      then show ?thesis
        using p(4) assms(2,4)
        by (intro sys_ok_same_view [OF assms(1) p']) (auto simp: new_entry_ok_def split: CreateVMResponse.splits)
    qed
  qed
qed

lemma create_cluster_step:
  assumes "sys_ok view inv ready (w, m)" "sv_store V = S"
    and "create_cluster (served V m) c spec w = (r, w')"
    and "new_entry_ok (view (w_store w)) c (new_cluster_entry V c spec w)"
  shows "sys_ok view inv ready (w', m)"
proof -
  let ?e = "new_cluster_entry V c spec w"
  have i: "inv (w_store w)" "ready (w_store w)" using assms(1) by (simp_all add: sys_ok_def)
  have f: "find_existing (served V m) c w = Option.bind (given c) (view (w_store w))"
    by (rule find_existing_view) (use i assms(2) in simp_all)
  show ?thesis
  proof (cases "find_existing (served V m) c w")
    case (Some e)
    with assms(3) have "w' = w" by (auto simp: create_cluster_def split: if_splits)
    with assms(1) show ?thesis by simp
  next
    case None
    note p = create_cluster_new [OF i(1) _ None _ assms(3)]
    have p': "inv (w_store w')" "ready (w_store w')"
      using p(1,2) i assms(2,4) by (simp_all add: new_entry_ok_def)
    have new: "view (w_store w) (re_id ?e) = None"
      using None f assms(4)
      by (cases "given c") (auto simp: new_entry_ok_def new_cluster_entry_def resolve_id_def split: option.splits)
    have e: "re_type ?e = ''cluster''" "typed ?e"
      by (simp_all add: new_cluster_entry_def typed_def cluster_states_def)
    show ?thesis
    proof (cases "\<exists>cl. r = CreateCluster201 cl")
      case True
      then show ?thesis
        using p(4) assms(2,4) e(1)
        by (intro sys_ok_new [OF assms(1) p' _ new _ e(2)]) (auto simp: new_entry_ok_def)
    next
      case False
      then show ?thesis
        using p(4) assms(2,4)
        by (intro sys_ok_same_view [OF assms(1) p']) (auto simp: new_entry_ok_def split: CreateClusterResponse.splits)
    qed
  qed
qed

lemma delete_vm_step:
  assumes "sys_ok view inv ready (w, m)" "sv_store V = S"
    and "delete_vm (served V m) cx i w = (r, w')" "i \<notin> held ''cluster'' (view (w_store w))"
  shows "sys_ok view inv ready (w', m)"
proof -
  have i: "inv (w_store w)" "ready (w_store w)" using assms(1) by (simp_all add: sys_ok_def)
  show ?thesis
  proof (cases "view (w_store w) i")
    case None
    with delete_vm_missing [OF i _ None] assms(2,3) have "w' = w" by simp
    with assms(1) show ?thesis by simp
  next
    case (Some e)
    then have t: "typed e" using assms(1) by (simp add: sys_ok_def)
    obtain q k where k: "kc_delete_vm (sv_kweb (served V m)) (re_kcli_name e) (w_kweb w) = (q, k)"
      by (metis surj_pair)
    from typed_not_deleting [OF t] have "re_status e \<noteq> ''DELETING''" "re_status e \<noteq> ''DELETED''" by auto
    note d = delete_vm_live [OF i _ Some this assms(3) k]
    have h: "i \<in> held ''vm'' (view (w_store w))" using typed_held(1) [OF t] Some assms(4) by blast
    show ?thesis
    proof (cases q)
      case None
      with d assms(2) show ?thesis by (intro sys_ok_removed [OF assms(1) _ _ _ h]) simp_all
    next
      case (Some err)
      with d assms(2) show ?thesis by (intro sys_ok_same_view [OF assms(1)]) simp_all
    qed
  qed
qed

lemma delete_cluster_step:
  assumes "sys_ok view inv ready (w, m)" "sv_store V = S"
    and "delete_cluster (served V m) cx i w = (r, w')" "i \<notin> held ''vm'' (view (w_store w))"
  shows "sys_ok view inv ready (w', m)"
proof -
  have i: "inv (w_store w)" "ready (w_store w)" using assms(1) by (simp_all add: sys_ok_def)
  show ?thesis
  proof (cases "view (w_store w) i")
    case None
    with delete_cluster_missing [OF i _ None] assms(2,3) have "w' = w" by simp
    with assms(1) show ?thesis by simp
  next
    case (Some e)
    then have t: "typed e" using assms(1) by (simp add: sys_ok_def)
    obtain q k where k: "kc_delete_cluster (sv_kweb (served V m)) (re_kcli_name e) (w_kweb w) = (q, k)"
      by (metis surj_pair)
    from typed_not_deleting [OF t] have "re_status e \<noteq> ''DELETING''" "re_status e \<noteq> ''DELETED''" by auto
    note d = delete_cluster_live [OF i _ Some this assms(3) k]
    have h: "i \<in> held ''cluster'' (view (w_store w))" using typed_held(2) [OF t] Some assms(4) by blast
    show ?thesis
    proof (cases q)
      case None
      with d assms(2) show ?thesis by (intro sys_ok_removed [OF assms(1) _ _ _ h]) simp_all
    next
      case (Some err)
      with d assms(2) show ?thesis by (intro sys_ok_same_view [OF assms(1)]) simp_all
    qed
  qed
qed

end

text \<open>What a poll makes of an entry keeps its type and gives it a state of that type.\<close>

lemma timed_out_state: "''ERROR'' \<in> cluster_states"
  by (simp add: cluster_states_def)

lemma polled_typed:
  "polled d rv rc e t = Some e' \<Longrightarrow> typed e \<Longrightarrow> typed e' \<and> re_type e' = re_type e"
  by (auto simp: polled_def typed_def vm_rule_def cluster_rule_def vm_after_def cluster_after_def
      map_vm_status_range map_cluster_status_range timed_out_state split: sum.splits option.splits if_splits)

context live_store
begin

lemma poll_step:
  assumes "sys_ok view inv ready (w, m)" "sv_store V = S" "poll V cf cx (w, m) = (w', m')"
  shows "sys_ok view inv ready (w', m')"
proof -
  have i: "inv (w_store w)" "ready (w_store w)" using assms(1) by (simp_all add: sys_ok_def)
  let ?v = "view (w_store w)" and ?v' = "view (w_store w')"
  obtain rp k1 where k1: "kc_list_profiles (sv_kweb V) (w_kweb w) = (rp, k1)" by (metis surj_pair)
  obtain rv k2 where k2: "kc_list_vms (sv_kweb V) k1 = (rv, k2)" by (metis surj_pair)
  obtain rc k3 where k3: "kc_list_clusters (sv_kweb V) k2 = (rc, k3)" by (metis surj_pair)
  note p = poll_store [OF i assms(2) k1 k2 k3 assms(3)]
  have each: "case ?v j of
      None \<Rightarrow> ?v' j = None
    | Some e \<Rightarrow> (\<exists>t \<in> readings V w w'. ?v' j = polled (mc_cluster_create_timeout cf) rv rc e t)" for j
    using p by blast
  have none: "?v' j = None" if "?v j = None" for j using each [of j] that by simp
  have kept: "?v' j = None \<or> (\<exists>e'. ?v' j = Some e' \<and> typed e' \<and> re_type e' = re_type e)"
    if v: "?v j = Some e" for j e
  proof -
    have "typed e" using assms(1) v by (simp add: sys_ok_def)
    moreover obtain t where "?v' j = polled (mc_cluster_create_timeout cf) rv rc e t"
      using each [of j] v by auto
    ultimately show ?thesis using polled_typed [of _ rv rc e t] by (cases "?v' j") auto
  qed
  have split: "held ty ?v = held ty ?v' \<union> gone ty ?v ?v'" "held ty ?v' \<inter> gone ty ?v ?v' = {}" for ty
    using none kept by (fastforce simp: held_def gone_def)+
  have card: "int (card (held ty ?v')) = int (card (held ty ?v)) - int (card (gone ty ?v ?v'))" for ty
  proof -
    have "finite (held ty ?v' \<union> gone ty ?v ?v')" using held_finite [OF i, of ty] by (simp add: split(1) [symmetric])
    then show ?thesis using card_Un_disjoint [OF _ _ split(2) [of ty]] split(1) [of ty] by simp
  qed
  have "gauge_exact (w_managed w') ?v'"
    using assms(1) p card [of "''vm''"] card [of "''cluster''"] by (simp add: sys_ok_def gauge_exact_def)
  moreover have "typed e'" if "?v' j = Some e'" for j e'
    using none [of j] kept [of j] that by (cases "?v j") auto
  ultimately show ?thesis using p by (simp add: sys_ok_def)
qed

lemma api_step_ok:
  assumes "api_step view V st st'" "sv_store V = S" "sys_ok view inv ready st"
  shows "sys_ok view inv ready st'"
  using assms
proof (induction rule: api_step.induct)
  case create_vm
  then show ?case using create_vm_step by blast
next
  case create_cluster
  then show ?case using create_cluster_step by blast
next
  case delete_vm
  then show ?case using delete_vm_step by blast
next
  case delete_cluster
  then show ?case using delete_cluster_step by blast
next
  case (get_vm m i w r w')
  then show ?case using get_vm_effect [of "served V m" i w] sys_ok_same by simp
next
  case (get_cluster m i w r w')
  then show ?case using get_cluster_effect [of "served V m" i w] sys_ok_same by simp
next
  case (list_vms m ps w r w')
  then show ?case using list_vms_effect [of "served V m" ps w] sys_ok_same by simp
next
  case (list_clusters m ps w r w')
  then show ?case using list_clusters_effect [of "served V m" ps w] sys_ok_same by simp
next
  case (health m w r w')
  then show ?case using get_health_effect [of "served V m" w] sys_ok_same by simp
qed

lemma sys_step_ok:
  assumes "sys_step view V cf st st'" "sv_store V = S" "sys_ok view inv ready st"
  shows "sys_ok view inv ready st'"
  using assms
proof (induction rule: sys_step.induct)
  case operation
  then show ?case using api_step_ok by blast
next
  case poll
  then show ?case using poll_step by blast
qed

lemma sys_steps_ok:
  assumes "(sys_step view V cf)\<^sup>*\<^sup>* st st'" "sv_store V = S" "sys_ok view inv ready st"
  shows "sys_ok view inv ready st'"
  using assms by (induction rule: rtranclp_induct) (simp_all add: sys_step_ok)

end

end
