(* ===== verification/Registration_Props.thy ===== *)
theory Registration_Props
  imports Registration
begin

text \<open>
  The properties of the registration: what an attempt does on every reply, the backoff and the
  termination of the retry loop, and what can happen in the life of its goroutine.
\<close>

section \<open>One attempt\<close>

text \<open>One attempt of the result was counted, and nothing else.\<close>

definition counted :: "string \<Rightarrow> string \<Rightarrow> 'c Spm \<Rightarrow> 'c Spm \<Rightarrow> bool" where
  "counted name result w w' \<longleftrightarrow>
     sp_attempts w' name result = Suc (sp_attempts w name result) \<and>
     (\<forall>n s. (n, s) \<noteq> (name, result) \<longrightarrow> sp_attempts w' n s = sp_attempts w n s)"

lemma counted_count [simp]:
  "sp_attempts w' = sp_attempts w \<Longrightarrow> counted name result w (count_attempt name result w')"
  by (auto simp: counted_def count_attempt_def)

lemma count_attempt_fields [simp]:
  "sp_client (count_attempt name result w) = sp_client w" "sp_status (count_attempt name result w) = sp_status w"
  "sp_client (set_status name v w) = sp_client w" "sp_attempts (set_status name v w) = sp_attempts w"
  "sp_status (set_status name v w) = (sp_status w)(name := v)"
  by (simp_all add: count_attempt_def set_status_def)

text \<open>A registration that did not go through: no flag and no gauge moves.\<close>

definition unsettled :: "string \<Rightarrow> Registrar \<times> 'c Spm \<Rightarrow> Registrar \<times> 'c Spm \<Rightarrow> bool" where
  "unsettled result st st' \<longleftrightarrow>
     fst st' = fst st \<and> sp_status (snd st') = sp_status (snd st) \<and>
     counted (pr_name (rg_cfg (fst st))) result (snd st) (snd st')"

text \<open>
  C25: What one attempt does. An ID that is no UUID is fatal, without a request. A failed request
  and a status outside 200, 201 and 4xx are counted as errors and retried; every 4xx is counted as
  rejected and is fatal. On 200 and 201 the registrar becomes registered, its gauge is set to 1 and
  a success is counted. A reply whose document was not parsed crashes the process instead: at 200
  and 201 before anything is recorded.
\<close>

theorem register_outcome:
  assumes "register E (r, w) = (a, r', w')"
  shows "case en_uuid E (pr_id (rg_cfg r)) of
      Inl _ \<Rightarrow>
        (\<exists>t. a = AttemptErr True t) \<and> sp_client w' = sp_client w \<and> unsettled ''rejected'' (r, w) (r', w')
    | Inr i \<Rightarrow>
        (case en_create E i (provider_of (rg_cfg r)) (sp_client w) of
           (Inl _, c) \<Rightarrow>
             (\<exists>t. a = AttemptErr False t) \<and> sp_client w' = c \<and> unsettled ''error'' (r, w) (r', w')
         | (Inr resp, c) \<Rightarrow>
             sp_client w' = c \<and>
             (let sc = sr_status resp in
              if sc \<in> {200, 201} then
                (case if sc = 201 then sr_json201 resp else sr_json200 resp of
                   Some (Some _) \<Rightarrow>
                     a = AttemptOk \<and> registered r' \<and>
                     sp_status w' = (sp_status w)(pr_name (rg_cfg r) := 1) \<and>
                     counted (pr_name (rg_cfg r)) ''success'' w w'
                 | _ \<Rightarrow> a = AttemptPanic \<and> r' = r \<and> w' = w\<lparr>sp_client := c\<rparr>)
              else if 400 \<le> sc \<and> sc < 500 then
                unsettled ''rejected'' (r, w) (r', w') \<and>
                ((\<exists>t. a = AttemptErr True t) \<or>
                 a = AttemptPanic \<and> (sc = 409 \<and> sr_problem409 resp = None \<or> sc = 400 \<and> sr_problem400 resp = None))
              else (\<exists>t. a = AttemptErr False t) \<and> unsettled ''error'' (r, w) (r', w')))"
proof (cases "en_uuid E (pr_id (rg_cfg r))")
  case (Inl err)
  with assms show ?thesis by (auto simp: register_def Let_def unsettled_def)
next
  case (Inr i)
  obtain reply c where c: "en_create E i (provider_of (rg_cfg r)) (sp_client w) = (reply, c)" by force
  show ?thesis
  proof (cases reply)
    case (Inl err)
    with assms Inr c show ?thesis
      by (auto simp: register_def Let_def unsettled_def)
  next
    case (Inr resp)
    note reg = assms [unfolded register_def, simplified Let_def prod.case \<open>en_uuid E _ = _\<close> sum.case c Inr]
    have sc: "sr_status resp = 201 \<or> sr_status resp = 200 \<or> sr_status resp = 409 \<or> sr_status resp = 400 \<or>
      sr_status resp \<notin> {200, 201, 400, 409}" by auto
    show ?thesis
      unfolding \<open>en_uuid E _ = _\<close> sum.case c Inr prod.case Let_def
      using reg sc
      by (elim disjE) (auto simp: accepted_def refused_def Let_def unsettled_def registered_def
          split: option.splits if_splits)
  qed
qed

text \<open>An SPM that fails twice and then accepts; its state counts the requests.\<close>

definition demo_reply :: "nat \<Rightarrow> SpmResponse" where
  "demo_reply n =
     (if n < 2 then \<lparr>sr_status = 503, sr_json200 = None, sr_json201 = None, sr_problem400 = None, sr_problem409 = None\<rparr>
      else \<lparr>sr_status = 201, sr_json200 = None, sr_json201 = Some (Some ''id-1''), sr_problem400 = None,
            sr_problem409 = None\<rparr>)"

definition demo_spm :: "nat SpmEnv" where
  "demo_spm =
     \<lparr>en_create = (\<lambda>i p n. (Inr (demo_reply n), Suc n)), en_delete = (\<lambda>i n. (Inr 204, Suc n)),
      en_uuid = Inr, en_quote = id\<rparr>"

definition demo_provider :: ProviderConfig where
  "demo_provider =
     \<lparr>pr_id = ''id-1'', pr_name = ''kcli-vm'', pr_display_name = ''kcli Virtual Machines'', pr_endpoint = '''',
      pr_service_type = ''vm'', pr_schema_version = ''v1alpha1'', pr_operations = [''create''], pr_metadata = []\<rparr>"

definition demo_registrar :: Registrar where
  "demo_registrar =
     \<lparr>rg_cfg = demo_provider, rg_initial_backoff = second, rg_max_backoff = 60 * second, rg_started = False,
      rg_cancelled = False, rg_succeeded = False\<rparr>"

definition demo_spm_state :: "nat \<Rightarrow> nat Spm" where
  "demo_spm_state n = \<lparr>sp_client = n, sp_status = (\<lambda>_. 0), sp_attempts = (\<lambda>_ _. 0)\<rparr>"

theorem register_outcome_witness:
  "sp_status (snd (snd (register demo_spm (demo_registrar, demo_spm_state 2)))) ''kcli-vm'' = 1"
proof -
  obtain a r' w' where p: "register demo_spm (demo_registrar, demo_spm_state 2) = (a, r', w')"
    by (metis prod_cases3)
  from register_outcome [OF p] have "sp_status w' ''kcli-vm'' = 1"
    by (simp add: demo_spm_def demo_registrar_def demo_provider_def demo_spm_state_def demo_reply_def Let_def)
  with p show ?thesis by simp
qed

section \<open>The retry loop\<close>

text \<open>How long the loop waits after its i-th attempt.\<close>

definition backoff_at :: "duration \<Rightarrow> duration \<Rightarrow> nat \<Rightarrow> duration" where
  "backoff_at first most i = (if i = 0 then first else min most (first * 2 ^ i))"

definition after_attempts :: "'c SpmEnv \<Rightarrow> nat \<Rightarrow> Registrar \<times> 'c Spm \<Rightarrow> Registrar \<times> 'c Spm" where
  "after_attempts E i st = ((\<lambda>st. snd (register E st)) ^^ i) st"

text \<open>Whether the k-th attempt, in the state \<open>st\<close>, is the last one.\<close>

definition attempt_ends :: "'c SpmEnv \<Rightarrow> (nat \<Rightarrow> bool) \<Rightarrow> nat \<Rightarrow> Registrar \<times> 'c Spm \<Rightarrow> bool" where
  "attempt_ends E ended k st \<longleftrightarrow>
     (case fst (register E st) of AttemptErr False _ \<Rightarrow> ended k | _ \<Rightarrow> True)"

definition end_of :: "attempt \<Rightarrow> run_end" where
  "end_of a =
     (case a of
        AttemptOk \<Rightarrow> Succeeded
      | AttemptPanic \<Rightarrow> Crashed
      | AttemptErr non_retryable _ \<Rightarrow> if non_retryable then GaveUp else Cancelled)"

lemma register_config:
  "rg_cfg (fst (snd (register E st))) = rg_cfg (fst st)"
  "rg_initial_backoff (fst (snd (register E st))) = rg_initial_backoff (fst st)"
  "rg_max_backoff (fst (snd (register E st))) = rg_max_backoff (fst st)"
  "rg_started (fst (snd (register E st))) = rg_started (fst st)"
  "rg_cancelled (fst (snd (register E st))) = rg_cancelled (fst st)"
  by (simp_all add: register_def accepted_def refused_def Let_def split: prod.split sum.split option.split)

lemma wrap64_double: "0 \<le> b \<Longrightarrow> b \<le> most \<Longrightarrow> 2 * most \<le> max_int64 \<Longrightarrow> wrap64 (b * 2) = b * 2"
  by (intro wrap64_id) (simp_all add: min_int64_def)

lemma backoff_next:
  assumes "0 \<le> first" "0 \<le> most" "2 * first \<le> max_int64" "2 * most \<le> max_int64"
  shows "next_backoff most (backoff_at first most i) = backoff_at first most (Suc i)"
proof (cases i)
  case 0
  have "wrap64 (first * 2) = first * 2" using assms(1) order_refl assms(3) by (rule wrap64_double)
  with 0 show ?thesis by (simp add: next_backoff_def backoff_at_def Let_def)
next
  case (Suc j)
  let ?b = "min most (first * 2 ^ i)"
  have "0 \<le> ?b" "?b \<le> most" using assms by simp_all
  then have "wrap64 (?b * 2) = ?b * 2" using assms(4) by (rule wrap64_double)
  with Suc assms show ?thesis by (simp add: next_backoff_def backoff_at_def Let_def min_def)
qed

lemma backoff_range:
  assumes "0 \<le> first" "first \<le> most"
  shows "first \<le> backoff_at first most i \<and> backoff_at first most i \<le> most"
proof -
  have "first * 1 \<le> first * 2 ^ i" using assms(1) by (intro mult_left_mono) simp_all
  then show ?thesis using assms by (simp add: backoff_at_def)
qed

lemma backoff_mono:
  assumes "0 \<le> first" "first \<le> most" "i \<le> j"
  shows "backoff_at first most i \<le> backoff_at first most j"
proof -
  have "first * 2 ^ i \<le> first * 2 ^ j" using assms by (intro mult_left_mono power_increasing) simp_all
  then show ?thesis using assms backoff_range [OF assms(1,2), of j] by (auto simp: backoff_at_def [of _ _ i] backoff_at_def [of _ _ j])
qed

lemma after_attempts_Suc:
  "after_attempts E (Suc i) st = after_attempts E i (snd (register E st))"
  by (simp add: after_attempts_def funpow_Suc_right del: funpow.simps)

lemma run_loop_ends:
  assumes "0 \<le> first" "0 \<le> most" "2 * first \<le> max_int64" "2 * most \<le> max_int64" "rg_max_backoff (fst st) = most"
    and "\<forall>j<i. \<not> attempt_ends E ended (k + j) (after_attempts E j st)"
    and "attempt_ends E ended (k + i) (after_attempts E i st)" "i < fuel"
  shows "run_loop E ended fuel k (backoff_at first most k) st =
    (let a = fst (register E (after_attempts E i st)); e = end_of a in
     Some (e, map (backoff_at first most) [k..<k + (if e = Cancelled then Suc i else i)],
           after_attempts E (Suc i) st))"
  using assms(5-8)
proof (induction i arbitrary: fuel k st)
  case 0
  then obtain n where n: "fuel = Suc n" by (cases fuel) auto
  obtain a st' where r: "register E st = (a, st')" by (cases "register E st")
  show ?case
    using 0 r by (cases a)
      (auto simp: n r end_of_def attempt_ends_def after_attempts_def Let_def split: bool.splits)
next
  case (Suc i)
  then obtain n where n: "fuel = Suc n" "i < n" by (cases fuel) auto
  obtain a st' where r: "register E st = (a, st')" by (cases "register E st")
  have "\<not> attempt_ends E ended k st" using Suc.prems(2) by (auto simp: after_attempts_def)
  then obtain t where a: "a = AttemptErr False t" "\<not> ended k"
    using r by (auto simp: attempt_ends_def split: attempt.splits bool.splits)
  have m: "rg_max_backoff (fst st') = most" using register_config(3) [of E st] r Suc.prems(1) by simp
  have "run_loop E ended n (Suc k) (backoff_at first most (Suc k)) st' =
    (let a = fst (register E (after_attempts E i st')); e = end_of a in
     Some (e, map (backoff_at first most) [Suc k..<Suc k + (if e = Cancelled then Suc i else i)],
           after_attempts E (Suc i) st'))"
  proof (rule Suc.IH [OF m _ _ n(2)])
    show "\<forall>j<i. \<not> attempt_ends E ended (Suc k + j) (after_attempts E j st')"
    proof (intro allI impI)
      fix j assume "j < i"
      with Suc.prems(2) have "\<not> attempt_ends E ended (k + Suc j) (after_attempts E (Suc j) st)" by blast
      then show "\<not> attempt_ends E ended (Suc k + j) (after_attempts E j st')"
        using r by (simp add: after_attempts_Suc)
    qed
    show "attempt_ends E ended (Suc k + i) (after_attempts E i st')"
      using Suc.prems(3) r by (simp add: after_attempts_Suc)
  qed
  then show ?case
    using a r m backoff_next [OF assms(1-4), of k]
    by (simp add: n after_attempts_Suc Let_def upt_conv_Cons)
qed

lemma run_loop_some:
  "run_loop E ended fuel k backoff st = Some res \<Longrightarrow>
   \<exists>i<fuel. attempt_ends E ended (k + i) (after_attempts E i st)"
proof (induction fuel arbitrary: k backoff st res)
  case (Suc n)
  obtain a st' where r: "register E st = (a, st')" by (cases "register E st")
  show ?case
  proof (cases "attempt_ends E ended k st")
    case True
    then have "0 < Suc n \<and> attempt_ends E ended (k + 0) (after_attempts E 0 st)" by (simp add: after_attempts_def)
    then show ?thesis by (rule exI)
  next
    case False
    then obtain t where a: "a = AttemptErr False t" "\<not> ended k"
      using r by (auto simp: attempt_ends_def split: attempt.splits bool.splits)
    let ?rest = "run_loop E ended n (Suc k) (next_backoff (rg_max_backoff (fst st')) backoff) st'"
    obtain res' where "?rest = Some res'"
      using Suc.prems r a by (cases ?rest) simp_all
    from Suc.IH [OF this] obtain i where "i < n \<and> attempt_ends E ended (Suc k + i) (after_attempts E i st')" ..
    then have "Suc i < Suc n \<and> attempt_ends E ended (k + Suc i) (after_attempts E (Suc i) st)"
      using r by (simp add: after_attempts_Suc)
    then show ?thesis by (rule exI)
  qed
qed simp

lemma reg_run_some:
  assumes "reg_run E ended fuel st = Some res"
  obtains i where "i < fuel" "attempt_ends E ended i (after_attempts E i st)"
    "\<forall>j<i. \<not> attempt_ends E ended j (after_attempts E j st)"
proof -
  let ?P = "\<lambda>i. attempt_ends E ended i (after_attempts E i st)"
  have "\<exists>n<fuel. attempt_ends E ended (0 + n) (after_attempts E n st)"
    using assms unfolding reg_run_def by (rule run_loop_some)
  then obtain n where n: "n < fuel" "?P n" by auto
  show ?thesis
  proof (rule that)
    show "(LEAST i. ?P i) < fuel" using Least_le [of ?P, OF n(2)] n(1) by linarith
    show "?P (LEAST i. ?P i)" using n(2) by (rule LeastI)
    show "\<forall>j<LEAST i. ?P i. \<not> ?P j" using not_less_Least by blast
  qed
qed

text \<open>The backoffs of the registrar are small enough to be doubled.\<close>

definition backoffs_ok :: "Registrar \<Rightarrow> bool" where
  "backoffs_ok r \<longleftrightarrow>
     0 \<le> rg_initial_backoff r \<and> rg_initial_backoff r \<le> rg_max_backoff r \<and> 2 * rg_max_backoff r \<le> max_int64"

definition waits :: "Registrar \<Rightarrow> nat \<Rightarrow> duration list" where
  "waits r n = map (backoff_at (rg_initial_backoff r) (rg_max_backoff r)) [0..<n]"

lemma reg_run_ends:
  assumes "backoffs_ok (fst st)" "\<forall>j<i. \<not> attempt_ends E ended j (after_attempts E j st)"
    and "attempt_ends E ended i (after_attempts E i st)" "i < fuel"
  shows "reg_run E ended fuel st =
    (let e = end_of (fst (register E (after_attempts E i st))) in
     Some (e, waits (fst st) (if e = Cancelled then Suc i else i), after_attempts E (Suc i) st))"
  using run_loop_ends [of "rg_initial_backoff (fst st)" "rg_max_backoff (fst st)" st i E ended 0 fuel] assms
  by (simp add: reg_run_def backoffs_ok_def waits_def Let_def backoff_at_def [of _ _ 0])

text \<open>
  C9: When the retry loop ends. It ends exactly when some attempt succeeds, fails for good or
  crashes, or the context ends the wait after it; then the first such attempt is the last request,
  the loop ends as that attempt says, and it has waited once between two attempts (and once more
  when it is cancelled). Enough fuel is one more than the number of the last attempt.
\<close>

theorem run_terminates:
  assumes "backoffs_ok (fst st)"
  shows "((\<exists>fuel. reg_run E ended fuel st \<noteq> None) \<longleftrightarrow>
      (\<exists>i. attempt_ends E ended i (after_attempts E i st))) \<and>
    (\<forall>i fuel. attempt_ends E ended i (after_attempts E i st) \<and>
        (\<forall>j<i. \<not> attempt_ends E ended j (after_attempts E j st)) \<and> i < fuel \<longrightarrow>
      reg_run E ended fuel st =
        (let e = end_of (fst (register E (after_attempts E i st))) in
         Some (e, waits (fst st) (if e = Cancelled then Suc i else i), after_attempts E (Suc i) st)))"
proof (intro conjI allI impI)
  show "(\<exists>fuel. reg_run E ended fuel st \<noteq> None) \<longleftrightarrow>
      (\<exists>i. attempt_ends E ended i (after_attempts E i st))"
  proof
    assume "\<exists>fuel. reg_run E ended fuel st \<noteq> None"
    then obtain fuel res where "reg_run E ended fuel st = Some res" by blast
    then show "\<exists>i. attempt_ends E ended i (after_attempts E i st)" by (elim reg_run_some) blast
  next
    assume "\<exists>i. attempt_ends E ended i (after_attempts E i st)"
    then obtain i where "attempt_ends E ended i (after_attempts E i st)"
      "\<forall>j<i. \<not> attempt_ends E ended j (after_attempts E j st)"
      using exists_least_iff [of "\<lambda>i. attempt_ends E ended i (after_attempts E i st)"] by auto
    from reg_run_ends [OF assms this(2,1) lessI] show "\<exists>fuel. reg_run E ended fuel st \<noteq> None"
      unfolding Let_def by blast
  qed
next
  fix i fuel
  assume "attempt_ends E ended i (after_attempts E i st) \<and>
    (\<forall>j<i. \<not> attempt_ends E ended j (after_attempts E j st)) \<and> i < fuel"
  then show "reg_run E ended fuel st =
      (let e = end_of (fst (register E (after_attempts E i st))) in
       Some (e, waits (fst st) (if e = Cancelled then Suc i else i), after_attempts E (Suc i) st))"
    by (intro reg_run_ends [OF assms]) auto
qed

lemma demo_backoffs: "backoffs_ok demo_registrar"
  by (simp add: backoffs_ok_def demo_registrar_def second_def max_int64_def)

lemma demo_ends:
  "\<not> attempt_ends demo_spm (\<lambda>_. False) 0 (after_attempts demo_spm 0 (demo_registrar, demo_spm_state 0))"
  "\<not> attempt_ends demo_spm (\<lambda>_. False) 1 (after_attempts demo_spm 1 (demo_registrar, demo_spm_state 0))"
  "attempt_ends demo_spm (\<lambda>_. False) 2 (after_attempts demo_spm 2 (demo_registrar, demo_spm_state 0))"
  by code_simp+

theorem run_terminates_witness:
  "\<exists>st'. reg_run demo_spm (\<lambda>_. False) 3 (demo_registrar, demo_spm_state 0) =
     Some (Succeeded, [second, 2 * second], st')"
proof -
  have f: "backoffs_ok (fst (demo_registrar, demo_spm_state 0))" by (simp add: demo_backoffs)
  have e: "end_of (fst (register demo_spm (after_attempts demo_spm 2 (demo_registrar, demo_spm_state 0)))) = Succeeded"
    by code_simp
  have w: "waits demo_registrar 2 = [second, 2 * second]" by code_simp
  have "\<forall>j<2. \<not> attempt_ends demo_spm (\<lambda>_. False) j (after_attempts demo_spm j (demo_registrar, demo_spm_state 0))"
    using demo_ends(1,2) by (auto simp: less_2_cases_iff)
  with run_terminates [OF f, of demo_spm "\<lambda>_. False", THEN conjunct2, rule_format, of 2 3] demo_ends(3)
  show ?thesis by (simp add: e w)
qed



section \<open>The goroutine\<close>

text \<open>A registrar as it leaves \<open>NewRegistrar\<close>, before anything was counted under its name.\<close>

definition fresh_registrar :: "Registrar \<Rightarrow> 'c Spm \<Rightarrow> bool" where
  "fresh_registrar r w \<longleftrightarrow>
     \<not> rg_started r \<and> \<not> rg_cancelled r \<and> \<not> rg_succeeded r \<and> sp_status w (pr_name (rg_cfg r)) = 0 \<and>
     sp_attempts w (pr_name (rg_cfg r)) ''success'' = 0"

definition backoff_in :: "thread \<Rightarrow> duration set" where
  "backoff_in th = (case th of Attempting b \<Rightarrow> {b} | Waiting b \<Rightarrow> {b} | _ \<Rightarrow> {})"

definition life_inv :: "'c life \<Rightarrow> bool" where
  "life_inv s \<longleftrightarrow>
     (case s of
        (th, r, w) \<Rightarrow>
          (th = NotStarted \<longleftrightarrow> \<not> rg_started r) \<and> (rg_cancelled r \<longrightarrow> rg_started r) \<and>
          (registered r \<longrightarrow> th = Exited) \<and>
          sp_attempts w (pr_name (rg_cfg r)) ''success'' = (if registered r then 1 else 0) \<and>
          sp_status w (pr_name (rg_cfg r)) \<in> (if registered r then {0, 1} else {0}) \<and>
          backoff_in th \<subseteq> {rg_initial_backoff r .. rg_max_backoff r} \<and> backoffs_ok r)"

lemma deregister_fields [simp]:
  "fst (deregister E st) = fst st" "sp_attempts (snd (deregister E st)) = sp_attempts (snd st)"
  by (simp_all add: deregister_def split: prod.split sum.split)

lemma deregister_status:
  "sp_status (snd (deregister E st)) = sp_status (snd st) \<or>
   sp_status (snd (deregister E st)) = (sp_status (snd st))(pr_name (rg_cfg (fst st)) := 0)"
  by (simp add: deregister_def split: prod.split sum.split)

lemma register_settled:
  assumes "register E (r, w) = (a, r', w')"
  shows "a = AttemptOk \<and> r' = r\<lparr>rg_succeeded := True\<rparr> \<and>
      sp_status w' (pr_name (rg_cfg r)) = 1 \<and>
      sp_attempts w' (pr_name (rg_cfg r)) ''success'' = Suc (sp_attempts w (pr_name (rg_cfg r)) ''success'') \<or>
    a \<noteq> AttemptOk \<and> r' = r \<and> sp_status w' = sp_status w \<and>
      sp_attempts w' (pr_name (rg_cfg r)) ''success'' = sp_attempts w (pr_name (rg_cfg r)) ''success''"
  using assms
  by (auto simp: register_def accepted_def refused_def Let_def count_attempt_def set_status_def
      split: prod.splits sum.splits option.splits if_splits)

lemma next_backoff_in:
  "backoffs_ok r \<Longrightarrow> b \<in> {rg_initial_backoff r .. rg_max_backoff r} \<Longrightarrow>
   next_backoff (rg_max_backoff r) b \<in> {rg_initial_backoff r .. rg_max_backoff r}"
  using wrap64_double [of b "rg_max_backoff r"] by (auto simp: backoffs_ok_def next_backoff_def Let_def)

lemma life_inv_attempt:
  assumes "life_inv (Attempting b, r, w)"
  shows "life_inv (attempt_step E b (r, w))"
proof -
  obtain a r' w' where p: "register E (r, w) = (a, r', w')" by (metis prod_cases3)
  from register_settled [OF p] assms show ?thesis
    by (cases a) (auto simp: life_inv_def attempt_step_def p registered_def backoff_in_def backoffs_ok_def)
qed

lemma life_inv_left:
  "sp_attempts w' = sp_attempts w \<Longrightarrow>
   sp_status w' (pr_name (rg_cfg r)) \<in> {sp_status w (pr_name (rg_cfg r)), 0} \<Longrightarrow>
   life_inv (th, r, w) \<Longrightarrow> life_inv (th, r, w')"
  by (auto simp: life_inv_def)

lemma life_inv_step: "life_step E s s' \<Longrightarrow> life_inv s \<Longrightarrow> life_inv s'"
proof (induction rule: life_step.induct)
  case (start s)
  then show ?case
    by (cases s) (auto simp: life_inv_def start_background_def registered_def backoff_in_def backoffs_ok_def)
next
  case (attempt backoff st)
  then show ?case using life_inv_attempt by (cases st) simp
next
  case (timer backoff r w)
  then show ?case using next_backoff_in [of r backoff]
    by (auto simp: life_inv_def backoff_in_def)
next
  case (ctx_done r backoff w)
  then show ?case by (auto simp: life_inv_def backoff_in_def)
next
  case (stop s)
  then show ?case
    by (cases s) (auto simp: life_inv_def stop_request_def registered_def backoffs_ok_def)
next
  case (leave th st)
  obtain r w where st: "st = (r, w)" by (cases st)
  obtain w' where d: "deregister E (r, w) = (r, w')"
    using deregister_fields(1) [of E "(r, w)"] by (cases "deregister E (r, w)") simp
  have "sp_attempts w' = sp_attempts w" using deregister_fields(2) [of E "(r, w)"] d by simp
  moreover have "sp_status w' (pr_name (rg_cfg r)) \<in> {sp_status w (pr_name (rg_cfg r)), 0}"
    using deregister_status [of E "(r, w)"] d by auto
  ultimately show ?case using leave unfolding st d by (rule life_inv_left)
qed

text \<open>
  C15: In every state the goroutine can reach, the registrar is registered only when the goroutine
  is over and exactly one success has been counted for it; the gauge is 1 only then; and the backoff
  lies between the initial and the largest.
\<close>

theorem registered_once:
  assumes "fresh_registrar r0 w0" "backoffs_ok r0" "life_steps E (NotStarted, r0, w0) (th, r, w)"
  shows "(registered r \<longrightarrow> th = Exited) \<and>
    sp_attempts w (pr_name (rg_cfg r)) ''success'' = (if registered r then 1 else 0) \<and>
    sp_status w (pr_name (rg_cfg r)) \<in> (if registered r then {0, 1} else {0}) \<and>
    backoff_in th \<subseteq> {rg_initial_backoff r .. rg_max_backoff r}"
proof -
  have "life_inv (NotStarted, r0, w0)"
    using assms(1,2) by (simp add: life_inv_def fresh_registrar_def registered_def backoff_in_def)
  with assms(3) have "life_inv (th, r, w)"
    by (induction rule: rtranclp_induct) (use life_inv_step in blast)+
  then show ?thesis by (simp add: life_inv_def)
qed

theorem registered_once_witness:
  "case attempt_step demo_spm second (demo_registrar\<lparr>rg_started := True\<rparr>, demo_spm_state 2) of
     (th, r, w) \<Rightarrow> registered r \<longrightarrow> th = Exited"
proof -
  let ?r = "demo_registrar\<lparr>rg_started := True\<rparr>" and ?w = "demo_spm_state 2"
  obtain th r w where a: "attempt_step demo_spm second (?r, ?w) = (th, r, w)" by (metis prod_cases3)
  have "life_step demo_spm (NotStarted, demo_registrar, ?w) (Attempting second, ?r, ?w)"
    using life_step.start [of demo_spm "(NotStarted, demo_registrar, ?w)"]
    by (simp add: start_background_def demo_registrar_def)
  moreover have "life_step demo_spm (Attempting second, ?r, ?w) (th, r, w)"
    unfolding a [symmetric] by (rule life_step.attempt)
  ultimately have l: "life_steps demo_spm (NotStarted, demo_registrar, ?w) (th, r, w)" by simp
  have f: "fresh_registrar demo_registrar ?w"
    by (simp add: fresh_registrar_def demo_registrar_def demo_spm_state_def)
  show ?thesis using registered_once [OF f demo_backoffs l] a by simp
qed

text \<open>The requests that are still made once the goroutine is over.\<close>

definition delete_call :: "'c SpmEnv \<Rightarrow> Registrar \<Rightarrow> 'c \<Rightarrow> 'c" where
  "delete_call E r c =
     (case en_uuid E (pr_id (rg_cfg r)) of Inl _ \<Rightarrow> c | Inr i \<Rightarrow> snd (en_delete E i c))"

lemma deregister_client: "sp_client (snd (deregister E (r, w))) = delete_call E r (sp_client w)"
  by (simp add: deregister_def delete_call_def set_status_def split: prod.split sum.split)

lemma exited_step:
  assumes "life_step E (Exited, r, w) (th', r', w')"  "rg_started r"
  shows "th' = Exited \<and> registered r' = registered r \<and> rg_cfg r' = rg_cfg r \<and> rg_started r' \<and>
    sp_attempts w' = sp_attempts w \<and> sp_client w' \<in> {sp_client w, delete_call E r (sp_client w)}"
  using assms
  by (elim exited_stepE) (auto simp: start_background_def stop_request_def registered_def
      deregister_client [symmetric] prod_eq_iff)

text \<open>
  C27: Once \<open>Stop\<close> has returned (the goroutine is over), nothing registers any more: no attempt is
  made or counted, the flag stays, and the only requests that still reach SPM are the DELETEs of
  \<open>Deregister\<close>, which is therefore the last word.
\<close>

theorem registration_stops:
  assumes "stop_returns (th, r, w)" "rg_started r" "life_steps E (th, r, w) (th', r', w')"
  shows "th' = Exited \<and> registered r' = registered r \<and> sp_attempts w' = sp_attempts w \<and>
    (\<exists>n. sp_client w' = (delete_call E r ^^ n) (sp_client w))"
proof -
  have "th' = Exited \<and> registered r' = registered r \<and> rg_cfg r' = rg_cfg r \<and> rg_started r' \<and>
    sp_attempts w' = sp_attempts w \<and> (\<exists>n. sp_client w' = (delete_call E r ^^ n) (sp_client w))"
    using assms(3)
  proof (induction "(th', r', w')" arbitrary: th' r' w' rule: rtranclp_induct)
    case base
    with assms(1,2) show ?case by (auto simp: stop_returns_def intro: exI [of _ 0])
  next
    case (step s)
    obtain th1 r1 w1 where s: "s = (th1, r1, w1)" by (metis prod_cases3)
    from step(3) [OF s] obtain n where n: "th1 = Exited" "registered r1 = registered r" "rg_cfg r1 = rg_cfg r"
      "rg_started r1" "sp_attempts w1 = sp_attempts w" "sp_client w1 = (delete_call E r ^^ n) (sp_client w)"
      by blast
    have d: "delete_call E r1 = delete_call E r" by (rule ext) (simp add: delete_call_def n(3))
    from exited_step [of E r1 w1 th' r' w'] step(2) n
    have "sp_client w' = (delete_call E r ^^ n) (sp_client w) \<or>
        sp_client w' = (delete_call E r ^^ Suc n) (sp_client w)"
      by (auto simp: s d)
    then show ?case using exited_step [of E r1 w1 th' r' w'] step(2) n by (auto simp: s simp del: funpow.simps)
  qed
  then show ?thesis by blast
qed

theorem registration_stops_witness:
  "sp_attempts (snd (deregister demo_spm (demo_registrar\<lparr>rg_started := True\<rparr>, demo_spm_state 2))) =
     sp_attempts (demo_spm_state 2)"
proof -
  let ?r = "demo_registrar\<lparr>rg_started := True\<rparr>" and ?w = "demo_spm_state 2"
  obtain r' w' where d: "deregister demo_spm (?r, ?w) = (r', w')" by (cases "deregister demo_spm (?r, ?w)")
  have "life_steps demo_spm (Exited, ?r, ?w) (Exited, r', w')"
    unfolding d [symmetric] by (intro r_into_rtranclp life_step.leave)
  from registration_stops [OF _ _ this] d show ?thesis by (simp add: stop_returns_def)
qed

text \<open>The loop is what the goroutine does.\<close>

definition thread_of_end :: "run_end \<Rightarrow> thread" where
  "thread_of_end e = (if e = Crashed then Dead else Exited)"

lemma register_flags:
  "register E (r\<lparr>rg_started := x, rg_cancelled := y\<rparr>, w) =
    (case register E (r, w) of (a, r', w') \<Rightarrow> (a, r'\<lparr>rg_started := x, rg_cancelled := y\<rparr>, w'))"
  by (simp add: register_def accepted_def refused_def Let_def split: prod.split sum.split option.split)

lemma end_of_register:
  "register E st = (a, st') \<Longrightarrow> a = AttemptOk \<or> a = AttemptPanic \<or> (\<exists>t. a = AttemptErr True t) \<Longrightarrow>
   attempt_step E b st = (thread_of_end (end_of a), st')"
  by (auto simp: attempt_step_def thread_of_end_def end_of_def)

lemma run_loop_steps:
  assumes "run_loop E ended fuel k b (r, w) = Some (e, ws, r', w')"
  shows "life_steps E (Attempting b, r\<lparr>rg_started := True, rg_cancelled := False\<rparr>, w)
    (thread_of_end e, r'\<lparr>rg_started := True, rg_cancelled := (e = Cancelled)\<rparr>, w')"
  using assms
proof (induction fuel arbitrary: k b r w ws)
  case (Suc n)
  let ?on = "\<lambda>r c. r\<lparr>rg_started := True, rg_cancelled := c\<rparr>"
  obtain a r1 w1 where p: "register E (r, w) = (a, r1, w1)" by (metis prod_cases3)
  then have q: "register E (?on r False, w) = (a, ?on r1 False, w1)" by (simp add: register_flags)
  have st: "life_step E (Attempting b, ?on r False, w) (attempt_step E b (?on r False, w))"
    by (rule life_step.attempt)
  show ?case
  proof (cases "\<exists>t. a = AttemptErr False t")
    case False
    then have "a = AttemptOk \<or> a = AttemptPanic \<or> (\<exists>t. a = AttemptErr True t)"
      by (metis (full_types) attempt.exhaust)
    moreover from this have "e = end_of a" "r' = r1" "w' = w1"  "end_of a \<noteq> Cancelled"
      using Suc.prems p by (auto simp: end_of_def)
    ultimately show ?thesis using st end_of_register [OF q] by simp
  next
    case True
    then obtain t where a: "a = AttemptErr False t" by blast
    have 1: "life_step E (Attempting b, ?on r False, w) (Waiting b, ?on r1 False, w1)"
      using st by (simp add: attempt_step_def q a)
    show ?thesis
    proof (cases "ended k")
      case True
      then have e: "e = Cancelled" "r' = r1" "w' = w1" using Suc.prems p a by auto
      have "life_step E (Waiting b, ?on r1 False, w1) (Waiting b, ?on r1 True, w1)"
        using life_step.stop [of E "(Waiting b, ?on r1 False, w1)"] by (simp add: stop_request_def)
      moreover have "life_step E (Waiting b, ?on r1 True, w1) (Exited, ?on r1 True, w1)"
        by (rule life_step.ctx_done) simp
      ultimately show ?thesis using 1 e
        by (simp add: thread_of_end_def)
    next
      case False
      let ?b = "next_backoff (rg_max_backoff r1) b"
      obtain ws' where "run_loop E ended n (Suc k) ?b (r1, w1) = Some (e, ws', r', w')"
        using Suc.prems p a False by (auto split: option.splits)
      note ih = Suc.IH [OF this]
      have "life_step E (Waiting b, ?on r1 False, w1) (Attempting ?b, ?on r1 False, w1)"
        using life_step.timer [of E b "?on r1 False" w1] by simp
      with 1 ih show ?thesis by (meson converse_rtranclp_into_rtranclp)
    qed
  qed
qed simp

text \<open>
  The retry loop and the goroutine agree: what a run of the loop ends with is a state that the
  goroutine reaches after \<open>StartBackground\<close>.
\<close>

theorem run_is_background:
  assumes "\<not> rg_started r" "\<not> rg_cancelled r" "reg_run E ended fuel (r, w) = Some (e, ws, r', w')"
  shows "life_steps E (NotStarted, r, w)
    (thread_of_end e, r'\<lparr>rg_started := True, rg_cancelled := (e = Cancelled)\<rparr>, w')"
proof -
  have "r\<lparr>rg_started := True\<rparr> = r\<lparr>rg_started := True, rg_cancelled := False\<rparr>"
    using assms(2) by (cases r) simp
  then have "life_step E (NotStarted, r, w)
      (Attempting (rg_initial_backoff r), r\<lparr>rg_started := True, rg_cancelled := False\<rparr>, w)"
    using life_step.start [of E "(NotStarted, r, w)"] assms(1) by (simp add: start_background_def)
  moreover note run_loop_steps [OF assms(3) [unfolded reg_run_def fst_conv]]
  ultimately show ?thesis by (rule converse_rtranclp_into_rtranclp)
qed

theorem run_is_background_witness:
  "\<exists>r w. life_steps demo_spm (NotStarted, demo_registrar, demo_spm_state 0) (Exited, r, w)"
proof -
  have "map_option fst (reg_run demo_spm (\<lambda>_. False) 3 (demo_registrar, demo_spm_state 0)) = Some Succeeded"
    by code_simp
  then obtain ws r' w' where
    "reg_run demo_spm (\<lambda>_. False) 3 (demo_registrar, demo_spm_state 0) = Some (Succeeded, ws, r', w')" by auto
  from run_is_background [OF _ _ this] show ?thesis
    by (auto simp: demo_registrar_def thread_of_end_def)
qed

end
