(* ===== verification/System_Props.thy ===== *)
theory System_Props
  imports System Monitor_Props Cluster_Props Registration_Props Router_Props
begin

text \<open>
  The properties that span components: the gauge from startup through every operation and poll, the
  delete under the wrong type, the endpoints that are registered and served, and the shutdown.
\<close>

section \<open>The gauge\<close>

lemma count_entries:
  "fold count_entry es (a, b) =
     (a + int (length (filter (\<lambda>e. re_type e = ''vm'') es)),
      b + int (length (filter (\<lambda>e. re_type e = ''cluster'') es)))"
  by (induction es arbitrary: a b) (simp_all add: count_entry_def)

lemma counted_held:
  assumes "distinct (map re_id es)" "set es = {e. v (re_id e) = Some e}"
    and "\<And>i e. v i = Some e \<Longrightarrow> re_id e = i"
  shows "length (filter (\<lambda>e. re_type e = ty) es) = card (held ty v)"
proof -
  let ?es = "filter (\<lambda>e. re_type e = ty) es"
  have "held ty v = set (map re_id ?es)" 
  proof (intro equalityI subsetI)
    fix i assume "i \<in> held ty v"
    then obtain e where "v i = Some e" "re_type e = ty" by (auto simp: held_def)
    then have "e \<in> set ?es" "i = re_id e" using assms(2,3) by auto
    then show "i \<in> set (map re_id ?es)" by simp
  next
    fix i assume "i \<in> set (map re_id ?es)"
    then show "i \<in> held ty v" using assms(2) by (auto simp: held_def)
  qed
  moreover have "distinct (map re_id ?es)" using assms(1) by (rule distinct_map_filter)
  ultimately show ?thesis using distinct_card by (metis length_map)
qed

context live_bolt
begin

lemma init_gauges_ok:
  assumes "sv_store V = store_ops B" "live_inv B (w_store w)" "store_ready B (w_store w)"
    and "\<forall>i e. store_view B (w_store w) i = Some e \<longrightarrow> typed e" "w_managed w = (\<lambda>_. 0)"
  shows "sys_ok (store_view B) (live_inv B) (store_ready B) (init_gauges V w, m)"
proof -
  let ?v = "store_view B (w_store w)"
  have inv: "store_inv B (w_store w)" using assms(2) by (simp add: live_inv_def)
  obtain es where es: "decode_each None (\<lambda>_. True) (bo_foreach B (w_store w) resources) = Inr es"
    "distinct (map re_id es)" "set es = {e. ?v (re_id e) = Some e \<and> True}"
    using listing [OF inv kept_all [of "\<lambda>_. True"]] by blast
  then have l: "ss_list_all (sv_store V) (w_store w) = Inr es"
    using assms(1,3) by (simp add: store_ops_def store_list_all_def with_view_def store_ready_def)
  have "length (filter (\<lambda>e. re_type e = ty) es) = card (held ty ?v)" for ty
    using es(2,3) by (intro counted_held) (use live.view_id [OF assms(2)] in auto)
  with assms l show ?thesis
    by (simp add: sys_ok_def init_gauges_def count_entries gauge_exact_def effect_simps)
qed

end



section \<open>Deleting under the wrong type\<close>

text \<open>
  C39: Deleting the ID of a cluster as a VM is accepted: the entry of the cluster is removed although
  kweb was only asked to delete a VM of that name and not the cluster; and the gauges no longer
  count: the one of VMs is one too low, the one of clusters one too high.
\<close>

theorem cross_type_delete:
  assumes "live_bolt B" "sv_store V = store_ops B"
    and "sys_ok (store_view B) (live_inv B) (store_ready B) (w, m)"
    and "store_view B (w_store w) i = Some e" "re_type e = ''cluster''"
    and "kc_delete_vm (sv_kweb V) (re_kcli_name e) (w_kweb w) = (None, k)"
    and "delete_vm V cx i w = (r, w')"
  shows "r = DeleteVM204 \<and> store_view B (w_store w') i = None \<and> w_kweb w' = k \<and>
    w_managed w' ''vm'' = int (card (held ''vm'' (store_view B (w_store w')))) - 1 \<and>
    w_managed w' ''cluster'' = int (card (held ''cluster'' (store_view B (w_store w')))) + 1"
proof -
  note ls = live_bolt.is_live_store [OF assms(1)]
  have ok: "live_inv B (w_store w)" "store_ready B (w_store w)" "typed e"
    "gauge_exact (w_managed w) (store_view B (w_store w))"
    using assms(3,4) by (simp_all add: sys_ok_def)
  from typed_not_deleting [OF ok(3)] have "re_status e \<noteq> ''DELETING''" "re_status e \<noteq> ''DELETED''" by auto
  note d = live_store.delete_vm_live [OF ls ok(1,2) assms(2,4) this assms(7,6)]
  have h: "i \<in> held ''cluster'' (store_view B (w_store w))" using assms(4,5) by (auto simp: held_def)
  note c = card_removed [OF h live_store.held_finite [OF ls ok(1,2)]]
  show ?thesis using d ok(4) c [of "''vm''"] c [of "''cluster''"] by (simp add: gauge_exact_def)
qed

lemma demo_cluster_ok_sys:
  "sys_ok (store_view kv_bolt) (live_inv kv_bolt) (store_ready kv_bolt) (demo_cluster_world, new_monitor)"
proof -
  obtain r w' where c: "create_cluster (served demo_server new_monitor) (Some ''c-1'') demo_cluster_spec demo_world = (r, w')"
    by (metis surj_pair)
  have "create_cluster (served demo_server new_monitor) (Some ''c-1'') demo_cluster_spec demo_world =
      create_cluster demo_server (Some ''c-1'') demo_cluster_spec demo_world"
    unfolding create_cluster_def find_existing_def create_cluster_error_def now_def served_simps ..
  with c have w: "demo_cluster_world = w'" by (simp add: demo_cluster_world_def)
  have "sys_ok (store_view kv_bolt) (live_inv kv_bolt) (store_ready kv_bolt) (demo_world, new_monitor)"
    using kv_empty_live kv_empty_ready by (simp add: sys_ok_def gauge_exact_def held_def)
  from live_store.create_cluster_step [OF live_kv.is_live_store this demo_store(1) c]
  show ?thesis unfolding w using demo_cluster_ok by (simp add: new_entry_ok_def demo_new_cluster given_def)
qed

theorem cross_type_delete_witness:
  "let w' = snd (delete_vm demo_server demo_ctx ''c-1'' demo_cluster_world) in
   w_managed w' ''cluster'' = int (card (held ''cluster'' (store_view kv_bolt (w_store w')))) + 1"
proof -
  obtain r w' where d: "delete_vm demo_server demo_ctx ''c-1'' demo_cluster_world = (r, w')" by (metis surj_pair)
  obtain k where k: "kc_delete_vm (sv_kweb demo_server) (re_kcli_name demo_cluster_entry)
      (w_kweb demo_cluster_world) = (None, k)"
  proof -
    have "fst (kc_delete_vm (sv_kweb demo_server) (re_kcli_name demo_cluster_entry)
      (w_kweb demo_cluster_world)) = None" by code_simp
    then show ?thesis by (metis that prod.collapse)
  qed
  have e: "store_view kv_bolt (w_store demo_cluster_world) ''c-1'' = Some demo_cluster_entry"
    "re_type demo_cluster_entry = ''cluster''"
    by (simp_all add: demo_cluster_store demo_cluster_entry_def)
  from cross_type_delete [OF live_kv.live_bolt_axioms demo_store(1) demo_cluster_ok_sys e k d]
  show ?thesis unfolding d by simp
qed

section \<open>What is registered is what is served\<close>

lemma post_paths_tag:
  assumes "\<And>p rest. (p, Some (tag # rest)) \<in> set ps \<Longrightarrow> p = q"
  shows "map_of (fold add_post_path ps acc) tag =
    (if \<exists>p rest. (p, Some (tag # rest)) \<in> set ps then Some q else map_of acc tag)"
  using assms
proof (induction ps arbitrary: acc)
  case (Cons item ps)
  obtain p po where item: "item = (p, po)" by (cases item)
  have ih: "map_of (fold add_post_path ps a) tag =
    (if \<exists>p rest. (p, Some (tag # rest)) \<in> set ps then Some q else map_of a tag)" for a
    by (rule Cons.IH) (erule Cons.prems [OF list.set_intros(2)])
  show ?case
  proof (cases "\<exists>rest. po = Some (tag # rest)")
    case True
    then obtain rest where po: "po = Some (tag # rest)" by blast
    then have "p = q" using Cons.prems [of p rest] by (simp add: item)
    then have a: "map_of (add_post_path item acc) tag = Some q" by (simp add: add_post_path_def item po)
    have "\<exists>p rest. (p, Some (tag # rest)) \<in> set (item # ps)" using item po by auto
    then show ?thesis using ih [of "add_post_path item acc"] a by simp
  next
    case False
    then have a: "map_of (add_post_path item acc) tag = map_of acc tag"
      by (auto simp: add_post_path_def item split: option.split list.split)
    have "(\<exists>p rest. (p, Some (tag # rest)) \<in> set (item # ps)) \<longleftrightarrow>
        (\<exists>p rest. (p, Some (tag # rest)) \<in> set ps)" using False item by auto
    then show ?thesis using ih [of "add_post_path item acc"] a by simp
  qed
qed simp

text \<open>The paths with a POST operation in the OpenAPI document of the repository, by their tag.\<close>

definition creating_paths :: "OpenApi \<Rightarrow> bool" where
  "creating_paths spec \<longleftrightarrow>
     (\<forall>p tags. (p, Some tags) \<in> set (oa_paths spec) \<longleftrightarrow>
        (p, tags) \<in> {(''/clusters'', [''cluster'']), (''/vms'', [''vm''])}) \<and>
     oa_servers spec = [''/api/v1alpha1'']"

lemma creating_post_paths:
  assumes "creating_paths spec" "post_paths (Inr spec) = Inr paths"
  shows "path_of paths ''vm'' = ''/vms'' \<and> path_of paths ''cluster'' = ''/clusters''"
proof -
  have e: "(p, Some tags) \<in> set (oa_paths spec) \<longleftrightarrow>
      p = ''/clusters'' \<and> tags = [''cluster''] \<or> p = ''/vms'' \<and> tags = [''vm'']" for p tags
    using assms(1) by (auto simp: creating_paths_def)
  have "paths = fold add_post_path (oa_paths spec) []"
    using assms(2) by (auto simp: post_paths_def Let_def split: if_splits)
  then show ?thesis
    using post_paths_tag [of "''vm''" "oa_paths spec" "''/vms''" "[]"]
      post_paths_tag [of "''cluster''" "oa_paths spec" "''/clusters''" "[]"] e
    by (simp add: path_of_def)
qed

lemma new_registrar_plain:
  "new_registrar client url cfg [] = Inr rc \<Longrightarrow>
   rg_cfg (fst rc) = cfg \<and> backoffs_ok (fst rc) \<and> \<not> rg_started (fst rc) \<and> \<not> registered (fst rc)"
  by (auto simp: new_registrar_def backoffs_ok_def registered_def second_def max_int64_def split: sum.splits)


definition demo_spec :: OpenApi where
  "demo_spec =
     \<lparr>oa_paths = [(''/clusters'', Some [''cluster'']), (''/vms'', Some [''vm'']), (''/health'', None)],
      oa_servers = [''/api/v1alpha1'']\<rparr>"

definition demo_outside :: "(kvdb, unit, nat) Outside" where
  "demo_outside =
     \<lparr>os_open_store = (\<lambda>_. Inr kv_empty), os_nats = (\<lambda>_. Inl ''no server''), os_spm = (\<lambda>_. Inr 0),
      os_uuid = (\<lambda>n. ''uuid-'' @ nat_str n), os_spec = Inr demo_spec\<rparr>"


section \<open>The shutdown\<close>

text \<open>
  A goroutine that \<open>Stop\<close> can wait for: it was started, has not crashed, and the attempt that may be
  in flight does not crash either.
\<close>

definition stoppable :: "'c SpmEnv \<Rightarrow> 'c life \<Rightarrow> bool" where
  "stoppable E s \<longleftrightarrow>
     (case s of
        (th, r, w) \<Rightarrow>
          rg_started r \<and>
          (case th of
             NotStarted \<Rightarrow> False
           | Dead \<Rightarrow> False
           | Attempting backoff \<Rightarrow> fst (register E (r, w)) \<noteq> AttemptPanic
           | _ \<Rightarrow> True))"

lemma reg_stop_exits:
  assumes "stoppable E s"
  shows "\<exists>st. reg_stop E s = Some (Exited, st) \<and> life_steps E s (Exited, st)"
proof -
  obtain th r w where s: "s = (th, r, w)" by (metis prod_cases3)
  let ?r = "r\<lparr>rg_cancelled := True\<rparr>"
  have r: "rg_started r" using assms by (simp add: stoppable_def s)
  then have q: "stop_request s = (th, ?r, w)" by (simp add: stop_request_def s)
  have 0: "life_step E s (th, ?r, w)" unfolding q [symmetric] by (rule life_step.stop)
  have waiting: "life_step E (Waiting b, r', w') (Exited, r', w')" if "rg_cancelled r'" for b r' w'
    using that by (rule life_step.ctx_done)
  show ?thesis
  proof (cases th)
    case (Attempting b)
    obtain a r1 w1 where p: "register E (?r, w) = (a, r1, w1)" by (metis prod_cases3)
    have "r\<lparr>rg_started := True, rg_cancelled := True\<rparr> = ?r" using r by (cases r) simp
    then have "fst (register E (?r, w)) = fst (register E (r, w))"
      using register_flags [where E = E and r = r and w = w and x = True and y = True] by (simp split: prod.split)
    then have a: "a \<noteq> AttemptPanic" using assms p by (simp add: stoppable_def s Attempting)
    have c: "rg_cancelled r1" using register_config(5) [of E "(?r, w)"] p by simp
    have "life_step E (Attempting b, ?r, w) (attempt_step E b (?r, w))" by (rule life_step.attempt)
    with 0 have 1: "life_steps E s (attempt_step E b (?r, w))"
      unfolding Attempting by (rule rtranclp.rtrancl_into_rtrancl [OF r_into_rtranclp])
    show ?thesis
    proof (cases "\<exists>t. a = AttemptErr False t")
      case True
      then have at: "attempt_step E b (?r, w) = (Waiting b, r1, w1)" by (auto simp: attempt_step_def p)
      have "reg_stop E s = Some (Exited, r1, w1)"
        by (simp add: reg_stop_def q Attempting finish_def at stop_returns_def)
      moreover have "life_steps E s (Exited, r1, w1)"
        using 1 waiting [OF c] unfolding at by (rule rtranclp.rtrancl_into_rtrancl)
      ultimately show ?thesis by blast
    next
      case False
      then have at: "attempt_step E b (?r, w) = (Exited, r1, w1)"
        using a by (cases a) (auto simp: attempt_step_def p)
      have "reg_stop E s = Some (Exited, r1, w1)"
        by (simp add: reg_stop_def q Attempting finish_def at stop_returns_def)
      moreover have "life_steps E s (Exited, r1, w1)"
        using 1 by (simp add: at)
      ultimately show ?thesis by blast
    qed
  next
    case (Waiting b)
    have "reg_stop E s = Some (Exited, ?r, w)"
      by (simp add: reg_stop_def q Waiting finish_def stop_returns_def)
    moreover have "life_steps E s (Exited, ?r, w)" using 0 waiting [of ?r b w] by (simp add: Waiting)
    ultimately show ?thesis by blast
  next
    case Exited
    have "reg_stop E s = Some (Exited, ?r, w)"
      by (simp add: reg_stop_def q Exited finish_def stop_returns_def)
    then show ?thesis using 0 Exited by blast
  qed (use assms in \<open>simp_all add: stoppable_def s\<close>)
qed

text \<open>
  When both registrars can be stopped, the shutdown returns, with every goroutine over, and
  each registrar's last call to SPM is its deregistration; the publisher and the store are closed
  after that. Nothing registers afterwards.
\<close>

theorem shutdown_deregisters:
  assumes "\<forall>s \<in> set lives. stoppable E s"
  shows "\<exists>stopped. shutdown E close_pub close_store (lives, p, s) =
      Some (map (reg_deregister E) stopped, close_pub p, snd (close_store s)) \<and>
    list_all2 (life_steps E) lives stopped \<and> (\<forall>l \<in> set stopped. fst l = Exited)"
proof -
  have "\<exists>stopped. those (map (reg_stop E) lives) = Some stopped \<and>
      list_all2 (life_steps E) lives stopped \<and> (\<forall>l \<in> set stopped. fst l = Exited)"
    using assms
  proof (induction lives)
    case (Cons l lives)
    then obtain rest where rest: "those (map (reg_stop E) lives) = Some rest"
      "list_all2 (life_steps E) lives rest" "\<forall>l \<in> set rest. fst l = Exited" by auto
    obtain st where st: "reg_stop E l = Some (Exited, st)" "life_steps E l (Exited, st)"
      using reg_stop_exits [of E l] Cons.prems by auto
    show ?case by (rule exI [of _ "(Exited, st) # rest"]) (simp add: rest st)
  qed simp
  then show ?thesis by (auto simp: shutdown_def)
qed

theorem shutdown_deregisters_witness:
  "\<exists>l. shutdown demo_spm id (\<lambda>s. (None, s))
     ([(Waiting second, demo_registrar\<lparr>rg_started := True\<rparr>, demo_spm_state 0)], (), ()) =
     Some ([reg_deregister demo_spm l], (), ()) \<and> fst l = Exited"
proof -
  let ?l = "(Waiting second, demo_registrar\<lparr>rg_started := True\<rparr>, demo_spm_state 0)"
  have "\<forall>s \<in> set [?l]. stoppable demo_spm s" by (simp add: stoppable_def)
  from shutdown_deregisters [OF this, of id "\<lambda>s. (None, s)" "()" "()"] obtain stopped where
    s: "shutdown demo_spm id (\<lambda>s. (None, s)) ([?l], (), ()) = Some (map (reg_deregister demo_spm) stopped, (), ())"
      "list_all2 (life_steps demo_spm) [?l] stopped" "\<forall>l \<in> set stopped. fst l = Exited"
    by (elim exE conjE) (simp only: id_apply snd_conv)
  then obtain l where "stopped = [l]" by (auto simp: list_all2_Cons1)
  with s show ?thesis by (intro exI [of _ l]) simp
qed

end
