(* ===== verification/Startup.thy ===== *)
theory Startup
  imports Lifecycle
begin

text \<open>
  The process from \<open>main\<close> to its exit (\<open>run\<close> and \<open>Start\<close> of cmd/dcm-kcli-provider/server.go, and
  main.go): the log level, the probe of the own endpoint with the handler that answers it, and the
  order of the start. What happens between the start and the signal is the parameter \<open>serve\<close>.
\<close>

section \<open>The probe of the own endpoint\<close>

text \<open>
  \<open>selfProbe\<close>: \<open>get i\<close> is the i-th GET of \<open>/health\<close>, which gives the status of the reply (None when
  the request fails), and \<open>stopped i\<close> says whether the context was done before it.
\<close>

fun probe_loop ::
  "(nat \<Rightarrow> bool) \<Rightarrow> (nat \<Rightarrow> 'w \<Rightarrow> int option \<times> 'w) \<Rightarrow> nat \<Rightarrow> nat \<Rightarrow> 'w \<Rightarrow> bool \<times> 'w" where
  "probe_loop stopped get 0 i w = (False, w)"
| "probe_loop stopped get (Suc n) i w =
     (if stopped i then (False, w)
      else
        (case get i w of
           (reply, w) \<Rightarrow> if reply = Some 200 then (True, w) else probe_loop stopped get n (Suc i) w))"

definition self_probe :: "(nat \<Rightarrow> bool) \<Rightarrow> (nat \<Rightarrow> 'w \<Rightarrow> int option \<times> 'w) \<Rightarrow> 'w \<Rightarrow> bool \<times> 'w" where
  "self_probe stopped get w = probe_loop stopped get 30 0 w"

text \<open>A probe that the process answers itself: the request that arrives, and the status that goes out.\<close>

definition probe_request :: Request where
  "probe_request =
     \<lparr>rq_method = ''GET'', rq_path = ''/health'', rq_query = [], rq_body = [], rq_body_limit = None,
      rq_chi_id = '''', rq_req_id = None\<rparr>"

definition answer_probe :: "'w handler \<Rightarrow> 'w \<Rightarrow> int option \<times> 'w" where
  "answer_probe root w =
     (case root probe_request (\<lparr>ex_type = '''', ex_out = None, ex_seen = 200, ex_route = ''''\<rparr>, w) of
        (Panicked, ex, w) \<Rightarrow> (None, w)
      | (Finished, ex, w) \<Rightarrow> (Some (case ex_out ex of None \<Rightarrow> 200 | Some r \<Rightarrow> rs_code r), w))"

section \<open>Start\<close>

text \<open>
  None when the shutdown does not return; otherwise the error that \<open>Start\<close> returns and what it leaves.
\<close>

definition start ::
  "'c SpmEnv \<Rightarrow> (string \<Rightarrow> string option) \<Rightarrow> (nat \<Rightarrow> bool) \<Rightarrow>
   (nat \<Rightarrow> ('s, 'k, 'p) World \<Rightarrow> int option \<times> ('s, 'k, 'p) World) \<Rightarrow> ('s, 'k, 'p) Server \<Rightarrow>
   ('c life list \<times> ('s, 'k, 'p) World \<Rightarrow> 'c life list \<times> ('s, 'k, 'p) World) \<Rightarrow>
   ('p \<Rightarrow> 'p) \<Rightarrow> ('s \<Rightarrow> store_error option \<times> 's) \<Rightarrow> string \<Rightarrow> 'c life list \<times> ('s, 'k, 'p) World \<Rightarrow>
   (string option \<times> 'c life list \<times> ('s, 'k, 'p) World) option" where
  "start E listen stopped get V serve close_pub close_store addr st =
     (case st of
        (lives, w) \<Rightarrow>
          (case listen addr of
             Some err \<Rightarrow> Some (Some (''listening on '' @ addr @ '': '' @ err), lives, w)
           | None \<Rightarrow>
               (case self_probe stopped get w of
                  (False, w) \<Rightarrow> Some (Some ''self-probe failed: /health did not return 200'', lives, w)
                | (True, w) \<Rightarrow>
                    (case on_kweb (kc_list_profiles (sv_kweb V)) w of
                       (_, w) \<Rightarrow>
                         (case serve (map start_background lives, w) of
                            (lives, w) \<Rightarrow>
                              (case shutdown E close_pub close_store (lives, w_pub w, w_store w) of
                                 None \<Rightarrow> None
                               | Some (lives, p, s) \<Rightarrow>
                                   Some (None, lives, w\<lparr>w_pub := p, w_store := s\<rparr>)))))))"

section \<open>The process\<close>

datatype log_level = LevelDebug | LevelInfo | LevelWarn | LevelError

definition level_of :: "string \<Rightarrow> log_level" where
  "level_of s =
     (if s = ''debug'' then LevelDebug else if s = ''warn'' then LevelWarn
      else if s = ''error'' then LevelError else LevelInfo)"

definition run ::
  "lib_funs \<Rightarrow> (string \<Rightarrow> string) \<Rightarrow> ('s, 'p, 'c) Outside \<Rightarrow>
   (log_level \<Rightarrow> Config \<Rightarrow> ('s, 'p, 'c) Booted \<Rightarrow> string option) \<Rightarrow> string option" where
  "run L getenv Out server_start =
     (case load L getenv of
        Inl err \<Rightarrow> Some err
      | Inr cfg \<Rightarrow>
          (case new_server Out cfg of
             Inl (err, _) \<Rightarrow> Some err
           | Inr srv \<Rightarrow> server_start (level_of (cf_log_level cfg)) cfg srv))"

text \<open>The exit status of \<open>main\<close> and what it writes to stderr.\<close>

definition main_exit :: "string option \<Rightarrow> int \<times> string" where
  "main_exit err =
     (case err of None \<Rightarrow> (0, '''') | Some e \<Rightarrow> (1, ''fatal: '' @ e @ [CHR 0x0A]))"

section \<open>The probe and the health cache\<close>

text \<open>The state of the network, and so the clock, after n readings of the clock.\<close>

fun clock_after :: "'n transport \<Rightarrow> nat \<Rightarrow> 'n \<Rightarrow> 'n" where
  "clock_after T 0 net = net"
| "clock_after T (Suc n) net = clock_after T n (snd (tr_now T net))"

definition reading :: "'n transport \<Rightarrow> nat \<Rightarrow> 'n \<Rightarrow> time" where
  "reading T n net = fst (tr_now T (clock_after T n net))"

lemma clock_after_Suc: "clock_after T (Suc n) net = snd (tr_now T (clock_after T n net))"
  by (induction n arbitrary: net) auto

text \<open>A verdict is cached once it has been given.\<close>

lemma check_health_caches:
  assumes "client_check_health T base c = (hr, c')"
  shows "cl_health_cached c'" and "(cl_health_ok c', cl_health_err c') = hr"
  using assms
  by (auto simp: client_check_health_def Let_def dest: on_net_health split: prod.splits if_splits)

lemma check_health_fresh:
  assumes "cl_health_cached c" "time_sub (fst (tr_now T (cl_net c))) (cl_health_checked c) < health_cache_ttl"
  shows "client_check_health T base c =
    ((cl_health_ok c, cl_health_err c), c\<lparr>cl_net := snd (tr_now T (cl_net c))\<rparr>)"
  using assms by (auto simp: client_check_health_def on_net_def split: prod.splits)

text \<open>What the health handler answers, and the world it leaves.\<close>

lemma answer_health:
  assumes "kc_check_health (sv_kweb V) (w_kweb w) = ((ok, err), k)"
  shows "answer_probe (root_mux redirect metrics (root_health_handler R V) ready api) w =
    (Some (if ok \<and> err = None then 200 else 503), w\<lparr>w_kweb := k, w_ticks := Suc (w_ticks w)\<rparr>)"
proof -
  have "clean_path ''/health'' = ''/health''" by code_simp
  then show ?thesis using assms
    by (auto simp: answer_probe_def root_mux_def probe_request_def root_health_handler_def now_def on_kweb_def
        write_typed_def write_header_def write_body_def Let_def split: option.splits)
qed

end
