(* ===== verification/Startup_Props.thy ===== *)
theory Startup_Props
  imports Startup Registration_Props Router_Props
begin

text \<open>
  The properties of the start: what a failed probe leaves, and why the probe cannot outlast a kweb
  that is down for a moment.
\<close>

text \<open>While the verdict of the health check is cached, the probes all get it.\<close>

lemma probe_settled:
  assumes "sv_kweb V = kweb_ops T base" "cl_health_cached c" "\<not> (cl_health_ok c \<and> cl_health_err c = None)"
    and "get = (\<lambda>i. answer_probe (root_mux redirect metrics (root_health_handler R V) ready api))"
    and "w_kweb w = c\<lparr>cl_net := clock_after T m (cl_net c)\<rparr>"
    and "\<forall>j. m \<le> j \<and> j < m + n \<longrightarrow> time_sub (reading T j (cl_net c)) (cl_health_checked c) < health_cache_ttl"
  shows "\<exists>w' m'. probe_loop stopped get n i w = (False, w') \<and> w_store w' = w_store w \<and>
    w_kweb w' = c\<lparr>cl_net := clock_after T m' (cl_net c)\<rparr>"
  using assms(5,6)
proof (induction n arbitrary: i w m)
  case 0
  then show ?case by auto
next
  case (Suc n)
  let ?w = "w\<lparr>w_kweb := c\<lparr>cl_net := clock_after T (Suc m) (cl_net c)\<rparr>, w_ticks := Suc (w_ticks w)\<rparr>"
  have "time_sub (reading T m (cl_net c)) (cl_health_checked c) < health_cache_ttl"
    using Suc.prems(2) by simp
  then have "kc_check_health (sv_kweb V) (w_kweb w) =
      ((cl_health_ok c, cl_health_err c), c\<lparr>cl_net := clock_after T (Suc m) (cl_net c)\<rparr>)"
    using assms(1,2) Suc.prems(1)
    by (simp add: kweb_ops_def check_health_fresh reading_def clock_after_Suc del: clock_after.simps(2))
  note answer = answer_health [OF this, of redirect metrics R ready api]
  have g: "get i w = (Some 503, ?w)" using answer assms(3,4) by auto
  have "\<exists>w' m'. probe_loop stopped get n (Suc i) ?w = (False, w') \<and> w_store w' = w_store ?w \<and>
      w_kweb w' = c\<lparr>cl_net := clock_after T m' (cl_net c)\<rparr>"
    by (rule Suc.IH [of _ "Suc m"]) (use Suc.prems(2) in auto)
  then show ?case using g Suc.prems(1) by (cases "stopped i") auto
qed

text \<open>
  C17: The start needs a kweb that is healthy at the first probe. When the first health check fails and
  the clock of the later checks stays inside the five seconds for which the verdict is cached, all
  thirty probes get the first verdict: \<open>Start\<close> returns the error of the probe, no registrar has been
  started, the store is as it was and kweb has been asked at most once.
\<close>

theorem startup_needs_kweb:
  assumes "sv_kweb V = kweb_ops T base" "listen addr = None"
    and "client_check_health T base (w_kweb w) = ((ok, err), c)" "\<not> (ok \<and> err = None)"
    and "\<forall>n < 29. time_sub (reading T n (cl_net c)) (cl_health_checked c) < health_cache_ttl"
    and "get = (\<lambda>i. answer_probe (root_mux redirect metrics (root_health_handler R V) ready api))"
  shows "\<exists>w'. start E listen stopped get V serve close_pub close_store addr (lives, w) =
      Some (Some ''self-probe failed: /health did not return 200'', lives, w') \<and>
    w_store w' = w_store w \<and>
    (cl_requests (w_kweb w') = cl_requests (w_kweb w) \<or> cl_requests (w_kweb w') = cl_requests c)"
proof -
  let ?w = "w\<lparr>w_kweb := c, w_ticks := Suc (w_ticks w)\<rparr>"
  have k: "kc_check_health (sv_kweb V) (w_kweb w) = ((ok, err), c)" using assms(1,3) by (simp add: kweb_ops_def)
  have g: "get 0 w = (Some 503, ?w)" using answer_health [OF k] assms(4,6) by auto
  note cached = check_health_caches [OF assms(3)]
  have "\<not> (cl_health_ok c \<and> cl_health_err c = None)" using cached(2) assms(4) by auto
  from probe_settled [OF assms(1) cached(1) this assms(6), of ?w 0 29 stopped 1]
  obtain w' m' where p: "probe_loop stopped get 29 1 ?w = (False, w')" "w_store w' = w_store w"
      "w_kweb w' = c\<lparr>cl_net := clock_after T m' (cl_net c)\<rparr>"
    using assms(5) by auto
  have "self_probe stopped get w = (if stopped 0 then (False, w) else probe_loop stopped get 29 1 ?w)"
    using g by (simp add: self_probe_def numeral_eq_Suc)
  then show ?thesis using p assms(2) by (cases "stopped 0") (simp_all add: start_def)
qed

text \<open>A kweb that refuses the connection, with a clock that advances by a tenth of a second.\<close>

definition down_transport :: "int transport" where
  "down_transport =
     \<lparr>tr_new_request = (\<lambda>meth url. None), tr_wait = (\<lambda>n. (None, n)),
      tr_do = (\<lambda>meth url body n. (Inl ''connection refused'', n)), tr_now = (\<lambda>n. (n, n + second div 10))\<rparr>"

lemma down_clock: "clock_after down_transport n net = net + int n * 100000000"
  by (induction n arbitrary: net) (simp_all add: down_transport_def second_def algebra_simps)

definition demo_rest :: "'w handler" where
  "demo_rest rq st = (Finished, fst st, snd st)"

theorem startup_needs_kweb_witness:
  "\<exists>w'. start demo_spm (\<lambda>_. None) (\<lambda>_. False)
      (\<lambda>i. answer_probe (root_mux (\<lambda>_ _ ex. ex) demo_rest
         (root_health_handler demo_runtime (demo_server\<lparr>sv_kweb := kweb_ops down_transport ''http://kweb''\<rparr>))
         demo_rest demo_rest))
      (demo_server\<lparr>sv_kweb := kweb_ops down_transport ''http://kweb''\<rparr>) id id (\<lambda>s. (None, s)) '':8080''
      ([], demo_world) =
    Some (Some ''self-probe failed: /health did not return 200'', [], w') \<and> w_store w' = kv_empty"
proof -
  let ?V = "demo_server\<lparr>sv_kweb := kweb_ops down_transport ''http://kweb''\<rparr>"
  obtain hr c where h: "client_check_health down_transport ''http://kweb'' (new_client 0) = (hr, c)"
    by (metis surj_pair)
  then have s: "hr = (False, Some ErrKwebUnreachable)" "cl_health_checked c = 0" "cl_net c = 100000000"
    by (auto simp: client_check_health_def new_client_def on_net_def check_health_uncached_def
        down_transport_def record_kweb_def Let_def second_def)
  have "fst (tr_now down_transport net) = net" for net by (simp add: down_transport_def)
  then have "reading down_transport n (cl_net c) = 100000000 + int n * 100000000" for n
    by (simp add: reading_def down_clock s)
  then have "\<forall>n < 29. time_sub (reading down_transport n (cl_net c)) (cl_health_checked c) < health_cache_ttl"
    by (auto simp: s time_sub_def health_cache_ttl_def second_def min_int64_def max_int64_def)
  moreover have "client_check_health down_transport ''http://kweb'' (w_kweb demo_world) =
      ((False, Some ErrKwebUnreachable), c)"
    using h s by (simp add: demo_world_def)
  ultimately show ?thesis
    using startup_needs_kweb [where V = ?V and T = down_transport and base = "''http://kweb''"
        and w = demo_world and listen = "\<lambda>_. None" and addr = "'':8080''" and lives = "[]"
        and stopped = "\<lambda>_. False" and E = demo_spm and serve = id and close_pub = id
        and close_store = "\<lambda>s. (None, s)" and redirect = "\<lambda>_ _ ex. ex" and metrics = demo_rest
        and R = demo_runtime and ready = demo_rest and api = demo_rest, OF _ _ _ _ _ refl]
    by (force simp: demo_world_def)
qed

end
