(* ===== verification/Url.thy ===== *)
theory Url
  imports Json
begin

text \<open>
  The parts of Go's \<open>net/url\<close> that the API client uses: percent-encoding, parsing a URL and printing
  it, resolving a relative reference, and query strings; with their round trips.

  A fragment is checked and dropped, as the requests of the client have none. The authority (user,
  host and port) is kept as it is written; which ones \<open>url.Parse\<close> accepts is the parameter
  \<open>authority_error\<close>.
\<close>

section \<open>Percent-encoding\<close>

datatype enc_mode = EncPath | EncPathSegment | EncQuery

definition unreserved :: "char \<Rightarrow> bool" where
  "unreserved c =
     (let b = of_char c :: nat in
      97 \<le> b \<and> b \<le> 122 \<or> 65 \<le> b \<and> b \<le> 90 \<or> 48 \<le> b \<and> b \<le> 57 \<or> c \<in> set ''-_.~'')"

definition should_escape :: "enc_mode \<Rightarrow> char \<Rightarrow> bool" where
  "should_escape mode c =
     (if unreserved c then False
      else if c \<in> set ''$&+,/:;=?@'' then
        (case mode of
           EncPath \<Rightarrow> c = CHR ''?''
         | EncPathSegment \<Rightarrow> c \<in> set ''/;,?''
         | EncQuery \<Rightarrow> True)
      else True)"

definition upper_hex :: "nat \<Rightarrow> char" where
  "upper_hex d = (if d < 10 then char_of (48 + d) else char_of (55 + d))"

definition escape_char :: "enc_mode \<Rightarrow> char \<Rightarrow> string" where
  "escape_char mode c =
     (if c = CHR '' '' \<and> mode = EncQuery then ''+''
      else if should_escape mode c then
        [CHR ''%'', upper_hex (of_char c div 16), upper_hex (of_char c mod 16)]
      else [c])"

definition url_escape :: "enc_mode \<Rightarrow> string \<Rightarrow> string" where
  "url_escape mode s = concat (map (escape_char mode) s)"

text \<open>An error carries the escape that is wrong.\<close>

fun url_unescape :: "enc_mode \<Rightarrow> string \<Rightarrow> string + string" where
  "url_unescape mode [] = Inr []"
| "url_unescape mode (c # s) =
     (if c = CHR ''%'' then
        (case s of
           a # b # rest \<Rightarrow>
             (case (hex_val a, hex_val b) of
                (Some x, Some y) \<Rightarrow> map_sum id (Cons (char_of (16 * x + y))) (url_unescape mode rest)
              | _ \<Rightarrow> Inl (take 3 (c # s)))
         | _ \<Rightarrow> Inl (take 3 (c # s)))
      else if c = CHR ''+'' \<and> mode = EncQuery then map_sum id (Cons (CHR '' '')) (url_unescape mode s)
      else map_sum id (Cons c) (url_unescape mode s))"

lemma hex_val_upper_hex [simp]: "d < 16 \<Longrightarrow> hex_val (upper_hex d) = Some d"
  by (auto simp: hex_val_def upper_hex_def Let_def)

lemma url_escape_Nil [simp]: "url_escape mode [] = []"
  by (simp add: url_escape_def)

lemma url_escape_Cons [simp]: "url_escape mode (c # s) = escape_char mode c @ url_escape mode s"
  by (simp add: url_escape_def)

lemma url_escape_append [simp]: "url_escape mode (s @ t) = url_escape mode s @ url_escape mode t"
  by (simp add: url_escape_def)

lemma should_escape_percent [simp]: "should_escape mode (CHR ''%'')"
  by (cases mode) code_simp+

lemma should_escape_plus [simp]: "should_escape EncQuery (CHR ''+'')"
  by code_simp

lemma unescape_escape_char:
  assumes "(mode = EncQuery) = (mode' = EncQuery)"
  shows "url_unescape mode (escape_char mode' c @ s) = map_sum id (Cons c) (url_unescape mode s)"
proof -
  have d: "(of_char c :: nat) div 16 < 16" "(of_char c :: nat) mod 16 < 16"
    using nat_of_char_less_256 [of c] by (simp_all add: div_less_iff_less_mult)
  have e: "char_of (16 * (of_char c div 16) + of_char c mod 16 :: nat) = c"
    by (metis char_of_char mult_div_mod_eq)
  show ?thesis
  proof (cases "should_escape mode' c")
    case True
    then show ?thesis using assms d e by (auto simp: escape_char_def)
  next
    case False
    then have "c \<noteq> CHR ''%''" "mode' = EncQuery \<Longrightarrow> c \<noteq> CHR ''+''" by auto
    then show ?thesis using assms False by (auto simp: escape_char_def)
  qed
qed

lemma unescape_escape_append:
  assumes "(mode = EncQuery) = (mode' = EncQuery)"
  shows "url_unescape mode (url_escape mode' s @ t) = map_sum id (append s) (url_unescape mode t)"
proof (induction s)
  case Nil
  then show ?case by (cases "url_unescape mode t") auto
next
  case (Cons c s)
  then show ?case
    by (cases "url_unescape mode t") (auto simp: unescape_escape_char [OF assms])
qed

lemma unescape_escape:
  "(mode = EncQuery) = (mode' = EncQuery) \<Longrightarrow> url_unescape mode (url_escape mode' s) = Inr s"
  using unescape_escape_append [of mode mode' s "[]"] by simp


section \<open>URLs\<close>

record URL =
  ur_scheme :: string
  ur_authority :: string
  ur_path :: string          \<comment> \<open>decoded\<close>
  ur_raw_path :: string      \<comment> \<open>as written, where the path has another encoding than the default\<close>
  ur_raw_query :: string

definition no_url :: URL where
  "no_url = \<lparr>ur_scheme = '''', ur_authority = '''', ur_path = '''', ur_raw_path = '''', ur_raw_query = ''''\<rparr>"

definition valid_encoded :: "string \<Rightarrow> bool" where
  "valid_encoded s \<longleftrightarrow>
     list_all (\<lambda>c. c \<in> set ''!$&()*+,;=:@[]%'' \<or> c = CHR 0x27 \<or> \<not> should_escape EncPath c) s"

definition escaped_path :: "URL \<Rightarrow> string" where
  "escaped_path u =
     (if ur_raw_path u \<noteq> '''' \<and> valid_encoded (ur_raw_path u) \<and>
         url_unescape EncPath (ur_raw_path u) = Inr (ur_path u) then ur_raw_path u
      else if ur_path u = ''*'' then ''*''
      else url_escape EncPath (ur_path u))"

definition set_path :: "string \<Rightarrow> URL \<Rightarrow> string + URL" where
  "set_path p u =
     (case url_unescape EncPath p of
        Inl err \<Rightarrow> Inl (''invalid URL escape '' @ json_quote err)
      | Inr path \<Rightarrow>
          Inr (u\<lparr>ur_path := path, ur_raw_path := (if p = url_escape EncPath path then '''' else p)\<rparr>))"

definition is_letter :: "char \<Rightarrow> bool" where
  "is_letter c = (let b = of_char c :: nat in 97 \<le> b \<and> b \<le> 122 \<or> 65 \<le> b \<and> b \<le> 90)"

text \<open>The scheme and what follows its colon; None where the scheme is missing.\<close>

fun scheme_at :: "string \<Rightarrow> string \<Rightarrow> string \<Rightarrow> (string \<times> string) option" where
  "scheme_at whole acc [] = Some ('''', whole)"
| "scheme_at whole acc (c # s) =
     (if is_letter c then scheme_at whole (acc @ [c]) s
      else if is_digit c \<or> c \<in> set ''+-.'' then
        (if acc = [] then Some ('''', whole) else scheme_at whole (acc @ [c]) s)
      else if c = CHR '':'' then (if acc = [] then None else Some (acc, s))
      else Some ('''', whole))"

definition url_parse_main :: "(string \<Rightarrow> string option) \<Rightarrow> string \<Rightarrow> string + URL" where
  "url_parse_main authority_error s =
     (case scheme_at s [] s of
        None \<Rightarrow> Inl ''missing protocol scheme''
      | Some (scheme, rest) \<Rightarrow>
          (let (rest, query) = str_cut (CHR ''?'') rest;
               u = no_url\<lparr>ur_scheme := to_lower scheme,
                          ur_raw_query := (case query of None \<Rightarrow> '''' | Some q \<Rightarrow> q)\<rparr> in
           if take 1 rest \<noteq> ''/'' \<and> scheme \<noteq> '''' then Inr u
           else if take 1 rest \<noteq> ''/'' \<and> CHR '':'' \<in> set (hd (split_slash rest)) then
             Inl ''first path segment in URL cannot contain colon''
           else if (scheme \<noteq> '''' \<or> \<not> has_prefix rest ''///'') \<and> has_prefix rest ''//'' then
             (let authority = takeWhile (\<lambda>c. c \<noteq> CHR ''/'') (drop 2 rest);
                  path = dropWhile (\<lambda>c. c \<noteq> CHR ''/'') (drop 2 rest) in
              case authority_error authority of
                Some err \<Rightarrow> Inl err
              | None \<Rightarrow> set_path path (u\<lparr>ur_authority := authority\<rparr>))
           else set_path rest u))"

definition is_ctl :: "char \<Rightarrow> bool" where
  "is_ctl c = (let b = of_char c :: nat in b < 32 \<or> b = 127)"

definition url_parse :: "(string \<Rightarrow> string option) \<Rightarrow> string \<Rightarrow> string + URL" where
  "url_parse authority_error s =
     (if list_ex is_ctl s then Inl ''net/url: invalid control character in URL''
      else
        (let (s, frag) = str_cut (CHR ''#'') s in
         case url_parse_main authority_error s of
           Inl err \<Rightarrow> Inl err
         | Inr u \<Rightarrow>
             (case frag of
                None \<Rightarrow> Inr u
              | Some f \<Rightarrow>
                  (case url_unescape EncPath f of
                     Inl err \<Rightarrow> Inl (''invalid URL escape '' @ json_quote err)
                   | Inr _ \<Rightarrow> Inr u))))"

definition url_string :: "URL \<Rightarrow> string" where
  "url_string u =
     (let path = escaped_path u in
      (if ur_scheme u \<noteq> '''' then ur_scheme u @ '':'' else '''')
      @ (if (ur_scheme u \<noteq> '''' \<or> ur_authority u \<noteq> '''') \<and> (ur_authority u \<noteq> '''' \<or> ur_path u \<noteq> '''')
         then ''//'' @ ur_authority u else '''')
      @ (if path \<noteq> '''' \<and> hd path \<noteq> CHR ''/'' \<and> ur_authority u \<noteq> '''' then ''/'' else '''') @ path
      @ (if ur_raw_query u \<noteq> '''' then ''?'' @ ur_raw_query u else ''''))"

section \<open>Relative references\<close>

definition upto_last_slash :: "string \<Rightarrow> string" where
  "upto_last_slash s = rev (dropWhile (\<lambda>c. c \<noteq> CHR ''/'') (rev s))"

text \<open>The loop of \<open>resolvePath\<close>: what is written so far, and whether no element has been written.\<close>

fun resolve_elems :: "string \<Rightarrow> bool \<Rightarrow> string list \<Rightarrow> string" where
  "resolve_elems dst first [] = dst"
| "resolve_elems dst first (e # es) =
     (if e = ''.'' then resolve_elems dst False es
      else if e = ''..'' then
        (let str = upto_last_slash (drop 1 dst) in
         if str = '''' then resolve_elems ''/'' True es
         else resolve_elems (''/'' @ butlast str) first es)
      else resolve_elems (dst @ (if first then '''' else ''/'') @ e) False es)"

definition resolve_path :: "string \<Rightarrow> string \<Rightarrow> string" where
  "resolve_path base ref =
     (let full = (if ref = '''' then base
                  else if hd ref \<noteq> CHR ''/'' then upto_last_slash base @ ref else ref) in
      if full = '''' then ''''
      else
        (let elems = split_slash full;
             dst = resolve_elems ''/'' True elems;
             r = (if last elems = ''.'' \<or> last elems = ''..'' then dst @ ''/'' else dst) in
         if 1 < length r \<and> r ! 1 = CHR ''/'' then drop 1 r else r))"

definition with_path :: "string \<Rightarrow> URL \<Rightarrow> URL" where
  "with_path p u = (case set_path p u of Inl _ \<Rightarrow> u | Inr u' \<Rightarrow> u')"

definition resolve_reference :: "URL \<Rightarrow> URL \<Rightarrow> URL" where
  "resolve_reference u ref =
     (let url = (if ur_scheme ref = '''' then ref\<lparr>ur_scheme := ur_scheme u\<rparr> else ref) in
      if ur_scheme ref \<noteq> '''' \<or> ur_authority ref \<noteq> '''' then with_path (resolve_path (escaped_path ref) '''') url
      else
        (let url = (if ur_path ref = '''' \<and> ur_raw_query ref = ''''
                    then url\<lparr>ur_raw_query := ur_raw_query u\<rparr> else url) in
         with_path (resolve_path (escaped_path u) (escaped_path ref)) (url\<lparr>ur_authority := ur_authority u\<rparr>)))"

text \<open>\<open>(*URL).Parse\<close>.\<close>

definition url_ref :: "(string \<Rightarrow> string option) \<Rightarrow> URL \<Rightarrow> string \<Rightarrow> string + URL" where
  "url_ref authority_error u ref = map_sum id (resolve_reference u) (url_parse authority_error ref)"

section \<open>Query strings\<close>

type_synonym query_vals = "(string \<times> string list) list"

definition values_add :: "string \<Rightarrow> string \<Rightarrow> query_vals \<Rightarrow> query_vals" where
  "values_add k v m = map_set k ((case map_of m k of None \<Rightarrow> [] | Some vs \<Rightarrow> vs) @ [v]) m"

text \<open>
  \<open>ParseQuery\<close>: the values it could read, and its first error. A piece is skipped when it is empty or
  wrong.
\<close>

definition query_piece :: "string \<Rightarrow> string + (string \<times> string) option" where
  "query_piece piece =
     (if CHR '';'' \<in> set piece then Inl ''invalid semicolon separator in query''
      else if piece = '''' then Inr None
      else
        (case str_cut (CHR ''='') piece of
           (k, v) \<Rightarrow>
             (case url_unescape EncQuery k of
                Inl err \<Rightarrow> Inl (''invalid URL escape '' @ json_quote err)
              | Inr k \<Rightarrow>
                  (case url_unescape EncQuery (case v of None \<Rightarrow> '''' | Some v \<Rightarrow> v) of
                     Inl err \<Rightarrow> Inl (''invalid URL escape '' @ json_quote err)
                   | Inr v \<Rightarrow> Inr (Some (k, v))))))"

fun parse_pieces :: "string list \<Rightarrow> string option \<Rightarrow> query_vals \<Rightarrow> string option \<times> query_vals" where
  "parse_pieces [] err m = (err, m)"
| "parse_pieces (p # ps) err m =
     (case query_piece p of
        Inl e \<Rightarrow> parse_pieces ps (if err = None then Some e else err) m
      | Inr None \<Rightarrow> parse_pieces ps err m
      | Inr (Some (k, v)) \<Rightarrow> parse_pieces ps err (values_add k v m))"

definition parse_query :: "string \<Rightarrow> string option \<times> query_vals" where
  "parse_query q = parse_pieces (split_on (CHR ''&'') q) None []"

definition values_encode :: "query_vals \<Rightarrow> string" where
  "values_encode m =
     join ''&'' (concat (map (\<lambda>(k, vs). map (\<lambda>v. url_escape EncQuery k @ ''='' @ url_escape EncQuery v) vs)
                           (sort_key fst m)))"

section \<open>Plain text\<close>

text \<open>
  Paths of unreserved characters and slashes are written as they are, in both directions.
\<close>

definition path_plain :: "string \<Rightarrow> bool" where
  "path_plain s \<longleftrightarrow> list_all (\<lambda>c. unreserved c \<or> c = CHR ''/'') s"

lemma path_plain_append [simp]: "path_plain (s @ t) \<longleftrightarrow> path_plain s \<and> path_plain t"
  by (simp add: path_plain_def)

lemma unreserved_code:
  "unreserved c \<Longrightarrow> \<not> is_ctl c \<and> c \<notin> set ''%+?#:=&; '' \<and> c \<noteq> CHR ''/''"
  by (auto simp: unreserved_def is_ctl_def Let_def)

lemma plain_char:
  assumes "path_plain s" "c \<in> set s"
  shows "\<not> is_ctl c" "c \<notin> set ''%+?#:=&; ''" "\<not> should_escape EncPath c"
proof -
  have "unreserved c \<or> c = CHR ''/''" using assms by (auto simp: path_plain_def list_all_iff)
  moreover have "\<not> is_ctl (CHR ''/'')" "CHR ''/'' \<notin> set ''%+?#:=&; ''" "\<not> should_escape EncPath (CHR ''/'')"
    by code_simp+
  ultimately show "\<not> is_ctl c" "c \<notin> set ''%+?#:=&; ''" "\<not> should_escape EncPath c"
    using unreserved_code [of c] by (auto simp: should_escape_def)
qed

lemma escape_plain: "path_plain s \<Longrightarrow> url_escape EncPath s = s"
  by (induction s) (auto simp: path_plain_def escape_char_def should_escape_def)

lemma unescape_plain: "path_plain s \<Longrightarrow> url_unescape EncPath s = Inr s"
  using unescape_escape [of EncPath EncPath s] by (simp add: escape_plain)

lemma escape_unreserved: "list_all unreserved s \<Longrightarrow> url_escape mode s = s"
  by (induction s) (use unreserved_code in \<open>auto simp: escape_char_def should_escape_def\<close>)

lemma set_path_plain: "path_plain p \<Longrightarrow> set_path p u = Inr (u\<lparr>ur_path := p, ur_raw_path := ''''\<rparr>)"
  by (simp add: set_path_def unescape_plain escape_plain)

lemma escaped_path_plain: "path_plain (ur_path u) \<Longrightarrow> ur_raw_path u = '''' \<Longrightarrow> escaped_path u = ur_path u"
  by (auto simp: escaped_path_def escape_plain)

section \<open>Parsing what is printed\<close>

definition scheme_text :: "string \<Rightarrow> bool" where
  "scheme_text s \<longleftrightarrow> s \<noteq> '''' \<and> list_all (\<lambda>c. 97 \<le> (of_char c :: nat) \<and> (of_char c :: nat) \<le> 122) s"

definition authority_text :: "string \<Rightarrow> bool" where
  "authority_text a \<longleftrightarrow> a \<noteq> '''' \<and> list_all (\<lambda>c. \<not> is_ctl c \<and> c \<notin> set ''/?#'') a"

definition query_text :: "string \<Rightarrow> bool" where
  "query_text q \<longleftrightarrow> list_all (\<lambda>c. \<not> is_ctl c \<and> c \<noteq> CHR ''#'') q"

lemma scheme_at_letters:
  "list_all is_letter s \<Longrightarrow> scheme_at whole acc (s @ t) = scheme_at whole (acc @ s) t"
  by (induction s arbitrary: acc) auto

lemma scheme_at_text:
  assumes "scheme_text s"
  shows "scheme_at whole [] (s @ '':'' @ t) = Some (s, t)" and "to_lower s = s"
    and "list_all (\<lambda>c. \<not> is_ctl c \<and> c \<notin> set ''?#/:'') s"
proof -
  have l: "list_all is_letter s"
    using assms by (auto simp: scheme_text_def is_letter_def list_all_iff)
  have "\<not> is_letter (CHR '':'')" "\<not> is_digit (CHR '':'')" by code_simp+
  then show "scheme_at whole [] (s @ '':'' @ t) = Some (s, t)"
    using scheme_at_letters [OF l] assms by (auto simp: scheme_text_def)
  have "list_all (\<lambda>c. 97 \<le> (of_char c :: nat) \<and> (of_char c :: nat) \<le> 122) s"
    using assms by (simp add: scheme_text_def)
  then show "to_lower s = s"
    by (induction s) (auto simp: lower_char_def Let_def)
  show "list_all (\<lambda>c. \<not> is_ctl c \<and> c \<notin> set ''?#/:'') s"
    using assms by (auto simp: scheme_text_def is_ctl_def list_all_iff Let_def)
qed

text \<open>An absolute URL with a plain path.\<close>

definition url_text :: "string \<Rightarrow> string \<Rightarrow> string \<Rightarrow> string \<Rightarrow> string" where
  "url_text s a p q = s @ ''://'' @ a @ p @ (if q = '''' then '''' else ''?'' @ q)"

lemma url_parse_text:
  assumes s: "scheme_text s" and a: "authority_text a" and ae: "ae a = None"
    and p: "path_plain p" "take 1 p = ''/''" and q: "query_text q"
  shows "url_parse ae (url_text s a p q) =
    Inr \<lparr>ur_scheme = s, ur_authority = a, ur_path = p, ur_raw_path = '''', ur_raw_query = q\<rparr>"
proof -
  note st = scheme_at_text [OF s]
  let ?q = "if q = '''' then '''' else ''?'' @ q"
  have pc: "\<forall>c \<in> set p. \<not> is_ctl c \<and> c \<notin> set ''?#''" using plain_char [OF p(1)] by auto
  have ac: "\<forall>c \<in> set a. \<not> is_ctl c \<and> c \<notin> set ''/?#''" using a by (auto simp: authority_text_def list_all_iff)
  have qc: "\<forall>c \<in> set q. \<not> is_ctl c \<and> c \<noteq> CHR ''#''" using q by (auto simp: query_text_def list_all_iff)
  have sc: "\<forall>c \<in> set s. \<not> is_ctl c \<and> c \<notin> set ''?#/:''" using st(3) by (auto simp: list_all_iff)
  have lit: "\<not> is_ctl (CHR '':'')" "\<not> is_ctl (CHR ''/'')" "\<not> is_ctl (CHR ''?'')" by code_simp+
  let ?ok = "\<lambda>c. \<not> is_ctl c \<and> c \<noteq> CHR ''#''"
  have "list_all ?ok s" "list_all ?ok a" "list_all ?ok p" "list_all ?ok q"
    unfolding list_all_iff using sc ac pc qc by simp_all
  moreover have "list_all ?ok ''://''" "list_all ?ok ''?''" by code_simp+
  ultimately have ok: "list_all ?ok (url_text s a p q)"
    unfolding url_text_def by (cases "q = ''''") (simp_all only: if_True if_False list_all_append list.pred_inject simp_thms)
  then have noctl: "\<not> list_ex is_ctl (url_text s a p q)"
    unfolding list_all_iff list_ex_iff by blast
  have nofrag: "str_cut (CHR ''#'') (url_text s a p q) = (url_text s a p q, None)"
    by (rule str_cut_missing) (use ok in \<open>unfold list_all_iff, blast\<close>)
  have sch: "scheme_at (url_text s a p q) [] (url_text s a p q) = Some (s, ''//'' @ a @ p @ ?q)"
    using st(1) [of "url_text s a p q" "''//'' @ a @ p @ ?q"] by (simp add: url_text_def)
  have noq: "CHR ''?'' \<notin> set (''//'' @ a @ p)" using pc ac by auto
  have "str_cut (CHR ''?'') (''//'' @ a @ p @ ?q) = (''//'' @ a @ p, if q = '''' then None else Some q)"
  proof (cases "q = ''''")
    case True
    then show ?thesis using str_cut_missing [OF noq] by simp
  next
    case False
    then show ?thesis using str_cut_found [OF noq, of q] by simp
  qed
  moreover obtain p' where p': "p = CHR ''/'' # p'" using p(2) by (cases p) auto
  have "takeWhile (\<lambda>c. c \<noteq> CHR ''/'') (a @ p) = a" "dropWhile (\<lambda>c. c \<noteq> CHR ''/'') (a @ p) = p"
    using ac by (auto simp: p' takeWhile_append2 dropWhile_append2)
  moreover have "s \<noteq> ''''" using s by (simp add: scheme_text_def)
  moreover have "has_prefix (''//'' @ a @ p) ''//''" by (simp add: has_prefix_def)
  ultimately have "url_parse_main ae (url_text s a p q) =
      set_path p (no_url\<lparr>ur_scheme := s, ur_raw_query := q, ur_authority := a\<rparr>)"
    using sch st(2) ae by (simp add: url_parse_main_def)
  then show ?thesis
    using noctl nofrag by (simp add: url_parse_def set_path_plain [OF p(1)] no_url_def)
qed

lemma url_string_text:
  assumes "scheme_text s" "authority_text a" "path_plain p" "take 1 p = ''/''"
  shows "url_string \<lparr>ur_scheme = s, ur_authority = a, ur_path = p, ur_raw_path = '''', ur_raw_query = q\<rparr> =
    url_text s a p q"
proof -
  obtain p' where p': "p = CHR ''/'' # p'" using assms(4) by (cases p) auto
  have "s \<noteq> ''''" "a \<noteq> ''''" using assms by (auto simp: scheme_text_def authority_text_def)
  then show ?thesis
    using escaped_path_plain [of "\<lparr>ur_scheme = s, ur_authority = a, ur_path = p, ur_raw_path = '''', ur_raw_query = q\<rparr>"]
      assms(3) by (simp add: url_string_def url_text_def p')
qed

section \<open>Resolving a plain reference\<close>

definition dotless :: "string \<Rightarrow> bool" where
  "dotless p \<longleftrightarrow> list_all (\<lambda>e. e \<noteq> ''.'' \<and> e \<noteq> ''..'') (split_slash p)"

definition slashed :: "string list \<Rightarrow> string" where
  "slashed es = concat (map (\<lambda>e. ''/'' @ e) es)"

lemma slashed_simps [simp]:
  "slashed [] = ''''" "slashed (e # es) = ''/'' @ e @ slashed es" "slashed (xs @ ys) = slashed xs @ slashed ys"
  by (simp_all add: slashed_def)

lemma slashed_split: "slashed (split_slash s) = ''/'' @ s"
proof (induction s)
  case (Cons c s)
  then show ?case by (cases "split_slash s") auto
qed simp

lemma resolve_elems_dotless:
  "list_all (\<lambda>e. e \<noteq> ''.'' \<and> e \<noteq> ''..'') es \<Longrightarrow>
   resolve_elems dst False (es @ rest) = resolve_elems (dst @ slashed es) False rest"
  by (induction es arbitrary: dst) auto

text \<open>The path of a server: nothing, or segments after a slash.\<close>

definition base_text :: "string \<Rightarrow> bool" where
  "base_text p \<longleftrightarrow> (p = '''' \<or> take 1 p = ''/'') \<and> path_plain p \<and> dotless p"

lemma base_elems:
  assumes "base_text p"
  obtains es where "split_slash p = '''' # es" "slashed es = p" "list_all (\<lambda>e. e \<noteq> ''.'' \<and> e \<noteq> ''..'') es"
proof (cases p)
  case Nil
  then show ?thesis using that [of "[]"] by simp
next
  case (Cons c q)
  then have "c = CHR ''/''" using assms by (simp add: base_text_def)
  then show ?thesis
    using that [of "split_slash q"] assms Cons slashed_split [of q] by (auto simp: base_text_def dotless_def)
qed

lemma resolve_path_dot:
  assumes p: "base_text p" and r: "dotless r"
  shows "resolve_path (p @ ''/'') (''./'' @ r) = p @ ''/'' @ r"
proof -
  obtain es where es: "split_slash p = '''' # es" "slashed es = p"
    "list_all (\<lambda>e. e \<noteq> ''.'' \<and> e \<noteq> ''..'') es"
    by (rule base_elems [OF p])
  have u: "upto_last_slash (p @ ''/'') = p @ ''/''" by (simp add: upto_last_slash_def)
  have "split_slash (p @ ''/./'' @ r) = '''' # es @ [''.''] @ split_slash r"
    using split_on_append [of "CHR ''/''" p "''./'' @ r"] split_on_append [of "CHR ''/''" "''.''" r] es(1)
    by simp
  moreover have "resolve_elems ''/'' True ('''' # es @ [''.''] @ split_slash r) = ''/'' @ p @ ''/'' @ r"
    using resolve_elems_dotless [OF es(3), of "''/''" "''.'' # split_slash r"] es(2)
      resolve_elems_dotless [of "split_slash r" "''/'' @ p" "[]"] r slashed_split [of r]
    by (simp add: dotless_def)
  moreover have "last (split_slash r) \<noteq> ''.''" "last (split_slash r) \<noteq> ''..''"
    using r last_in_set [OF split_on_nonempty] by (auto simp: dotless_def list_all_iff)
  moreover have "hd (p @ ''/'') = CHR ''/''" using p by (cases p) (auto simp: base_text_def)
  ultimately show ?thesis
    using u by (cases p) (simp_all add: resolve_path_def Let_def)
qed

lemma url_parse_dot:
  assumes "path_plain p"
  shows "url_parse ae (''./'' @ p) = Inr (no_url\<lparr>ur_path := ''./'' @ p\<rparr>)"
proof -
  have pl: "path_plain (''./'' @ p)" using assms by (simp add: path_plain_def unreserved_def)
  have noctl: "\<not> list_ex is_ctl (''./'' @ p)"
    unfolding list_ex_iff using plain_char(1) [OF pl] by blast
  have n: "CHR ''#'' \<notin> set (''./'' @ p)" "CHR ''?'' \<notin> set (''./'' @ p)"
    using plain_char(2) [OF pl, of "CHR ''#''"] plain_char(2) [OF pl, of "CHR ''?''"] by auto
  have l: "\<not> is_letter (CHR ''.'')" by code_simp
  have "url_parse_main ae (''./'' @ p) = set_path (''./'' @ p) no_url"
    using str_cut_missing [OF n(2)] l split_on_append [of "CHR ''/''" "''.''" p]
    by (simp add: url_parse_main_def has_prefix_def no_url_def)
  then show ?thesis
    using noctl str_cut_missing [OF n(1)] set_path_plain [OF pl] by (simp add: url_parse_def no_url_def)
qed

lemma url_ref_dot:
  assumes "base_text p" "path_plain r" "dotless r"
  shows "url_ref ae \<lparr>ur_scheme = s, ur_authority = a, ur_path = p @ ''/'', ur_raw_path = '''', ur_raw_query = q\<rparr>
      (''./'' @ r) =
    Inr \<lparr>ur_scheme = s, ur_authority = a, ur_path = p @ ''/'' @ r, ur_raw_path = '''', ur_raw_query = ''''\<rparr>"
proof -
  have pl: "path_plain (p @ ''/'')" "path_plain (''./'' @ r)" "path_plain (p @ ''/'' @ r)"
    using assms by (auto simp: base_text_def path_plain_def unreserved_def)
  have e: "escaped_path (no_url\<lparr>ur_path := ''./'' @ r\<rparr>) = ''./'' @ r"
    "escaped_path \<lparr>ur_scheme = s, ur_authority = a, ur_path = p @ ''/'', ur_raw_path = '''', ur_raw_query = q\<rparr> =
      p @ ''/''"
    using escaped_path_plain [of "no_url\<lparr>ur_path := ''./'' @ r\<rparr>"]
      escaped_path_plain [of "\<lparr>ur_scheme = s, ur_authority = a, ur_path = p @ ''/'', ur_raw_path = '''', ur_raw_query = q\<rparr>"]
      pl(1,2) by (simp_all add: no_url_def)
  show ?thesis
    unfolding url_ref_def url_parse_dot [OF assms(2)] map_sum.simps resolve_reference_def e
      resolve_path_dot [OF assms(1,3)] with_path_def set_path_plain [OF pl(3)]
    by (simp add: no_url_def)
qed

section \<open>Query strings are read back\<close>

definition query_char :: "char \<Rightarrow> bool" where
  "query_char c \<longleftrightarrow> unreserved c \<or> c = CHR ''%'' \<or> c = CHR ''+''"

lemma query_char_not: "query_char c \<Longrightarrow> \<not> is_ctl c \<and> c \<notin> set ''=&;#''"
  using unreserved_code [of c] by (auto simp: query_char_def is_ctl_def)

lemma unreserved_hex: "d < 16 \<Longrightarrow> unreserved (upper_hex d)"
  by (auto simp: unreserved_def upper_hex_def Let_def)

lemma escape_query_chars: "list_all query_char (url_escape EncQuery s)"
proof (induction s)
  case (Cons c s)
  have "unreserved (upper_hex (of_char c div 16))" "unreserved (upper_hex (of_char c mod 16))"
    using nat_of_char_less_256 [of c] by (auto intro!: unreserved_hex simp: div_less_iff_less_mult)
  moreover have "\<not> should_escape EncQuery c \<Longrightarrow> unreserved c"
    by (auto simp: should_escape_def split: if_splits)
  ultimately have "list_all query_char (escape_char EncQuery c)"
    by (auto simp: escape_char_def query_char_def)
  then show ?case using Cons by simp
qed simp

definition pair_text :: "string \<times> string \<Rightarrow> string" where
  "pair_text kv = (case kv of (k, v) \<Rightarrow> url_escape EncQuery k @ ''='' @ url_escape EncQuery v)"

lemma pair_text_chars: "c \<in> set (pair_text kv) \<Longrightarrow> query_char c \<or> c = CHR ''=''"
  using escape_query_chars by (cases kv) (auto simp: pair_text_def list_all_iff)

lemma query_piece_text: "query_piece (pair_text (k, v)) = Inr (Some (k, v))"
proof -
  have "CHR '';'' \<notin> set (pair_text (k, v))"
    using pair_text_chars [of "CHR '';''" "(k, v)"] query_char_not [of "CHR '';''"] by auto
  moreover have "CHR ''='' \<notin> set (url_escape EncQuery k)"
    using escape_query_chars [of k] query_char_not [of "CHR ''=''"] by (auto simp: list_all_iff)
  then have "str_cut (CHR ''='') (pair_text (k, v)) = (url_escape EncQuery k, Some (url_escape EncQuery v))"
    using str_cut_found by (simp add: pair_text_def)
  moreover have "pair_text (k, v) \<noteq> ''''" by (simp add: pair_text_def)
  ultimately show ?thesis by (simp add: query_piece_def unescape_escape)
qed

lemma parse_pieces_text:
  "parse_pieces (map pair_text kvs) err m = (err, fold (\<lambda>(k, v). values_add k v) kvs m)"
  by (induction kvs arbitrary: m) (auto simp: query_piece_text)

lemma split_on_join:
  "xs \<noteq> [] \<Longrightarrow> \<forall>x \<in> set xs. d \<notin> set x \<Longrightarrow> split_on d (join [d] xs) = xs"
proof (induction xs rule: induct_list012)
  case (3 x y ys)
  then show ?case by (simp add: split_on_append split_on_single)
qed (simp_all add: split_on_single)

definition values_ok :: "query_vals \<Rightarrow> bool" where
  "values_ok m \<longleftrightarrow> distinct (map fst m) \<and> (\<forall>kv \<in> set m. snd kv \<noteq> [])"

lemma values_add_group:
  assumes "k \<notin> fst ` set m"
  shows "fold (values_add k) (v # vs) m = m @ [(k, v # vs)]"
proof -
  have "fold (values_add k) vs (m @ [(k, us)]) = m @ [(k, us @ vs)]" for us
  proof (induction vs arbitrary: us)
    case (Cons w ws)
    have "values_add k w (m @ [(k, us)]) = m @ [(k, us @ [w])]"
      using assms by (induction m) (auto simp: values_add_def map_set_def)
    then show ?case using Cons.IH [of "us @ [w]"] by simp
  qed simp
  moreover have "values_add k v m = m @ [(k, [v])]"
    using assms by (induction m) (auto simp: values_add_def map_set_def)
  ultimately show ?thesis by simp
qed

lemma values_add_all:
  assumes "values_ok m" "fst ` set m \<inter> fst ` set acc = {}"
  shows "fold (\<lambda>(k, v). values_add k v) (concat (map (\<lambda>(k, vs). map (Pair k) vs) m)) acc = acc @ m"
  using assms
proof (induction m arbitrary: acc)
  case (Cons kv m)
  obtain k v vs where kv: "kv = (k, v # vs)"
    using Cons.prems(1) by (cases kv; cases "snd kv") (auto simp: values_ok_def)
  have "fold (\<lambda>(k, v). values_add k v) (map (Pair k) (v # vs)) acc = acc @ [(k, v # vs)]"
    using values_add_group [of k acc v vs] Cons.prems(2) kv by (simp add: fold_map comp_def)
  then show ?case
    using Cons.IH [of "acc @ [(k, v # vs)]"] Cons.prems kv by (auto simp: values_ok_def)
qed simp

lemma values_encode_pairs:
  "values_encode m = join ''&'' (map pair_text (concat (map (\<lambda>(k, vs). map (Pair k) vs) (sort_key fst m))))"
  by (simp add: values_encode_def map_concat comp_def case_prod_unfold pair_text_def)

lemma values_ok_sort: "values_ok m \<Longrightarrow> values_ok (sort_key fst m)"
  by (simp add: values_ok_def distinct_map inj_on_def)

lemma query_codec:
  assumes "values_ok m"
  shows "parse_query (values_encode m) = (None, sort_key fst m)"
proof (cases "sort_key fst m = []")
  case True
  then show ?thesis by (simp add: values_encode_pairs parse_query_def query_piece_def)
next
  case False
  let ?kvs = "concat (map (\<lambda>(k, vs). map (Pair k) vs) (sort_key fst m))"
  have "?kvs \<noteq> []"
    using False values_ok_sort [OF assms]
    by (cases "sort_key fst m") (auto simp: values_ok_def)
  moreover have "CHR ''&'' \<notin> set (pair_text kv)" for kv
    using pair_text_chars [of "CHR ''&''" kv] query_char_not [of "CHR ''&''"] by auto
  ultimately have "split_on (CHR ''&'') (values_encode m) = map pair_text ?kvs"
    unfolding values_encode_pairs by (intro split_on_join) auto
  then show ?thesis
    using values_add_all [OF values_ok_sort [OF assms], of "[]"]
    by (simp add: parse_query_def parse_pieces_text)
qed

lemma join_chars: "c \<in> set (join d xs) \<Longrightarrow> c \<in> set d \<or> (\<exists>x \<in> set xs. c \<in> set x)"
  by (induction d xs rule: join.induct) auto

lemma query_text_encode: "query_text (values_encode m)"
proof -
  have "\<not> is_ctl c \<and> c \<noteq> CHR ''#''" if "c \<in> set (values_encode m)" for c
  proof -
    have "\<not> is_ctl (CHR ''&'')" "\<not> is_ctl (CHR ''='')" by code_simp+
    moreover have "c = CHR ''&'' \<or> query_char c \<or> c = CHR ''=''"
      using join_chars [OF that [unfolded values_encode_pairs]] pair_text_chars by auto
    ultimately show ?thesis using query_char_not [of c] by auto
  qed
  then show ?thesis by (simp add: query_text_def list_all_iff)
qed

end
