(* ===== verification/Api_Client.thy ===== *)
theory Api_Client
  imports Api_Types Url
begin

text \<open>
  The client library of the API (pkg/client/client.gen.go): the client and its options, the requests
  of the eleven operations, sending them, and what is made of the replies.

  The package declares the types of the API again; its declarations are word for word those of
  server.gen.go, so the records of Api_Types stand for them, with their \<open>MarshalJSON\<close> and
  \<open>UnmarshalJSON\<close>. Encoding a VM or a cluster cannot fail, as it holds no channel, function or
  infinite number.

  Outside the repository, and so parameters: the parameter styles of oapi-codegen's runtime, which
  hosts \<open>url.Parse\<close> accepts, the texts of \<open>encoding/json\<close> errors, the range of float32, and the
  HTTP client that sends the requests. The context of a call, which is only handed on, is left out.
\<close>

section \<open>Values of the enumerations, additional properties\<close>

definition cluster_service_type_valid :: "string \<Rightarrow> bool" where
  "cluster_service_type_valid e = (e = ''cluster'')"

definition control_plane_count_valid :: "int \<Rightarrow> bool" where
  "control_plane_count_valid e = (e \<in> {1, 3, 5})"

definition health_status_valid :: "string \<Rightarrow> bool" where
  "health_status_valid e = (e \<in> {''healthy'', ''unhealthy''})"

definition vm_service_type_valid :: "string \<Rightarrow> bool" where
  "vm_service_type_valid e = (e = ''vm'')"

definition cluster_spec_get :: "ClusterSpec \<Rightarrow> string \<Rightarrow> json option" where
  "cluster_spec_get a fieldName = map_of (cs_additional a) fieldName"

definition cluster_spec_set :: "string \<Rightarrow> json \<Rightarrow> ClusterSpec \<Rightarrow> ClusterSpec" where
  "cluster_spec_set fieldName v a = a\<lparr>cs_additional := map_set fieldName v (cs_additional a)\<rparr>"

definition vm_spec_get :: "VMSpec \<Rightarrow> string \<Rightarrow> json option" where
  "vm_spec_get a fieldName = map_of (vs_additional a) fieldName"

definition vm_spec_set :: "string \<Rightarrow> json \<Rightarrow> VMSpec \<Rightarrow> VMSpec" where
  "vm_spec_set fieldName v a = a\<lparr>vs_additional := map_set fieldName v (vs_additional a)\<rparr>"

section \<open>Requests and replies\<close>

record ApiRequest =
  aq_method :: string
  aq_url :: URL
  aq_header :: "(string \<times> string) list"
  aq_body :: bytes

text \<open>A reply of the HTTP client; reading its body may fail.\<close>

record HttpReply =
  hp_status :: string
  hp_code :: int
  hp_type :: string
  hp_body :: "string + bytes"

type_synonym 'n doer = "ApiRequest \<Rightarrow> 'n \<Rightarrow> (string + HttpReply) \<times> 'n"
type_synonym editor = "ApiRequest \<Rightarrow> string + ApiRequest"

record 'n ClientEnv =
  ce_authority :: "string \<Rightarrow> string option"
  ce_style_int :: "string \<Rightarrow> int \<Rightarrow> string + string"
  ce_style_str :: "string \<Rightarrow> string \<Rightarrow> string + string"
  ce_style_path :: "string \<Rightarrow> string \<Rightarrow> string + string"
  ce_json_err :: "bytes \<Rightarrow> string"
  ce_float32 :: "string \<Rightarrow> bool"
  ce_default :: "'n doer"

section \<open>The client\<close>

record 'n ApiClient =
  ac_server :: string
  ac_client :: "'n doer option"
  ac_editors :: "editor list"

type_synonym 'n client_option = "'n ApiClient \<Rightarrow> string + 'n ApiClient"

fun apply_options :: "'n client_option list \<Rightarrow> 'n ApiClient \<Rightarrow> string + 'n ApiClient" where
  "apply_options [] c = Inr c"
| "apply_options (opt # opts) c = and_then (opt c) (apply_options opts)"

definition new_api_client :: "'n ClientEnv \<Rightarrow> string \<Rightarrow> 'n client_option list \<Rightarrow> string + 'n ApiClient" where
  "new_api_client E server opts =
     and_then (apply_options opts \<lparr>ac_server = server, ac_client = None, ac_editors = []\<rparr>) (\<lambda>c.
       let c = (if \<not> has_suffix (ac_server c) ''/'' then c\<lparr>ac_server := ac_server c @ ''/''\<rparr> else c) in
       Inr (if ac_client c = None then c\<lparr>ac_client := Some (ce_default E)\<rparr> else c))"

definition with_http_client :: "'n doer \<Rightarrow> 'n client_option" where
  "with_http_client doer c = Inr (c\<lparr>ac_client := Some doer\<rparr>)"

definition with_request_editor :: "editor \<Rightarrow> 'n client_option" where
  "with_request_editor f c = Inr (c\<lparr>ac_editors := ac_editors c @ [f]\<rparr>)"

definition with_base_url :: "'n ClientEnv \<Rightarrow> string \<Rightarrow> 'n client_option" where
  "with_base_url E base_url c =
     and_then (url_parse (ce_authority E) base_url) (\<lambda>u. Inr (c\<lparr>ac_server := url_string u\<rparr>))"

fun run_editors :: "editor list \<Rightarrow> ApiRequest \<Rightarrow> string + ApiRequest" where
  "run_editors [] rq = Inr rq"
| "run_editors (f # fs) rq = and_then (f rq) (run_editors fs)"

definition apply_editors :: "'n ApiClient \<Rightarrow> ApiRequest \<Rightarrow> editor list \<Rightarrow> string + ApiRequest" where
  "apply_editors c rq additional = and_then (run_editors (ac_editors c) rq) (run_editors additional)"

section \<open>Building requests\<close>

text \<open>The steps that the constructors of requests share.\<close>

definition operation_url :: "'n ClientEnv \<Rightarrow> string \<Rightarrow> string \<Rightarrow> string + URL" where
  "operation_url E server operation_path =
     and_then (url_parse (ce_authority E) server) (\<lambda>server_url.
       url_ref (ce_authority E) server_url
         (if hd operation_path = CHR ''/'' then ''.'' @ operation_path else operation_path))"

definition add_styled :: "string + string \<Rightarrow> query_vals \<Rightarrow> string + query_vals" where
  "add_styled frag query =
     and_then frag (\<lambda>frag.
       case parse_query frag of
         (Some err, _) \<Rightarrow> Inl err
       | (None, parsed) \<Rightarrow> Inr (fold (\<lambda>(k, vs). fold (values_add k) vs) parsed query))"

definition add_opt :: "('a \<Rightarrow> string + string) \<Rightarrow> 'a option \<Rightarrow> query_vals \<Rightarrow> string + query_vals" where
  "add_opt style param query =
     (case param of None \<Rightarrow> Inr query | Some v \<Rightarrow> add_styled (style v) query)"

definition set_query :: "query_vals \<Rightarrow> URL \<Rightarrow> URL" where
  "set_query query u = u\<lparr>ur_raw_query := values_encode query\<rparr>"

definition url_query :: "URL \<Rightarrow> query_vals" where
  "url_query u = snd (parse_query (ur_raw_query u))"

definition http_request :: "'n ClientEnv \<Rightarrow> string \<Rightarrow> URL \<Rightarrow> bytes \<Rightarrow> string + ApiRequest" where
  "http_request E meth u body =
     and_then (url_parse (ce_authority E) (url_string u)) (\<lambda>u.
       Inr \<lparr>aq_method = meth, aq_url = u, aq_header = [], aq_body = body\<rparr>)"

definition add_header :: "string \<Rightarrow> string \<Rightarrow> ApiRequest \<Rightarrow> ApiRequest" where
  "add_header k v rq = rq\<lparr>aq_header := aq_header rq @ [(k, v)]\<rparr>"

definition new_list_clusters_request :: "'n ClientEnv \<Rightarrow> string \<Rightarrow> ListParams option \<Rightarrow> string + ApiRequest" where
  "new_list_clusters_request E server params =
     and_then (operation_url E server ''/clusters'') (\<lambda>query_url.
     and_then
       (case params of
          None \<Rightarrow> Inr query_url
        | Some ps \<Rightarrow>
            and_then (add_opt (ce_style_int E ''max_page_size'') (lp_max_page_size ps) (url_query query_url)) (\<lambda>query.
            and_then (add_opt (ce_style_str E ''page_token'') (lp_page_token ps) query) (\<lambda>query.
              Inr (set_query query query_url)))) (\<lambda>query_url.
       http_request E ''GET'' query_url []))"

definition new_create_cluster_request_with_body ::
  "'n ClientEnv \<Rightarrow> string \<Rightarrow> string option option \<Rightarrow> string \<Rightarrow> bytes \<Rightarrow> string + ApiRequest" where
  "new_create_cluster_request_with_body E server params content_type body =
     and_then (operation_url E server ''/clusters'') (\<lambda>query_url.
     and_then
       (case params of
          None \<Rightarrow> Inr query_url
        | Some params_id \<Rightarrow>
            and_then (add_opt (ce_style_str E ''id'') params_id (url_query query_url)) (\<lambda>query.
              Inr (set_query query query_url))) (\<lambda>query_url.
     and_then (http_request E ''POST'' query_url body) (\<lambda>req.
       Inr (add_header ''Content-Type'' content_type req))))"

definition new_create_cluster_request ::
  "'n ClientEnv \<Rightarrow> string \<Rightarrow> string option option \<Rightarrow> Cluster \<Rightarrow> string + ApiRequest" where
  "new_create_cluster_request E server params body =
     new_create_cluster_request_with_body E server params ''application/json'' (json_print (cluster_json body))"

definition new_get_cluster_health_request :: "'n ClientEnv \<Rightarrow> string \<Rightarrow> string + ApiRequest" where
  "new_get_cluster_health_request E server =
     and_then (operation_url E server ''/clusters/health'') (\<lambda>query_url. http_request E ''GET'' query_url [])"

definition new_delete_cluster_request :: "'n ClientEnv \<Rightarrow> string \<Rightarrow> string \<Rightarrow> string + ApiRequest" where
  "new_delete_cluster_request E server clusterId =
     and_then (ce_style_path E ''clusterId'' clusterId) (\<lambda>path_param0.
     and_then (operation_url E server (''/clusters/'' @ path_param0)) (\<lambda>query_url.
       http_request E ''DELETE'' query_url []))"

definition new_get_cluster_request :: "'n ClientEnv \<Rightarrow> string \<Rightarrow> string \<Rightarrow> string + ApiRequest" where
  "new_get_cluster_request E server clusterId =
     and_then (ce_style_path E ''clusterId'' clusterId) (\<lambda>path_param0.
     and_then (operation_url E server (''/clusters/'' @ path_param0)) (\<lambda>query_url.
       http_request E ''GET'' query_url []))"

definition new_get_health_request :: "'n ClientEnv \<Rightarrow> string \<Rightarrow> string + ApiRequest" where
  "new_get_health_request E server =
     and_then (operation_url E server ''/health'') (\<lambda>query_url. http_request E ''GET'' query_url [])"

definition new_list_vms_request :: "'n ClientEnv \<Rightarrow> string \<Rightarrow> ListParams option \<Rightarrow> string + ApiRequest" where
  "new_list_vms_request E server params =
     and_then (operation_url E server ''/vms'') (\<lambda>query_url.
     and_then
       (case params of
          None \<Rightarrow> Inr query_url
        | Some ps \<Rightarrow>
            and_then (add_opt (ce_style_int E ''max_page_size'') (lp_max_page_size ps) (url_query query_url)) (\<lambda>query.
            and_then (add_opt (ce_style_str E ''page_token'') (lp_page_token ps) query) (\<lambda>query.
              Inr (set_query query query_url)))) (\<lambda>query_url.
       http_request E ''GET'' query_url []))"

definition new_create_vm_request_with_body ::
  "'n ClientEnv \<Rightarrow> string \<Rightarrow> string option option \<Rightarrow> string \<Rightarrow> bytes \<Rightarrow> string + ApiRequest" where
  "new_create_vm_request_with_body E server params content_type body =
     and_then (operation_url E server ''/vms'') (\<lambda>query_url.
     and_then
       (case params of
          None \<Rightarrow> Inr query_url
        | Some params_id \<Rightarrow>
            and_then (add_opt (ce_style_str E ''id'') params_id (url_query query_url)) (\<lambda>query.
              Inr (set_query query query_url))) (\<lambda>query_url.
     and_then (http_request E ''POST'' query_url body) (\<lambda>req.
       Inr (add_header ''Content-Type'' content_type req))))"

definition new_create_vm_request ::
  "'n ClientEnv \<Rightarrow> string \<Rightarrow> string option option \<Rightarrow> VM \<Rightarrow> string + ApiRequest" where
  "new_create_vm_request E server params body =
     new_create_vm_request_with_body E server params ''application/json'' (json_print (vm_json body))"

definition new_get_vm_health_request :: "'n ClientEnv \<Rightarrow> string \<Rightarrow> string + ApiRequest" where
  "new_get_vm_health_request E server =
     and_then (operation_url E server ''/vms/health'') (\<lambda>query_url. http_request E ''GET'' query_url [])"

definition new_delete_vm_request :: "'n ClientEnv \<Rightarrow> string \<Rightarrow> string \<Rightarrow> string + ApiRequest" where
  "new_delete_vm_request E server vmId =
     and_then (ce_style_path E ''vmId'' vmId) (\<lambda>path_param0.
     and_then (operation_url E server (''/vms/'' @ path_param0)) (\<lambda>query_url.
       http_request E ''DELETE'' query_url []))"

definition new_get_vm_request :: "'n ClientEnv \<Rightarrow> string \<Rightarrow> string \<Rightarrow> string + ApiRequest" where
  "new_get_vm_request E server vmId =
     and_then (ce_style_path E ''vmId'' vmId) (\<lambda>path_param0.
     and_then (operation_url E server (''/vms/'' @ path_param0)) (\<lambda>query_url.
       http_request E ''GET'' query_url []))"

section \<open>Sending them\<close>

definition send_request ::
  "'n ApiClient \<Rightarrow> string + ApiRequest \<Rightarrow> editor list \<Rightarrow> 'n \<Rightarrow> (string + HttpReply) \<times> 'n" where
  "send_request c request editors net =
     (case and_then request (\<lambda>req. apply_editors c req editors) of
        Inl err \<Rightarrow> (Inl err, net)
      | Inr req \<Rightarrow> (the (ac_client c)) req net)"

definition api_list_clusters ::
  "'n ClientEnv \<Rightarrow> 'n ApiClient \<Rightarrow> ListParams option \<Rightarrow> editor list \<Rightarrow> 'n \<Rightarrow> (string + HttpReply) \<times> 'n" where
  "api_list_clusters E c params editors net =
     send_request c (new_list_clusters_request E (ac_server c) params) editors net"

definition api_create_cluster_with_body ::
  "'n ClientEnv \<Rightarrow> 'n ApiClient \<Rightarrow> string option option \<Rightarrow> string \<Rightarrow> bytes \<Rightarrow> editor list \<Rightarrow> 'n \<Rightarrow> (string + HttpReply) \<times> 'n" where
  "api_create_cluster_with_body E c params content_type body editors net =
     send_request c (new_create_cluster_request_with_body E (ac_server c) params content_type body) editors net"

definition api_create_cluster ::
  "'n ClientEnv \<Rightarrow> 'n ApiClient \<Rightarrow> string option option \<Rightarrow> Cluster \<Rightarrow> editor list \<Rightarrow> 'n \<Rightarrow> (string + HttpReply) \<times> 'n" where
  "api_create_cluster E c params body editors net =
     send_request c (new_create_cluster_request E (ac_server c) params body) editors net"

definition api_get_cluster_health ::
  "'n ClientEnv \<Rightarrow> 'n ApiClient \<Rightarrow> editor list \<Rightarrow> 'n \<Rightarrow> (string + HttpReply) \<times> 'n" where
  "api_get_cluster_health E c editors net =
     send_request c (new_get_cluster_health_request E (ac_server c)) editors net"

definition api_delete_cluster ::
  "'n ClientEnv \<Rightarrow> 'n ApiClient \<Rightarrow> string \<Rightarrow> editor list \<Rightarrow> 'n \<Rightarrow> (string + HttpReply) \<times> 'n" where
  "api_delete_cluster E c clusterId editors net =
     send_request c (new_delete_cluster_request E (ac_server c) clusterId) editors net"

definition api_get_cluster ::
  "'n ClientEnv \<Rightarrow> 'n ApiClient \<Rightarrow> string \<Rightarrow> editor list \<Rightarrow> 'n \<Rightarrow> (string + HttpReply) \<times> 'n" where
  "api_get_cluster E c clusterId editors net =
     send_request c (new_get_cluster_request E (ac_server c) clusterId) editors net"

definition api_get_health ::
  "'n ClientEnv \<Rightarrow> 'n ApiClient \<Rightarrow> editor list \<Rightarrow> 'n \<Rightarrow> (string + HttpReply) \<times> 'n" where
  "api_get_health E c editors net =
     send_request c (new_get_health_request E (ac_server c)) editors net"

definition api_list_vms ::
  "'n ClientEnv \<Rightarrow> 'n ApiClient \<Rightarrow> ListParams option \<Rightarrow> editor list \<Rightarrow> 'n \<Rightarrow> (string + HttpReply) \<times> 'n" where
  "api_list_vms E c params editors net =
     send_request c (new_list_vms_request E (ac_server c) params) editors net"

definition api_create_vm_with_body ::
  "'n ClientEnv \<Rightarrow> 'n ApiClient \<Rightarrow> string option option \<Rightarrow> string \<Rightarrow> bytes \<Rightarrow> editor list \<Rightarrow> 'n \<Rightarrow> (string + HttpReply) \<times> 'n" where
  "api_create_vm_with_body E c params content_type body editors net =
     send_request c (new_create_vm_request_with_body E (ac_server c) params content_type body) editors net"

definition api_create_vm ::
  "'n ClientEnv \<Rightarrow> 'n ApiClient \<Rightarrow> string option option \<Rightarrow> VM \<Rightarrow> editor list \<Rightarrow> 'n \<Rightarrow> (string + HttpReply) \<times> 'n" where
  "api_create_vm E c params body editors net =
     send_request c (new_create_vm_request E (ac_server c) params body) editors net"

definition api_get_vm_health ::
  "'n ClientEnv \<Rightarrow> 'n ApiClient \<Rightarrow> editor list \<Rightarrow> 'n \<Rightarrow> (string + HttpReply) \<times> 'n" where
  "api_get_vm_health E c editors net =
     send_request c (new_get_vm_health_request E (ac_server c)) editors net"

definition api_delete_vm ::
  "'n ClientEnv \<Rightarrow> 'n ApiClient \<Rightarrow> string \<Rightarrow> editor list \<Rightarrow> 'n \<Rightarrow> (string + HttpReply) \<times> 'n" where
  "api_delete_vm E c vmId editors net =
     send_request c (new_delete_vm_request E (ac_server c) vmId) editors net"

definition api_get_vm ::
  "'n ClientEnv \<Rightarrow> 'n ApiClient \<Rightarrow> string \<Rightarrow> editor list \<Rightarrow> 'n \<Rightarrow> (string + HttpReply) \<times> 'n" where
  "api_get_vm E c vmId editors net =
     send_request c (new_get_vm_request E (ac_server c) vmId) editors net"

section \<open>Documents of the replies\<close>

definition error_of :: "json \<Rightarrow> Error option" where
  "error_of v =
     (case struct_of v of
        None \<Rightarrow> None
      | Some ms \<Rightarrow>
          (case (ptr_val json_str None (field_vals ''detail'' ms), ptr_val json_str None (field_vals ''instance'' ms),
                 ptr_val json_int None (field_vals ''status'' ms)) of
             (Some detail, Some inst, Some status) \<Rightarrow>
               (case (str_field ''title'' ms, str_field ''type'' ms) of
                  (Some title, Some ty) \<Rightarrow>
                    Some \<lparr>er_detail = detail, er_instance = inst, er_status = status, er_title = title,
                          er_type = ty\<rparr>
                | _ \<Rightarrow> None)
           | _ \<Rightarrow> None))"

definition vm_list_of :: "json \<Rightarrow> VMList option" where
  "vm_list_of v =
     (case struct_of v of
        None \<Rightarrow> None
      | Some ms \<Rightarrow>
          (case (ptr_val json_str None (field_vals ''next_page_token'' ms),
                 decode_slice vm_of None (field_vals ''results'' ms)) of
             (Some token, Some results) \<Rightarrow> Some \<lparr>vl_next_page_token = token, vl_results = results\<rparr>
           | _ \<Rightarrow> None))"

definition cluster_list_of :: "json \<Rightarrow> ClusterList option" where
  "cluster_list_of v =
     (case struct_of v of
        None \<Rightarrow> None
      | Some ms \<Rightarrow>
          (case (ptr_val json_str None (field_vals ''next_page_token'' ms),
                 decode_slice cluster_of None (field_vals ''results'' ms)) of
             (Some token, Some results) \<Rightarrow> Some \<lparr>cll_next_page_token = token, cll_results = results\<rparr>
           | _ \<Rightarrow> None))"

text \<open>The uptime is the literal of a float32; the status is any string.\<close>

record ClientHealth =
  hc_message :: "string option"
  hc_status :: "string option"
  hc_uptime :: "string option"
  hc_version :: "string option"

fun float_literal :: "(string \<Rightarrow> bool) \<Rightarrow> json \<Rightarrow> string option" where
  "float_literal f32 (JNum l) = (if f32 l then Some l else None)"
| "float_literal f32 _ = None"

definition health_of :: "(string \<Rightarrow> bool) \<Rightarrow> json \<Rightarrow> ClientHealth option" where
  "health_of f32 v =
     (case struct_of v of
        None \<Rightarrow> None
      | Some ms \<Rightarrow>
          (case (ptr_val json_str None (field_vals ''message'' ms), ptr_val json_str None (field_vals ''status'' ms),
                 ptr_val (float_literal f32) None (field_vals ''uptime'' ms),
                 ptr_val json_str None (field_vals ''version'' ms)) of
             (Some message, Some status, Some uptime, Some version) \<Rightarrow>
               Some \<lparr>hc_message = message, hc_status = status, hc_uptime = uptime, hc_version = version\<rparr>
           | _ \<Rightarrow> None))"

definition unmarshal :: "'n ClientEnv \<Rightarrow> (json \<Rightarrow> 'a option) \<Rightarrow> bytes \<Rightarrow> string + 'a" where
  "unmarshal E conv bs =
     (case Option.bind (json_parse bs) conv of None \<Rightarrow> Inl (ce_json_err E bs) | Some x \<Rightarrow> Inr x)"

section \<open>Replies\<close>

record Reply =
  rp_body :: bytes
  rp_http :: "HttpReply option"

definition reply_status :: "'a Reply_scheme \<Rightarrow> string" where
  "reply_status r = (case rp_http r of Some h \<Rightarrow> hp_status h | None \<Rightarrow> '''')"

definition reply_status_code :: "'a Reply_scheme \<Rightarrow> int" where
  "reply_status_code r = (case rp_http r of Some h \<Rightarrow> hp_code h | None \<Rightarrow> 0)"

definition is_json :: "HttpReply \<Rightarrow> bool" where
  "is_json rsp = str_contains (hp_type rsp) ''json''"

record ListClustersReply = Reply +
  lcr_json200 :: "ClusterList option"
  lcr_default :: "Error option"

definition parse_list_clusters_reply :: "'n ClientEnv \<Rightarrow> HttpReply \<Rightarrow> string + ListClustersReply" where
  "parse_list_clusters_reply E rsp =
     and_then (hp_body rsp) (\<lambda>body_bytes.
       let response = \<lparr>rp_body = body_bytes, rp_http = Some rsp,
                       lcr_json200 = None, lcr_default = None\<rparr> in
        if is_json rsp \<and> hp_code rsp = 200 then
          and_then (unmarshal E cluster_list_of body_bytes) (\<lambda>dest. Inr (response\<lparr>lcr_json200 := Some dest\<rparr>))
        else if is_json rsp then
          and_then (unmarshal E error_of body_bytes) (\<lambda>dest. Inr (response\<lparr>lcr_default := Some dest\<rparr>))
        else Inr response)"

record CreateClusterReply = Reply +
  ccr_json201 :: "Cluster option"
  ccr_problem400 :: "Error option"
  ccr_problem409 :: "Error option"
  ccr_default :: "Error option"

definition parse_create_cluster_reply :: "'n ClientEnv \<Rightarrow> HttpReply \<Rightarrow> string + CreateClusterReply" where
  "parse_create_cluster_reply E rsp =
     and_then (hp_body rsp) (\<lambda>body_bytes.
       let response = \<lparr>rp_body = body_bytes, rp_http = Some rsp,
                       ccr_json201 = None, ccr_problem400 = None, ccr_problem409 = None, ccr_default = None\<rparr> in
        if is_json rsp \<and> hp_code rsp = 201 then
          and_then (unmarshal E cluster_of body_bytes) (\<lambda>dest. Inr (response\<lparr>ccr_json201 := Some dest\<rparr>))
        else if is_json rsp \<and> hp_code rsp = 400 then
          and_then (unmarshal E error_of body_bytes) (\<lambda>dest. Inr (response\<lparr>ccr_problem400 := Some dest\<rparr>))
        else if is_json rsp \<and> hp_code rsp = 409 then
          and_then (unmarshal E error_of body_bytes) (\<lambda>dest. Inr (response\<lparr>ccr_problem409 := Some dest\<rparr>))
        else if is_json rsp then
          and_then (unmarshal E error_of body_bytes) (\<lambda>dest. Inr (response\<lparr>ccr_default := Some dest\<rparr>))
        else Inr response)"

record GetClusterHealthReply = Reply +
  gchr_json200 :: "ClientHealth option"
  gchr_json503 :: "ClientHealth option"

definition parse_get_cluster_health_reply :: "'n ClientEnv \<Rightarrow> HttpReply \<Rightarrow> string + GetClusterHealthReply" where
  "parse_get_cluster_health_reply E rsp =
     and_then (hp_body rsp) (\<lambda>body_bytes.
       let response = \<lparr>rp_body = body_bytes, rp_http = Some rsp,
                       gchr_json200 = None, gchr_json503 = None\<rparr> in
        if is_json rsp \<and> hp_code rsp = 200 then
          and_then (unmarshal E (health_of (ce_float32 E)) body_bytes) (\<lambda>dest. Inr (response\<lparr>gchr_json200 := Some dest\<rparr>))
        else if is_json rsp \<and> hp_code rsp = 503 then
          and_then (unmarshal E (health_of (ce_float32 E)) body_bytes) (\<lambda>dest. Inr (response\<lparr>gchr_json503 := Some dest\<rparr>))
        else Inr response)"

record DeleteClusterReply = Reply +
  dcr_problem404 :: "Error option"
  dcr_default :: "Error option"

definition parse_delete_cluster_reply :: "'n ClientEnv \<Rightarrow> HttpReply \<Rightarrow> string + DeleteClusterReply" where
  "parse_delete_cluster_reply E rsp =
     and_then (hp_body rsp) (\<lambda>body_bytes.
       let response = \<lparr>rp_body = body_bytes, rp_http = Some rsp,
                       dcr_problem404 = None, dcr_default = None\<rparr> in
        if is_json rsp \<and> hp_code rsp = 404 then
          and_then (unmarshal E error_of body_bytes) (\<lambda>dest. Inr (response\<lparr>dcr_problem404 := Some dest\<rparr>))
        else if is_json rsp then
          and_then (unmarshal E error_of body_bytes) (\<lambda>dest. Inr (response\<lparr>dcr_default := Some dest\<rparr>))
        else Inr response)"

record GetClusterReply = Reply +
  gcr_json200 :: "Cluster option"
  gcr_problem404 :: "Error option"
  gcr_default :: "Error option"

definition parse_get_cluster_reply :: "'n ClientEnv \<Rightarrow> HttpReply \<Rightarrow> string + GetClusterReply" where
  "parse_get_cluster_reply E rsp =
     and_then (hp_body rsp) (\<lambda>body_bytes.
       let response = \<lparr>rp_body = body_bytes, rp_http = Some rsp,
                       gcr_json200 = None, gcr_problem404 = None, gcr_default = None\<rparr> in
        if is_json rsp \<and> hp_code rsp = 200 then
          and_then (unmarshal E cluster_of body_bytes) (\<lambda>dest. Inr (response\<lparr>gcr_json200 := Some dest\<rparr>))
        else if is_json rsp \<and> hp_code rsp = 404 then
          and_then (unmarshal E error_of body_bytes) (\<lambda>dest. Inr (response\<lparr>gcr_problem404 := Some dest\<rparr>))
        else if is_json rsp then
          and_then (unmarshal E error_of body_bytes) (\<lambda>dest. Inr (response\<lparr>gcr_default := Some dest\<rparr>))
        else Inr response)"

record GetHealthReply = Reply +
  ghr_json200 :: "ClientHealth option"
  ghr_json503 :: "ClientHealth option"

definition parse_get_health_reply :: "'n ClientEnv \<Rightarrow> HttpReply \<Rightarrow> string + GetHealthReply" where
  "parse_get_health_reply E rsp =
     and_then (hp_body rsp) (\<lambda>body_bytes.
       let response = \<lparr>rp_body = body_bytes, rp_http = Some rsp,
                       ghr_json200 = None, ghr_json503 = None\<rparr> in
        if is_json rsp \<and> hp_code rsp = 200 then
          and_then (unmarshal E (health_of (ce_float32 E)) body_bytes) (\<lambda>dest. Inr (response\<lparr>ghr_json200 := Some dest\<rparr>))
        else if is_json rsp \<and> hp_code rsp = 503 then
          and_then (unmarshal E (health_of (ce_float32 E)) body_bytes) (\<lambda>dest. Inr (response\<lparr>ghr_json503 := Some dest\<rparr>))
        else Inr response)"

record ListVMsReply = Reply +
  lvr_json200 :: "VMList option"
  lvr_default :: "Error option"

definition parse_list_vms_reply :: "'n ClientEnv \<Rightarrow> HttpReply \<Rightarrow> string + ListVMsReply" where
  "parse_list_vms_reply E rsp =
     and_then (hp_body rsp) (\<lambda>body_bytes.
       let response = \<lparr>rp_body = body_bytes, rp_http = Some rsp,
                       lvr_json200 = None, lvr_default = None\<rparr> in
        if is_json rsp \<and> hp_code rsp = 200 then
          and_then (unmarshal E vm_list_of body_bytes) (\<lambda>dest. Inr (response\<lparr>lvr_json200 := Some dest\<rparr>))
        else if is_json rsp then
          and_then (unmarshal E error_of body_bytes) (\<lambda>dest. Inr (response\<lparr>lvr_default := Some dest\<rparr>))
        else Inr response)"

record CreateVMReply = Reply +
  cvr_json201 :: "VM option"
  cvr_problem400 :: "Error option"
  cvr_problem409 :: "Error option"
  cvr_default :: "Error option"

definition parse_create_vm_reply :: "'n ClientEnv \<Rightarrow> HttpReply \<Rightarrow> string + CreateVMReply" where
  "parse_create_vm_reply E rsp =
     and_then (hp_body rsp) (\<lambda>body_bytes.
       let response = \<lparr>rp_body = body_bytes, rp_http = Some rsp,
                       cvr_json201 = None, cvr_problem400 = None, cvr_problem409 = None, cvr_default = None\<rparr> in
        if is_json rsp \<and> hp_code rsp = 201 then
          and_then (unmarshal E vm_of body_bytes) (\<lambda>dest. Inr (response\<lparr>cvr_json201 := Some dest\<rparr>))
        else if is_json rsp \<and> hp_code rsp = 400 then
          and_then (unmarshal E error_of body_bytes) (\<lambda>dest. Inr (response\<lparr>cvr_problem400 := Some dest\<rparr>))
        else if is_json rsp \<and> hp_code rsp = 409 then
          and_then (unmarshal E error_of body_bytes) (\<lambda>dest. Inr (response\<lparr>cvr_problem409 := Some dest\<rparr>))
        else if is_json rsp then
          and_then (unmarshal E error_of body_bytes) (\<lambda>dest. Inr (response\<lparr>cvr_default := Some dest\<rparr>))
        else Inr response)"

record GetVMHealthReply = Reply +
  gvhr_json200 :: "ClientHealth option"
  gvhr_json503 :: "ClientHealth option"

definition parse_get_vm_health_reply :: "'n ClientEnv \<Rightarrow> HttpReply \<Rightarrow> string + GetVMHealthReply" where
  "parse_get_vm_health_reply E rsp =
     and_then (hp_body rsp) (\<lambda>body_bytes.
       let response = \<lparr>rp_body = body_bytes, rp_http = Some rsp,
                       gvhr_json200 = None, gvhr_json503 = None\<rparr> in
        if is_json rsp \<and> hp_code rsp = 200 then
          and_then (unmarshal E (health_of (ce_float32 E)) body_bytes) (\<lambda>dest. Inr (response\<lparr>gvhr_json200 := Some dest\<rparr>))
        else if is_json rsp \<and> hp_code rsp = 503 then
          and_then (unmarshal E (health_of (ce_float32 E)) body_bytes) (\<lambda>dest. Inr (response\<lparr>gvhr_json503 := Some dest\<rparr>))
        else Inr response)"

record DeleteVMReply = Reply +
  dvr_problem404 :: "Error option"
  dvr_default :: "Error option"

definition parse_delete_vm_reply :: "'n ClientEnv \<Rightarrow> HttpReply \<Rightarrow> string + DeleteVMReply" where
  "parse_delete_vm_reply E rsp =
     and_then (hp_body rsp) (\<lambda>body_bytes.
       let response = \<lparr>rp_body = body_bytes, rp_http = Some rsp,
                       dvr_problem404 = None, dvr_default = None\<rparr> in
        if is_json rsp \<and> hp_code rsp = 404 then
          and_then (unmarshal E error_of body_bytes) (\<lambda>dest. Inr (response\<lparr>dvr_problem404 := Some dest\<rparr>))
        else if is_json rsp then
          and_then (unmarshal E error_of body_bytes) (\<lambda>dest. Inr (response\<lparr>dvr_default := Some dest\<rparr>))
        else Inr response)"

record GetVMReply = Reply +
  gvr_json200 :: "VM option"
  gvr_problem404 :: "Error option"
  gvr_default :: "Error option"

definition parse_get_vm_reply :: "'n ClientEnv \<Rightarrow> HttpReply \<Rightarrow> string + GetVMReply" where
  "parse_get_vm_reply E rsp =
     and_then (hp_body rsp) (\<lambda>body_bytes.
       let response = \<lparr>rp_body = body_bytes, rp_http = Some rsp,
                       gvr_json200 = None, gvr_problem404 = None, gvr_default = None\<rparr> in
        if is_json rsp \<and> hp_code rsp = 200 then
          and_then (unmarshal E vm_of body_bytes) (\<lambda>dest. Inr (response\<lparr>gvr_json200 := Some dest\<rparr>))
        else if is_json rsp \<and> hp_code rsp = 404 then
          and_then (unmarshal E error_of body_bytes) (\<lambda>dest. Inr (response\<lparr>gvr_problem404 := Some dest\<rparr>))
        else if is_json rsp then
          and_then (unmarshal E error_of body_bytes) (\<lambda>dest. Inr (response\<lparr>gvr_default := Some dest\<rparr>))
        else Inr response)"

section \<open>Operations with their replies\<close>

definition with_reply ::
  "(HttpReply \<Rightarrow> string + 'r) \<Rightarrow> (string + HttpReply) \<times> 'n \<Rightarrow> (string + 'r) \<times> 'n" where
  "with_reply parse res = (case res of (rsp, net) \<Rightarrow> (and_then rsp parse, net))"

definition list_clusters_with_reply ::
  "'n ClientEnv \<Rightarrow> 'n ApiClient \<Rightarrow> ListParams option \<Rightarrow> editor list \<Rightarrow> 'n \<Rightarrow>
   (string + ListClustersReply) \<times> 'n" where
  "list_clusters_with_reply E c params editors net =
     with_reply (parse_list_clusters_reply E) (api_list_clusters E c params editors net)"

definition create_cluster_with_body_with_reply ::
  "'n ClientEnv \<Rightarrow> 'n ApiClient \<Rightarrow> string option option \<Rightarrow> string \<Rightarrow> bytes \<Rightarrow> editor list \<Rightarrow> 'n \<Rightarrow>
   (string + CreateClusterReply) \<times> 'n" where
  "create_cluster_with_body_with_reply E c params content_type body editors net =
     with_reply (parse_create_cluster_reply E) (api_create_cluster_with_body E c params content_type body editors net)"

definition create_cluster_with_reply ::
  "'n ClientEnv \<Rightarrow> 'n ApiClient \<Rightarrow> string option option \<Rightarrow> Cluster \<Rightarrow> editor list \<Rightarrow> 'n \<Rightarrow>
   (string + CreateClusterReply) \<times> 'n" where
  "create_cluster_with_reply E c params body editors net =
     with_reply (parse_create_cluster_reply E) (api_create_cluster E c params body editors net)"

definition get_cluster_health_with_reply ::
  "'n ClientEnv \<Rightarrow> 'n ApiClient \<Rightarrow> editor list \<Rightarrow> 'n \<Rightarrow>
   (string + GetClusterHealthReply) \<times> 'n" where
  "get_cluster_health_with_reply E c editors net =
     with_reply (parse_get_cluster_health_reply E) (api_get_cluster_health E c editors net)"

definition delete_cluster_with_reply ::
  "'n ClientEnv \<Rightarrow> 'n ApiClient \<Rightarrow> string \<Rightarrow> editor list \<Rightarrow> 'n \<Rightarrow>
   (string + DeleteClusterReply) \<times> 'n" where
  "delete_cluster_with_reply E c clusterId editors net =
     with_reply (parse_delete_cluster_reply E) (api_delete_cluster E c clusterId editors net)"

definition get_cluster_with_reply ::
  "'n ClientEnv \<Rightarrow> 'n ApiClient \<Rightarrow> string \<Rightarrow> editor list \<Rightarrow> 'n \<Rightarrow>
   (string + GetClusterReply) \<times> 'n" where
  "get_cluster_with_reply E c clusterId editors net =
     with_reply (parse_get_cluster_reply E) (api_get_cluster E c clusterId editors net)"

definition get_health_with_reply ::
  "'n ClientEnv \<Rightarrow> 'n ApiClient \<Rightarrow> editor list \<Rightarrow> 'n \<Rightarrow>
   (string + GetHealthReply) \<times> 'n" where
  "get_health_with_reply E c editors net =
     with_reply (parse_get_health_reply E) (api_get_health E c editors net)"

definition list_vms_with_reply ::
  "'n ClientEnv \<Rightarrow> 'n ApiClient \<Rightarrow> ListParams option \<Rightarrow> editor list \<Rightarrow> 'n \<Rightarrow>
   (string + ListVMsReply) \<times> 'n" where
  "list_vms_with_reply E c params editors net =
     with_reply (parse_list_vms_reply E) (api_list_vms E c params editors net)"

definition create_vm_with_body_with_reply ::
  "'n ClientEnv \<Rightarrow> 'n ApiClient \<Rightarrow> string option option \<Rightarrow> string \<Rightarrow> bytes \<Rightarrow> editor list \<Rightarrow> 'n \<Rightarrow>
   (string + CreateVMReply) \<times> 'n" where
  "create_vm_with_body_with_reply E c params content_type body editors net =
     with_reply (parse_create_vm_reply E) (api_create_vm_with_body E c params content_type body editors net)"

definition create_vm_with_reply ::
  "'n ClientEnv \<Rightarrow> 'n ApiClient \<Rightarrow> string option option \<Rightarrow> VM \<Rightarrow> editor list \<Rightarrow> 'n \<Rightarrow>
   (string + CreateVMReply) \<times> 'n" where
  "create_vm_with_reply E c params body editors net =
     with_reply (parse_create_vm_reply E) (api_create_vm E c params body editors net)"

definition get_vm_health_with_reply ::
  "'n ClientEnv \<Rightarrow> 'n ApiClient \<Rightarrow> editor list \<Rightarrow> 'n \<Rightarrow>
   (string + GetVMHealthReply) \<times> 'n" where
  "get_vm_health_with_reply E c editors net =
     with_reply (parse_get_vm_health_reply E) (api_get_vm_health E c editors net)"

definition delete_vm_with_reply ::
  "'n ClientEnv \<Rightarrow> 'n ApiClient \<Rightarrow> string \<Rightarrow> editor list \<Rightarrow> 'n \<Rightarrow>
   (string + DeleteVMReply) \<times> 'n" where
  "delete_vm_with_reply E c vmId editors net =
     with_reply (parse_delete_vm_reply E) (api_delete_vm E c vmId editors net)"

definition get_vm_with_reply ::
  "'n ClientEnv \<Rightarrow> 'n ApiClient \<Rightarrow> string \<Rightarrow> editor list \<Rightarrow> 'n \<Rightarrow>
   (string + GetVMReply) \<times> 'n" where
  "get_vm_with_reply E c vmId editors net =
     with_reply (parse_get_vm_reply E) (api_get_vm E c vmId editors net)"

end
