(* ===== verification/Wire.thy ===== *)
theory Wire
  imports Api_Client Router_Props Api_Codec
begin

text \<open>
  The connection between the client library and the server: what the server makes of a request and the
  client of an exchange, the contract of oapi-codegen's runtime on both ends, the documents that are read
  back, and the request that each constructor builds.
\<close>

section \<open>The wire\<close>

text \<open>
  What the server makes of a request (chi routes by the path as written where it has another encoding
  than the default), and what the client makes of an exchange. A handler that panics drops the
  connection.
\<close>

definition wire_request :: "ApiRequest \<Rightarrow> Request" where
  "wire_request rq =
     (let u = aq_url rq in
      \<lparr>rq_method = aq_method rq, rq_path = (if ur_raw_path u \<noteq> '''' then ur_raw_path u else ur_path u),
       rq_query = url_query u, rq_body = aq_body rq, rq_body_limit = None, rq_chi_id = '''',
       rq_req_id = None\<rparr>)"

definition wire_reply :: "Exchange \<Rightarrow> HttpReply" where
  "wire_reply ex =
     (case ex_out ex of
        None \<Rightarrow> \<lparr>hp_status = ''200 OK'', hp_code = 200, hp_type = ex_type ex, hp_body = Inr []\<rparr>
      | Some r \<Rightarrow>
          \<lparr>hp_status = itoa (rs_code r) @ '' '' @ http_status_text (rs_code r), hp_code = rs_code r,
           hp_type = rs_type r, hp_body = Inr (rs_body r)\<rparr>)"

definition wire :: "'w handler \<Rightarrow> 'w doer" where
  "wire h rq w =
     (case h (wire_request rq) (new_exchange, w) of
        (Finished, ex, w) \<Rightarrow> (Inr (wire_reply ex), w)
      | (Panicked, ex, w) \<Rightarrow> (Inl ''EOF'', w))"

text \<open>
  What is relied on in oapi-codegen's runtime: the client writes a query parameter as its name and its
  escaped value, and a path parameter as an escaped segment; the server reads a query parameter that is
  there once, and a path parameter without escapes as it stands.
\<close>

definition client_styles :: "'n ClientEnv \<Rightarrow> bool" where
  "client_styles E \<longleftrightarrow>
     (\<forall>name v. ce_style_str E name v = Inr (name @ ''='' @ url_escape EncQuery v)) \<and>
     (\<forall>name n. ce_style_int E name n = Inr (name @ ''='' @ itoa n)) \<and>
     (\<forall>name v. ce_style_path E name v = Inr (url_escape EncPathSegment v))"

definition server_binds :: "Runtime \<Rightarrow> bool" where
  "server_binds R \<longleftrightarrow>
     (\<forall>name q. map_of q name = None \<longrightarrow> rt_bind_str R name q = Inr None \<and> rt_bind_int R name q = Inr None) \<and>
     (\<forall>name q v. map_of q name = Some [v] \<longrightarrow> rt_bind_str R name q = Inr (Some v)) \<and>
     (\<forall>name q n. map_of q name = Some [itoa n] \<and> int64 (Some n) \<longrightarrow> rt_bind_int R name q = Inr (Some n)) \<and>
     (\<forall>name v. list_all unreserved v \<longrightarrow> rt_bind_path R name v = Inr v)"

text \<open>A server at a URL with a plain path.\<close>

definition site :: "'n ClientEnv \<Rightarrow> string \<Rightarrow> string \<Rightarrow> string \<Rightarrow> bool" where
  "site E scheme authority base \<longleftrightarrow>
     scheme_text scheme \<and> authority_text authority \<and> ce_authority E authority = None \<and> base_text base"

text \<open>A client of the server at the URL with the given scheme, authority and path.\<close>

definition linked ::
  "('s, 'k, 'p) World ClientEnv \<Rightarrow> ('s, 'k, 'p) World ApiClient \<Rightarrow> Chi \<Rightarrow> Runtime \<Rightarrow> ('s, 'k, 'p) Server \<Rightarrow>
   ctx \<Rightarrow> string \<Rightarrow> string \<Rightarrow> string \<Rightarrow> bool" where
  "linked E c C R V cx scheme authority base \<longleftrightarrow>
     client_styles E \<and> server_binds R \<and> chi_contract (ch_find C) \<and>
     site E scheme authority base \<and>
     ac_server c = scheme @ ''://'' @ authority @ base @ ''/'' \<and>
     ac_client c = Some (wire (api_handler C R V cx base)) \<and> ac_editors c = []"

section \<open>Documents\<close>

lemma json_parse_encoded:
  assumes "json_ok v" "json_depth v \<le> 10000"
  shows "json_parse (encoded v) = Some v"
proof -
  have "delim [CHR 0x0A]" by (simp add: delim_def is_ws_def)
  then have "parse_val (2 * length (encoded v) + 1) (encoded v) = Some (v, [CHR 0x0A])"
    unfolding encoded_def using json_size_le [OF assms(1)]
    by (intro parsesD json_print_parses assms(1)) simp_all
  then show ?thesis using assms(2) by (simp add: json_parse_def skip_ws_def is_ws_def del: parse_val.simps)
qed

lemma unmarshal_encoded:
  "json_ok v \<Longrightarrow> json_depth v \<le> 10000 \<Longrightarrow> conv v = Some x \<Longrightarrow> unmarshal E conv (encoded v) = Inr x"
  by (simp add: unmarshal_def json_parse_encoded)

lemma decode_body_print:
  assumes "json_ok v" "json_depth v \<le> 10000" "conv v = Some x" "rq_body rq = json_print v" "rq_body_limit rq = None"
  shows "decode_body R conv rq = Inr x"
  using assms json_size_le [OF assms(1)] parsesD [OF json_print_parses [OF assms(1)], of "2 * length (json_print v) + 1" "[]"]
  by (simp add: decode_body_def body_read_def body_cut_def)

lemma error_codec: "int64 (er_status e) \<Longrightarrow> error_of (error_json e) = Some e"
  by (simp add: error_json_def error_of_def field_vals_append field_vals_opt field_vals_Cons key_simps ptr_val_str
      ptr_val_int str_field_def)

lemma error_depth: "json_depth (error_json e) \<le> 10000"
  by (auto simp: error_json_def opt_member_def int_json_def split: option.split)

lemma decode_all_map: "list_all (\<lambda>x. dec (enc x) = Some x) xs \<Longrightarrow> decode_all dec (map enc xs) = Some xs"
  by (induction xs) auto

lemma vm_list_codec:
  "(case vl_results l of None \<Rightarrow> True | Some vs \<Rightarrow> list_all (\<lambda>v. vm_spec_ok (vm_spec v)) vs) \<Longrightarrow>
   vm_list_of (vm_list_json l) = Some l"
  using decode_all_map [of vm_of vm_json]
  by (cases "vl_results l")
    (auto simp: vm_list_json_def vm_list_of_def field_vals_append field_vals_opt field_vals_Cons key_simps
      ptr_val_str list_all_iff vm_codec)

lemma cluster_list_codec:
  "(case cll_results l of None \<Rightarrow> True | Some cs \<Rightarrow> list_all (\<lambda>c. cluster_spec_ok (cl_spec c)) cs) \<Longrightarrow>
   cluster_list_of (cluster_list_json l) = Some l"
  using decode_all_map [of cluster_of cluster_json]
  by (cases "cll_results l")
    (auto simp: cluster_list_json_def cluster_list_of_def field_vals_append field_vals_opt field_vals_Cons key_simps
      ptr_val_str list_all_iff cluster_codec)


section \<open>The requests\<close>

definition target :: "string \<Rightarrow> string \<Rightarrow> string \<Rightarrow> string \<Rightarrow> query_vals \<Rightarrow> URL" where
  "target scheme authority base path query =
     \<lparr>ur_scheme = scheme, ur_authority = authority, ur_path = base @ path, ur_raw_path = '''',
      ur_raw_query = values_encode query\<rparr>"

text \<open>An ID that is written in a path as it is.\<close>

definition id_text :: "string \<Rightarrow> bool" where
  "id_text i \<longleftrightarrow> list_all unreserved i \<and> i \<notin> {'''', ''.'', ''..''}"

lemma id_text_slash: "id_text i \<Longrightarrow> CHR ''/'' \<notin> set i"
  using unreserved_code by (auto simp: id_text_def list_all_iff)

lemma base_text_routes: "base_text p \<Longrightarrow> base_ok p"
proof -
  assume p: "base_text p"
  have "\<not> is_param e" if "e \<in> set (split_slash p)" for e
  proof
    assume "is_param e"
    then obtain e' where "e = CHR ''{'' # e'" by (cases e) (auto simp: is_param_def)
    then have "CHR ''{'' \<in> set p"
      using that
    proof (induction p arbitrary: e e')
      case (Cons c q)
      then show ?case by (cases "split_slash q") (auto split: if_splits)
    qed simp
    then have "unreserved (CHR ''{'')" using p by (auto simp: base_text_def path_plain_def list_all_iff)
    then show False by (simp add: unreserved_def)
  qed
  then show ?thesis by (simp add: base_ok_def static_pattern_def)
qed

lemma values_encode_Nil [simp]: "values_encode [] = ''''"
  by (simp add: values_encode_def)

lemma base_path:
  assumes "base_text p" "path_plain r"
  shows "path_plain (p @ ''/'' @ r)" and "take 1 (p @ ''/'' @ r) = ''/''"
  using assms by (cases p; auto simp: base_text_def path_plain_def)+

lemma operation_url_text:
  assumes "site E s a p" "path_plain r" "dotless r"
  shows "operation_url E (s @ ''://'' @ a @ p @ ''/'') (''/'' @ r) = Inr (target s a p (''/'' @ r) [])"
proof -
  have p: "base_text p" and sa: "scheme_text s" "authority_text a" "ce_authority E a = None"
    using assms(1) by (auto simp: site_def)
  have "url_parse (ce_authority E) (s @ ''://'' @ a @ p @ ''/'') =
      Inr \<lparr>ur_scheme = s, ur_authority = a, ur_path = p @ ''/'', ur_raw_path = '''', ur_raw_query = ''''\<rparr>"
    using url_parse_text [where ae = "ce_authority E" and a = a, OF sa base_path [OF p, of "''''"], of "''''"]
    by (simp add: url_text_def query_text_def path_plain_def)
  then show ?thesis
    using url_ref_dot [OF p assms(2,3), of "ce_authority E" s a "''''"]
    by (simp add: operation_url_def target_def)
qed

lemma http_request_text:
  assumes "site E s a p" "path_plain r"
  shows "http_request E m (target s a p (''/'' @ r) q) body =
    Inr \<lparr>aq_method = m, aq_url = target s a p (''/'' @ r) q, aq_header = [], aq_body = body\<rparr>"
proof -
  have p: "base_text p" and sa: "scheme_text s" "authority_text a" "ce_authority E a = None"
    using assms(1) by (auto simp: site_def)
  note pl = base_path [OF p assms(2)]
  show ?thesis
    using url_string_text [OF sa(1,2) pl] url_parse_text [where ae = "ce_authority E" and a = a, OF sa pl query_text_encode]
    by (simp add: http_request_def target_def)
qed


text \<open>A parameter that is added to the query.\<close>

lemma add_styled_text:
  assumes "list_all unreserved n" "n \<notin> fst ` set q"
  shows "add_styled (Inr (n @ ''='' @ url_escape EncQuery v)) q = Inr (q @ [(n, [v])])"
proof -
  have "parse_query (values_encode [(n, [v])]) = (None, [(n, [v])])"
    using query_codec [of "[(n, [v])]"] by (simp add: values_ok_def)
  moreover have "values_encode [(n, [v])] = n @ ''='' @ url_escape EncQuery v"
    using escape_unreserved [OF assms(1), of EncQuery] by (simp add: values_encode_def)
  moreover have "values_add n v q = q @ [(n, [v])]"
    using assms(2) by (induction q) (auto simp: values_add_def map_set_def)
  ultimately show ?thesis by (simp add: add_styled_def)
qed

lemma itoa_unreserved: "list_all unreserved (itoa n)"
proof -
  have "list_all unreserved (nat_str k)" for k
    using nat_str_digits [of k]
    by (auto simp: list_all_iff unreserved_def is_digit_def Let_def)
  moreover have "unreserved (CHR ''-'')" by code_simp
  ultimately show ?thesis by (simp add: itoa_def)
qed

text \<open>The parameters of a listing, and of a create.\<close>

definition list_query :: "ListParams option \<Rightarrow> query_vals" where
  "list_query params =
     (case params of
        None \<Rightarrow> []
      | Some ps \<Rightarrow>
          (case lp_max_page_size ps of None \<Rightarrow> [] | Some n \<Rightarrow> [(''max_page_size'', [itoa n])])
          @ (case lp_page_token ps of None \<Rightarrow> [] | Some t \<Rightarrow> [(''page_token'', [t])]))"

definition id_query :: "string option option \<Rightarrow> query_vals" where
  "id_query params = (case params of Some (Some i) \<Rightarrow> [(''id'', [i])] | _ \<Rightarrow> [])"

lemma query_names: "list_all unreserved ''id''" "list_all unreserved ''max_page_size''" "list_all unreserved ''page_token''"
  by code_simp+

lemma target_query: "url_query (target s a p r []) = []"
  by (simp add: target_def url_query_def parse_query_def query_piece_def)

lemma set_query_target [simp]: "set_query q (target s a p r q0) = target s a p r q"
  by (simp add: set_query_def target_def)

lemma list_query_built:
  assumes "client_styles E"
  shows "(case params of
      None \<Rightarrow> Inr (target s a p r [])
    | Some ps \<Rightarrow>
        and_then (add_opt (ce_style_int E ''max_page_size'') (lp_max_page_size ps) (url_query (target s a p r []))) (\<lambda>query.
        and_then (add_opt (ce_style_str E ''page_token'') (lp_page_token ps) query) (\<lambda>query.
          Inr (set_query query (target s a p r []))))) = Inr (target s a p r (list_query params))"
proof -
  have size: "add_opt (ce_style_int E ''max_page_size'') v [] =
      Inr (case v of None \<Rightarrow> [] | Some n \<Rightarrow> [(''max_page_size'', [itoa n])])" for v
    using assms add_styled_text [OF query_names(2), of "[]"] escape_unreserved [OF itoa_unreserved, of EncQuery]
    by (cases v) (simp_all add: add_opt_def client_styles_def, metis)
  have token: "add_opt (ce_style_str E ''page_token'') v q =
      Inr (q @ (case v of None \<Rightarrow> [] | Some t \<Rightarrow> [(''page_token'', [t])]))"
    if "''page_token'' \<notin> fst ` set q" for v q
    using assms add_styled_text [OF query_names(3) that]
    by (cases v) (simp_all add: add_opt_def client_styles_def)
  show ?thesis
  proof (cases params)
    case (Some ps)
    have "''page_token'' \<notin> fst ` set (case v of None \<Rightarrow> [] | Some n \<Rightarrow> [(''max_page_size'', [itoa n])])"
      for v :: "int option" by (cases v) simp_all
    note t = token [OF this]
    show ?thesis
      unfolding Some option.case target_query size and_then_simps t set_query_target list_query_def ..
  qed (simp add: list_query_def)
qed

lemma id_query_built:
  assumes "client_styles E"
  shows "(case params of
      None \<Rightarrow> Inr (target s a p r [])
    | Some params_id \<Rightarrow>
        and_then (add_opt (ce_style_str E ''id'') params_id (url_query (target s a p r []))) (\<lambda>query.
          Inr (set_query query (target s a p r [])))) = Inr (target s a p r (id_query params))"
proof -
  have "add_opt (ce_style_str E ''id'') (Some i) [] = Inr [(''id'', [i])]" for i
    using assms add_styled_text [OF query_names(1), of "[]" i] by (simp add: add_opt_def client_styles_def)
  moreover have "add_opt (ce_style_str E ''id'') None [] = Inr []" by (simp add: add_opt_def)
  ultimately show ?thesis
    by (cases params; cases "the params") (simp_all add: id_query_def target_query)
qed


lemma fixed_paths:
  "path_plain ''vms''" "dotless ''vms''" "path_plain ''clusters''" "dotless ''clusters''"
  "path_plain ''vms/health''" "dotless ''vms/health''" "path_plain ''clusters/health''" "dotless ''clusters/health''"
  "path_plain ''health''" "dotless ''health''"
  by code_simp+

lemma item_paths:
  assumes "id_text i"
  shows "path_plain (''vms/'' @ i)" "dotless (''vms/'' @ i)" "path_plain (''clusters/'' @ i)" "dotless (''clusters/'' @ i)"
proof -
  have "path_plain i" using assms by (simp add: id_text_def path_plain_def list_all_iff)
  moreover have "path_plain ''vms/''" "path_plain ''clusters/''" by code_simp+
  ultimately show "path_plain (''vms/'' @ i)" "path_plain (''clusters/'' @ i)"
    by (simp_all only: path_plain_append)
  note sp = split_on_append [of "CHR ''/''" "''vms''" i] split_on_append [of "CHR ''/''" "''clusters''" i]
    split_on_single [OF id_text_slash [OF assms]]
  then show "dotless (''vms/'' @ i)" "dotless (''clusters/'' @ i)"
    using assms by (auto simp: dotless_def id_text_def)
qed

abbreviation server_text :: "string \<Rightarrow> string \<Rightarrow> string \<Rightarrow> string" where
  "server_text s a p \<equiv> s @ ''://'' @ a @ p @ ''/''"

abbreviation plain_request :: "string \<Rightarrow> URL \<Rightarrow> ApiRequest" where
  "plain_request m u \<equiv> \<lparr>aq_method = m, aq_url = u, aq_header = [], aq_body = []\<rparr>"

abbreviation json_request :: "URL \<Rightarrow> json \<Rightarrow> ApiRequest" where
  "json_request u v \<equiv>
     \<lparr>aq_method = ''POST'', aq_url = u, aq_header = [(''Content-Type'', ''application/json'')], aq_body = json_print v\<rparr>"

text \<open>The request that each constructor builds.\<close>

lemma vm_requests:
  assumes "client_styles E" "site E s a p"
  shows "new_list_vms_request E (server_text s a p) lp =
      Inr (plain_request ''GET'' (target s a p ''/vms'' (list_query lp)))"
    and "new_create_vm_request E (server_text s a p) cp v =
      Inr (json_request (target s a p ''/vms'' (id_query cp)) (vm_json v))"
    and "new_get_vm_health_request E (server_text s a p) =
      Inr (plain_request ''GET'' (target s a p ''/vms/health'' []))"
    and "id_text i \<Longrightarrow> new_get_vm_request E (server_text s a p) i =
      Inr (plain_request ''GET'' (target s a p (''/vms/'' @ i) []))"
    and "id_text i \<Longrightarrow> new_delete_vm_request E (server_text s a p) i =
      Inr (plain_request ''DELETE'' (target s a p (''/vms/'' @ i) []))"
proof -
  note u = operation_url_text [OF assms(2)] and h = http_request_text [OF assms(2)]
  have v: "operation_url E (server_text s a p) ''/vms'' = Inr (target s a p ''/vms'' [])"
    "http_request E m (target s a p ''/vms'' q) body =
       Inr \<lparr>aq_method = m, aq_url = target s a p ''/vms'' q, aq_header = [], aq_body = body\<rparr>" for m q body
    using u [OF fixed_paths(1,2)] h [OF fixed_paths(1), of m q body] by simp_all
  show "new_list_vms_request E (server_text s a p) lp =
      Inr (plain_request ''GET'' (target s a p ''/vms'' (list_query lp)))"
    unfolding new_list_vms_request_def v and_then_simps list_query_built [OF assms(1)] ..
  show "new_create_vm_request E (server_text s a p) cp v =
      Inr (json_request (target s a p ''/vms'' (id_query cp)) (vm_json v))"
    unfolding new_create_vm_request_def new_create_vm_request_with_body_def v and_then_simps
      id_query_built [OF assms(1)] add_header_def by simp
  show "new_get_vm_health_request E (server_text s a p) =
      Inr (plain_request ''GET'' (target s a p ''/vms/health'' []))"
    using u [OF fixed_paths(5,6)] h [OF fixed_paths(5)] by (simp add: new_get_vm_health_request_def)
  assume i: "id_text i"
  then have "list_all unreserved i" by (simp add: id_text_def)
  then have st: "ce_style_path E n i = Inr i" for n
    using assms(1) by (simp add: client_styles_def escape_unreserved)
  show "new_get_vm_request E (server_text s a p) i = Inr (plain_request ''GET'' (target s a p (''/vms/'' @ i) []))"
    "new_delete_vm_request E (server_text s a p) i = Inr (plain_request ''DELETE'' (target s a p (''/vms/'' @ i) []))"
    using u [OF item_paths(1,2) [OF i]] h [OF item_paths(1) [OF i]]
    by (simp_all add: new_get_vm_request_def new_delete_vm_request_def st)
qed

lemma cluster_requests:
  assumes "client_styles E" "site E s a p"
  shows "new_list_clusters_request E (server_text s a p) lp =
      Inr (plain_request ''GET'' (target s a p ''/clusters'' (list_query lp)))"
    and "new_create_cluster_request E (server_text s a p) cp v =
      Inr (json_request (target s a p ''/clusters'' (id_query cp)) (cluster_json v))"
    and "new_get_cluster_health_request E (server_text s a p) =
      Inr (plain_request ''GET'' (target s a p ''/clusters/health'' []))"
    and "new_get_health_request E (server_text s a p) =
      Inr (plain_request ''GET'' (target s a p ''/health'' []))"
    and "id_text i \<Longrightarrow> new_get_cluster_request E (server_text s a p) i =
      Inr (plain_request ''GET'' (target s a p (''/clusters/'' @ i) []))"
    and "id_text i \<Longrightarrow> new_delete_cluster_request E (server_text s a p) i =
      Inr (plain_request ''DELETE'' (target s a p (''/clusters/'' @ i) []))"
proof -
  note u = operation_url_text [OF assms(2)] and h = http_request_text [OF assms(2)]
  have v: "operation_url E (server_text s a p) ''/clusters'' = Inr (target s a p ''/clusters'' [])"
    "http_request E m (target s a p ''/clusters'' q) body =
       Inr \<lparr>aq_method = m, aq_url = target s a p ''/clusters'' q, aq_header = [], aq_body = body\<rparr>" for m q body
    using u [OF fixed_paths(3,4)] h [OF fixed_paths(3), of m q body] by simp_all
  show "new_list_clusters_request E (server_text s a p) lp =
      Inr (plain_request ''GET'' (target s a p ''/clusters'' (list_query lp)))"
    unfolding new_list_clusters_request_def v and_then_simps list_query_built [OF assms(1)] ..
  show "new_create_cluster_request E (server_text s a p) cp v =
      Inr (json_request (target s a p ''/clusters'' (id_query cp)) (cluster_json v))"
    unfolding new_create_cluster_request_def new_create_cluster_request_with_body_def v and_then_simps
      id_query_built [OF assms(1)] add_header_def by simp
  show "new_get_cluster_health_request E (server_text s a p) =
      Inr (plain_request ''GET'' (target s a p ''/clusters/health'' []))"
    "new_get_health_request E (server_text s a p) = Inr (plain_request ''GET'' (target s a p ''/health'' []))"
    using u [OF fixed_paths(7,8)] h [OF fixed_paths(7)] u [OF fixed_paths(9,10)] h [OF fixed_paths(9)]
    by (simp_all add: new_get_cluster_health_request_def new_get_health_request_def)
  assume i: "id_text i"
  then have "list_all unreserved i" by (simp add: id_text_def)
  then have st: "ce_style_path E n i = Inr i" for n
    using assms(1) by (simp add: client_styles_def escape_unreserved)
  show "new_get_cluster_request E (server_text s a p) i =
      Inr (plain_request ''GET'' (target s a p (''/clusters/'' @ i) []))"
    "new_delete_cluster_request E (server_text s a p) i =
      Inr (plain_request ''DELETE'' (target s a p (''/clusters/'' @ i) []))"
    using u [OF item_paths(3,4) [OF i]] h [OF item_paths(3) [OF i]]
    by (simp_all add: new_get_cluster_request_def new_delete_cluster_request_def st)
qed


section \<open>A call over the wire\<close>

definition sendable :: "json \<Rightarrow> bool" where
  "sendable v \<longleftrightarrow> json_ok v \<and> json_depth v \<le> 10000"

lemma ordered_query [simp]:
  "sort_key fst (list_query lp) = list_query lp" "values_ok (list_query lp)"
  "sort_key fst (id_query cp) = id_query cp" "values_ok (id_query cp)"
  by (auto simp: list_query_def id_query_def values_ok_def split: option.split)

lemma wire_target:
  assumes "values_ok q" "sort_key fst q = q"
  shows "wire_request \<lparr>aq_method = m, aq_url = target s a p r q, aq_header = hs, aq_body = body\<rparr> =
    \<lparr>rq_method = m, rq_path = p @ r, rq_query = q, rq_body = body, rq_body_limit = None, rq_chi_id = '''',
     rq_req_id = None\<rparr>"
  using query_codec [OF assms(1)] assms(2) by (simp add: wire_request_def target_def url_query_def)

text \<open>What arrives at the operation that the route table gives.\<close>

lemma wire_call:
  assumes "values_ok q" "sort_key fst q = q" "ch_find C (api_routes p) m (p @ r) = Some (pat, oper, ps)"
    and "call_operation R V cx oper ps
      \<lparr>rq_method = m, rq_path = p @ r, rq_query = q, rq_body = body, rq_body_limit = None, rq_chi_id = '''',
       rq_req_id = None\<rparr> (new_exchange\<lparr>ex_route := pat\<rparr>, w) = (ex, w')"
  shows "wire (api_handler C R V cx p)
      \<lparr>aq_method = m, aq_url = target s a p r q, aq_header = hs, aq_body = body\<rparr> w = (Inr (wire_reply ex), w')"
  using assms(3,4) by (simp add: wire_def wire_target [OF assms(1,2)] api_handler_def)

lemma send_linked:
  assumes "linked E c C R V cx s a p"
  shows "send_request c (Inr req) [] net = wire (api_handler C R V cx p) req net"
  using assms by (simp add: send_request_def linked_def apply_editors_def)

text \<open>The documents that go back.\<close>

definition exchanged :: "string \<Rightarrow> Exchange" where
  "exchanged pat = new_exchange\<lparr>ex_route := pat\<rparr>"

lemma exchanged_fresh [simp]: "fresh (exchanged pat)"
  by (simp add: fresh_def exchanged_def new_exchange_def)

lemma wire_json:
  "wire_reply (json_response code v (exchanged pat)) =
    \<lparr>hp_status = itoa code @ '' '' @ http_status_text code, hp_code = code, hp_type = ''application/json'',
     hp_body = Inr (encoded v)\<rparr>"
  by (simp add: wire_reply_def json_response_def write_typed_fresh)

lemma wire_problem:
  "wire_reply (problem_response code e (exchanged pat)) =
    \<lparr>hp_status = itoa code @ '' '' @ http_status_text code, hp_code = code, hp_type = ''application/problem+json'',
     hp_body = Inr (encoded (error_json e))\<rparr>"
  by (simp add: wire_reply_def problem_response_def write_typed_fresh)

lemma json_types: "str_contains ''application/json'' ''json''" "str_contains ''application/problem+json'' ''json''"
  by code_simp+

lemma agrees_code: "agrees e code \<Longrightarrow> code \<in> {400, 404, 409, 500, 502} \<and> int64 (er_status e)"
  by (auto simp: agrees_def int64_def min_int64_def max_int64_def)

lemma unmarshal_error:
  "json_ok (error_json e) \<Longrightarrow> int64 (er_status e) \<Longrightarrow> unmarshal E error_of (encoded (error_json e)) = Inr e"
  by (rule unmarshal_encoded) (auto simp: error_depth intro!: error_codec)

lemma wire_empty:
  "wire_reply (write_header 204 (exchanged pat)) =
    \<lparr>hp_status = itoa 204 @ '' '' @ http_status_text 204, hp_code = 204, hp_type = '''', hp_body = Inr []\<rparr>"
  by (simp add: wire_reply_def write_header_def exchanged_def new_exchange_def)

lemma unmarshal_vm:
  "sendable (vm_json v) \<Longrightarrow> vm_spec_ok (vm_spec v) \<Longrightarrow> unmarshal E vm_of (encoded (vm_json v)) = Inr v"
  by (rule unmarshal_encoded) (auto simp: sendable_def vm_codec)

lemma unmarshal_cluster:
  "sendable (cluster_json v) \<Longrightarrow> cluster_spec_ok (cl_spec v) \<Longrightarrow>
   unmarshal E cluster_of (encoded (cluster_json v)) = Inr v"
  by (rule unmarshal_encoded) (auto simp: sendable_def cluster_codec)


end
