(* ===== verification/Api_Client_Props.thy ===== *)
theory Api_Client_Props
  imports Wire
begin

text \<open>
  The client library against the server: a request that the client builds reaches the operation it was
  built for, with its parameters and its body, and the client reads from the reply what the handler has
  answered.
\<close>

section \<open>What is seen and what was said\<close>

text \<open>
  What the client sees of a reply, and what the handler has said: the status, the resource and the
  problem.
\<close>

fun first_of :: "'a option list \<Rightarrow> 'a option" where
  "first_of [] = None"
| "first_of (None # xs) = first_of xs"
| "first_of (Some x # xs) = Some x"

definition create_vm_seen :: "CreateVMReply \<Rightarrow> int \<times> VM option \<times> Error option" where
  "create_vm_seen r =
     (reply_status_code r, cvr_json201 r, first_of [cvr_problem400 r, cvr_problem409 r, cvr_default r])"

fun create_vm_said :: "CreateVMResponse \<Rightarrow> int \<times> VM option \<times> Error option" where
  "create_vm_said (CreateVM201 v) = (201, Some v, None)"
| "create_vm_said (CreateVM400 e) = (400, None, Some e)"
| "create_vm_said (CreateVM409 e) = (409, None, Some e)"
| "create_vm_said (CreateVMDefault e code) = (code, None, Some e)"

definition get_vm_seen :: "GetVMReply \<Rightarrow> int \<times> VM option \<times> Error option" where
  "get_vm_seen r = (reply_status_code r, gvr_json200 r, first_of [gvr_problem404 r, gvr_default r])"

fun get_vm_said :: "GetVMResponse \<Rightarrow> int \<times> VM option \<times> Error option" where
  "get_vm_said (GetVM200 v) = (200, Some v, None)"
| "get_vm_said (GetVM404 e) = (404, None, Some e)"
| "get_vm_said (GetVMDefault e code) = (code, None, Some e)"

definition delete_vm_seen :: "DeleteVMReply \<Rightarrow> int \<times> Error option" where
  "delete_vm_seen r = (reply_status_code r, first_of [dvr_problem404 r, dvr_default r])"

fun delete_vm_said :: "DeleteVMResponse \<Rightarrow> int \<times> Error option" where
  "delete_vm_said DeleteVM204 = (204, None)"
| "delete_vm_said (DeleteVM404 e) = (404, Some e)"
| "delete_vm_said (DeleteVMDefault e code) = (code, Some e)"

text \<open>What JSON can carry.\<close>

definition vm_carried :: "VM \<Rightarrow> bool" where
  "vm_carried v \<longleftrightarrow> sendable (vm_json v) \<and> vm_spec_ok (vm_spec v)"

definition error_carried :: "Error \<Rightarrow> bool" where
  "error_carried e \<longleftrightarrow> json_ok (error_json e)"

fun create_vm_carried :: "CreateVMResponse \<Rightarrow> bool" where
  "create_vm_carried (CreateVM201 v) = vm_carried v"
| "create_vm_carried (CreateVM400 e) = error_carried e"
| "create_vm_carried (CreateVM409 e) = error_carried e"
| "create_vm_carried (CreateVMDefault e code) = error_carried e"

fun get_vm_carried :: "GetVMResponse \<Rightarrow> bool" where
  "get_vm_carried (GetVM200 v) = vm_carried v"
| "get_vm_carried (GetVM404 e) = error_carried e"
| "get_vm_carried (GetVMDefault e code) = error_carried e"

fun delete_vm_carried :: "DeleteVMResponse \<Rightarrow> bool" where
  "delete_vm_carried DeleteVM204 = True"
| "delete_vm_carried (DeleteVM404 e) = error_carried e"
| "delete_vm_carried (DeleteVMDefault e code) = error_carried e"

lemmas reply_simps = wire_json wire_problem wire_empty is_json_def json_types unmarshal_error unmarshal_vm
  reply_status_code_def vm_carried_def error_carried_def Let_def

lemma parse_create_vm:
  assumes "create_vm_carried resp" "resp = fst (create_vm V i spec w)"
  shows "\<exists>rep. parse_create_vm_reply E (wire_reply (visit_create_vm resp (exchanged pat))) = Inr rep \<and>
    create_vm_seen rep = create_vm_said resp"
  using assms(1) create_vm_agrees [of V i spec w] unfolding assms(2) [symmetric]
  by (cases resp) (auto simp: reply_simps parse_create_vm_reply_def create_vm_seen_def dest!: agrees_code)

lemma parse_get_vm:
  assumes "get_vm_carried resp" "resp = fst (get_vm V i w)"
  shows "\<exists>rep. parse_get_vm_reply E (wire_reply (visit_get_vm resp (exchanged pat))) = Inr rep \<and>
    get_vm_seen rep = get_vm_said resp"
  using assms(1) get_vm_agrees [of V i w] unfolding assms(2) [symmetric]
  by (cases resp) (auto simp: reply_simps parse_get_vm_reply_def get_vm_seen_def dest!: agrees_code)

lemma parse_delete_vm:
  assumes "delete_vm_carried resp" "resp = fst (delete_vm V cx i w)"
  shows "\<exists>rep. parse_delete_vm_reply E (wire_reply (visit_delete_vm resp (exchanged pat))) = Inr rep \<and>
    delete_vm_seen rep = delete_vm_said resp"
  using assms(1) delete_vm_agrees [of V cx i w] unfolding assms(2) [symmetric]
  by (cases resp) (auto simp: reply_simps parse_delete_vm_reply_def delete_vm_seen_def dest!: agrees_code)


section \<open>The operations on VMs\<close>

text \<open>The ID in the parameters of a create, which may be missing altogether.\<close>

definition params_id :: "string option option \<Rightarrow> string option" where
  "params_id cp = (case cp of None \<Rightarrow> None | Some i \<Rightarrow> i)"

lemma bound_id: "server_binds R \<Longrightarrow> rt_bind_str R ''id'' (id_query cp) = Inr (params_id cp)"
  by (cases cp; cases "the cp") (simp_all add: server_binds_def id_query_def params_id_def)

lemma creates_vm:
  assumes "linked E c C R V cx s a p" "vm_carried v"
    and "create_vm V (params_id cp) (vm_spec v) w = (resp, w')" "create_vm_carried resp"
  shows "\<exists>rep. create_vm_with_reply E c cp v [] w = (Inr rep, w') \<and> create_vm_seen rep = create_vm_said resp"
proof -
  have l: "client_styles E" "site E s a p" "server_binds R" "chi_contract (ch_find C)" "base_text p"
    "ac_server c = server_text s a p" using assms(1) by (auto simp: linked_def site_def)
  let ?rq = "\<lparr>rq_method = ''POST'', rq_path = p @ ''/vms'', rq_query = id_query cp,
      rq_body = json_print (vm_json v), rq_body_limit = None, rq_chi_id = '''', rq_req_id = None\<rparr>"
  have "decode_body R vm_of ?rq = Inr v"
    using assms(2) by (intro decode_body_print) (auto simp: vm_carried_def sendable_def vm_codec)
  then have "call_operation R V cx CreateVM [] ?rq (exchanged (p @ ''/vms''), w) =
      (visit_create_vm resp (exchanged (p @ ''/vms'')), w')"
    using assms(3) by (simp add: call_operation_def siw_create_vm_def sh_create_vm_def bound_id [OF l(3)])
  note call = wire_call [OF ordered_query(4,3) collection_routes(1) [OF l(4) base_text_routes [OF l(5)]]
      this [unfolded exchanged_def]]
  obtain rep where "parse_create_vm_reply E (wire_reply (visit_create_vm resp (exchanged (p @ ''/vms'')))) = Inr rep"
    "create_vm_seen rep = create_vm_said resp"
    using parse_create_vm [OF assms(4), of V "params_id cp" "vm_spec v" w] assms(3) by auto
  then show ?thesis
    unfolding create_vm_with_reply_def api_create_vm_def l(6) vm_requests(2) [OF l(1,2)]
      send_linked [OF assms(1)] call with_reply_def prod.case and_then_simps exchanged_def by blast
qed

lemma reaches_vm:
  assumes "linked E c C R V cx s a p" "id_text i"
  shows "(i \<noteq> ''health'' \<and> get_vm_carried (fst (get_vm V i w)) \<longrightarrow>
      (\<exists>rep. get_vm_with_reply E c i [] w = (Inr rep, snd (get_vm V i w)) \<and>
         get_vm_seen rep = get_vm_said (fst (get_vm V i w)))) \<and>
    (delete_vm_carried (fst (delete_vm V cx i w)) \<longrightarrow>
      (\<exists>rep. delete_vm_with_reply E c i [] w = (Inr rep, snd (delete_vm V cx i w)) \<and>
         delete_vm_seen rep = delete_vm_said (fst (delete_vm V cx i w))))"
proof (intro conjI impI)
  have l: "client_styles E" "site E s a p" "server_binds R" "chi_contract (ch_find C)" "base_text p"
    "ac_server c = server_text s a p" using assms(1) by (auto simp: linked_def site_def)
  have i: "i \<noteq> ''''" "CHR ''/'' \<notin> set i" "list_all unreserved i"
    using assms(2) id_text_slash [OF assms(2)] by (auto simp: id_text_def)
  have b: "rt_bind_path R n i = Inr i" for n using l(3) i(3) by (simp add: server_binds_def)
  note base = base_text_routes [OF l(5)]
  let ?rq = "\<lambda>m. \<lparr>rq_method = m, rq_path = p @ ''/vms/'' @ i, rq_query = [], rq_body = [], rq_body_limit = None,
      rq_chi_id = '''', rq_req_id = None\<rparr>"
  have q: "values_ok []" "sort_key fst ([] :: query_vals) = []" by (simp_all add: values_ok_def)
  let ?pat = "p @ ''/vms/{vmId}''"
  show "\<exists>rep. get_vm_with_reply E c i [] w = (Inr rep, snd (get_vm V i w)) \<and>
      get_vm_seen rep = get_vm_said (fst (get_vm V i w))"
    if g: "i \<noteq> ''health'' \<and> get_vm_carried (fst (get_vm V i w))"
  proof -
    obtain resp w' where r: "get_vm V i w = (resp, w')" by (metis surj_pair)
    have "call_operation R V cx GetVM [(''vmId'', i)] (?rq ''GET'') (exchanged ?pat, w) =
        (visit_get_vm resp (exchanged ?pat), w')"
      unfolding call_operation_def operation.case siw_get_vm_def sh_get_vm_def url_param_def map_of.simps
        fst_conv snd_conv fun_upd_same option.case b sum.case prod.case r ..
    note call = wire_call [OF q get_routes(1) [OF l(4) base i(1,2) conjunct1 [OF g]] this [unfolded exchanged_def]]
    obtain rep where "parse_get_vm_reply E (wire_reply (visit_get_vm resp (exchanged ?pat))) = Inr rep"
      "get_vm_seen rep = get_vm_said resp"
      using parse_get_vm [of resp V i w E ?pat] g r by (metis fst_conv)
    then show ?thesis
      unfolding get_vm_with_reply_def api_get_vm_def l(6) vm_requests(4) [OF l(1,2) assms(2)]
        send_linked [OF assms(1)] call with_reply_def prod.case and_then_simps exchanged_def r fst_conv snd_conv
      by blast
  qed
  show "\<exists>rep. delete_vm_with_reply E c i [] w = (Inr rep, snd (delete_vm V cx i w)) \<and>
      delete_vm_seen rep = delete_vm_said (fst (delete_vm V cx i w))"
    if g: "delete_vm_carried (fst (delete_vm V cx i w))"
  proof -
    obtain resp w' where r: "delete_vm V cx i w = (resp, w')" by (metis surj_pair)
    have "call_operation R V cx DeleteVM [(''vmId'', i)] (?rq ''DELETE'') (exchanged ?pat, w) =
        (visit_delete_vm resp (exchanged ?pat), w')"
      unfolding call_operation_def operation.case siw_delete_vm_def sh_delete_vm_def url_param_def map_of.simps
        fst_conv snd_conv fun_upd_same option.case b sum.case prod.case r ..
    note call = wire_call [OF q delete_routes(1) [OF l(4) base i(1,2)] this [unfolded exchanged_def]]
    obtain rep where "parse_delete_vm_reply E (wire_reply (visit_delete_vm resp (exchanged ?pat))) = Inr rep"
      "delete_vm_seen rep = delete_vm_said resp"
      using parse_delete_vm [of resp V cx i w E ?pat] g r by (metis fst_conv)
    then show ?thesis
      unfolding delete_vm_with_reply_def api_delete_vm_def l(6) vm_requests(5) [OF l(1,2) assms(2)]
        send_linked [OF assms(1)] call with_reply_def prod.case and_then_simps exchanged_def r fst_conv snd_conv
      by blast
  qed
qed

text \<open>Listings, whose parameters may be missing altogether.\<close>

definition list_params :: "ListParams option \<Rightarrow> ListParams" where
  "list_params lp = (case lp of None \<Rightarrow> \<lparr>lp_max_page_size = None, lp_page_token = None\<rparr> | Some ps \<Rightarrow> ps)"

lemma bound_list:
  assumes "server_binds R" "int64 (lp_max_page_size (list_params lp))"
  shows "rt_bind_int R ''max_page_size'' (list_query lp) = Inr (lp_max_page_size (list_params lp))"
    and "rt_bind_str R ''page_token'' (list_query lp) = Inr (lp_page_token (list_params lp))"
  using assms
  by (cases lp; cases "lp_max_page_size (the lp)"; cases "lp_page_token (the lp)";
      simp add: server_binds_def list_query_def list_params_def)+

definition list_vms_seen :: "ListVMsReply \<Rightarrow> int \<times> VMList option \<times> Error option" where
  "list_vms_seen r = (reply_status_code r, lvr_json200 r, lvr_default r)"

fun list_vms_said :: "ListVMsResponse \<Rightarrow> int \<times> VMList option \<times> Error option" where
  "list_vms_said (ListVMs200 l) = (200, Some l, None)"
| "list_vms_said (ListVMsDefault e code) = (code, None, Some e)"

fun list_vms_carried :: "ListVMsResponse \<Rightarrow> bool" where
  "list_vms_carried (ListVMs200 l) \<longleftrightarrow>
     sendable (vm_list_json l) \<and>
     (case vl_results l of None \<Rightarrow> True | Some vs \<Rightarrow> list_all (\<lambda>v. vm_spec_ok (vm_spec v)) vs)"
| "list_vms_carried (ListVMsDefault e code) = error_carried e"

lemma unmarshal_vm_list:
  "sendable (vm_list_json l) \<Longrightarrow>
   (case vl_results l of None \<Rightarrow> True | Some vs \<Rightarrow> list_all (\<lambda>v. vm_spec_ok (vm_spec v)) vs) \<Longrightarrow>
   unmarshal E vm_list_of (encoded (vm_list_json l)) = Inr l"
  by (rule unmarshal_encoded) (auto simp: sendable_def vm_list_codec)

lemma parse_list_vms:
  assumes "list_vms_carried resp" "resp = fst (list_vms V ps w)"
  shows "\<exists>rep. parse_list_vms_reply E (wire_reply (visit_list_vms resp (exchanged pat))) = Inr rep \<and>
    list_vms_seen rep = list_vms_said resp"
  using assms(1) list_vms_agrees [of V ps w] unfolding assms(2) [symmetric]
  by (cases resp) (auto simp: reply_simps unmarshal_vm_list parse_list_vms_reply_def list_vms_seen_def dest!: agrees_code)

lemma lists_vms:
  assumes "linked E c C R V cx s a p" "int64 (lp_max_page_size (list_params lp))"
    and "list_vms V (list_params lp) w = (resp, w')" "list_vms_carried resp"
  shows "\<exists>rep. list_vms_with_reply E c lp [] w = (Inr rep, w') \<and> list_vms_seen rep = list_vms_said resp"
proof -
  have l: "client_styles E" "site E s a p" "server_binds R" "chi_contract (ch_find C)" "base_text p"
    "ac_server c = server_text s a p" using assms(1) by (auto simp: linked_def site_def)
  let ?rq = "\<lparr>rq_method = ''GET'', rq_path = p @ ''/vms'', rq_query = list_query lp,
      rq_body = [], rq_body_limit = None, rq_chi_id = '''', rq_req_id = None\<rparr>"
  have "call_operation R V cx ListVMs [] ?rq (exchanged (p @ ''/vms''), w) =
      (visit_list_vms resp (exchanged (p @ ''/vms'')), w')"
    using assms(3)
    by (cases "list_params lp") (simp add: call_operation_def siw_list_vms_def sh_list_vms_def bound_list [OF l(3) assms(2)])
  note call = wire_call [OF ordered_query(2,1) collection_routes(3) [OF l(4) base_text_routes [OF l(5)]]
      this [unfolded exchanged_def]]
  obtain rep where "parse_list_vms_reply E (wire_reply (visit_list_vms resp (exchanged (p @ ''/vms'')))) = Inr rep"
    "list_vms_seen rep = list_vms_said resp"
    using parse_list_vms [OF assms(4), of V "list_params lp" w] assms(3) by auto
  then show ?thesis
    unfolding list_vms_with_reply_def api_list_vms_def l(6) vm_requests(1) [OF l(1,2)]
      send_linked [OF assms(1)] call with_reply_def prod.case and_then_simps exchanged_def by blast
qed

section \<open>The operations on clusters\<close>

definition create_cluster_seen :: "CreateClusterReply \<Rightarrow> int \<times> Cluster option \<times> Error option" where
  "create_cluster_seen r =
     (reply_status_code r, ccr_json201 r, first_of [ccr_problem400 r, ccr_problem409 r, ccr_default r])"

fun create_cluster_said :: "CreateClusterResponse \<Rightarrow> int \<times> Cluster option \<times> Error option" where
  "create_cluster_said (CreateCluster201 v) = (201, Some v, None)"
| "create_cluster_said (CreateCluster400 e) = (400, None, Some e)"
| "create_cluster_said (CreateCluster409 e) = (409, None, Some e)"
| "create_cluster_said (CreateClusterDefault e code) = (code, None, Some e)"

definition get_cluster_seen :: "GetClusterReply \<Rightarrow> int \<times> Cluster option \<times> Error option" where
  "get_cluster_seen r = (reply_status_code r, gcr_json200 r, first_of [gcr_problem404 r, gcr_default r])"

fun get_cluster_said :: "GetClusterResponse \<Rightarrow> int \<times> Cluster option \<times> Error option" where
  "get_cluster_said (GetCluster200 v) = (200, Some v, None)"
| "get_cluster_said (GetCluster404 e) = (404, None, Some e)"
| "get_cluster_said (GetClusterDefault e code) = (code, None, Some e)"

definition delete_cluster_seen :: "DeleteClusterReply \<Rightarrow> int \<times> Error option" where
  "delete_cluster_seen r = (reply_status_code r, first_of [dcr_problem404 r, dcr_default r])"

fun delete_cluster_said :: "DeleteClusterResponse \<Rightarrow> int \<times> Error option" where
  "delete_cluster_said DeleteCluster204 = (204, None)"
| "delete_cluster_said (DeleteCluster404 e) = (404, Some e)"
| "delete_cluster_said (DeleteClusterDefault e code) = (code, Some e)"

definition cluster_carried :: "Cluster \<Rightarrow> bool" where
  "cluster_carried v \<longleftrightarrow> sendable (cluster_json v) \<and> cluster_spec_ok (cl_spec v)"

fun create_cluster_carried :: "CreateClusterResponse \<Rightarrow> bool" where
  "create_cluster_carried (CreateCluster201 v) = cluster_carried v"
| "create_cluster_carried (CreateCluster400 e) = error_carried e"
| "create_cluster_carried (CreateCluster409 e) = error_carried e"
| "create_cluster_carried (CreateClusterDefault e code) = error_carried e"

fun get_cluster_carried :: "GetClusterResponse \<Rightarrow> bool" where
  "get_cluster_carried (GetCluster200 v) = cluster_carried v"
| "get_cluster_carried (GetCluster404 e) = error_carried e"
| "get_cluster_carried (GetClusterDefault e code) = error_carried e"

fun delete_cluster_carried :: "DeleteClusterResponse \<Rightarrow> bool" where
  "delete_cluster_carried DeleteCluster204 = True"
| "delete_cluster_carried (DeleteCluster404 e) = error_carried e"
| "delete_cluster_carried (DeleteClusterDefault e code) = error_carried e"

lemmas cluster_simps = reply_simps unmarshal_cluster cluster_carried_def

lemma parse_create_cluster:
  assumes "create_cluster_carried resp" "resp = fst (create_cluster V i spec w)"
  shows "\<exists>rep. parse_create_cluster_reply E (wire_reply (visit_create_cluster resp (exchanged pat))) = Inr rep \<and>
    create_cluster_seen rep = create_cluster_said resp"
  using assms(1) create_cluster_agrees [of V i spec w] unfolding assms(2) [symmetric]
  by (cases resp) (auto simp: cluster_simps parse_create_cluster_reply_def create_cluster_seen_def dest!: agrees_code)

lemma parse_get_cluster:
  assumes "get_cluster_carried resp" "resp = fst (get_cluster V i w)"
  shows "\<exists>rep. parse_get_cluster_reply E (wire_reply (visit_get_cluster resp (exchanged pat))) = Inr rep \<and>
    get_cluster_seen rep = get_cluster_said resp"
  using assms(1) get_cluster_agrees [of V i w] unfolding assms(2) [symmetric]
  by (cases resp) (auto simp: cluster_simps parse_get_cluster_reply_def get_cluster_seen_def dest!: agrees_code)

lemma parse_delete_cluster:
  assumes "delete_cluster_carried resp" "resp = fst (delete_cluster V cx i w)"
  shows "\<exists>rep. parse_delete_cluster_reply E (wire_reply (visit_delete_cluster resp (exchanged pat))) = Inr rep \<and>
    delete_cluster_seen rep = delete_cluster_said resp"
  using assms(1) delete_cluster_agrees [of V cx i w] unfolding assms(2) [symmetric]
  by (cases resp) (auto simp: cluster_simps parse_delete_cluster_reply_def delete_cluster_seen_def dest!: agrees_code)


lemma creates_cluster:
  assumes "linked E c C R V cx s a p" "cluster_carried v"
    and "create_cluster V (params_id cp) (cl_spec v) w = (resp, w')" "create_cluster_carried resp"
  shows "\<exists>rep. create_cluster_with_reply E c cp v [] w = (Inr rep, w') \<and> create_cluster_seen rep = create_cluster_said resp"
proof -
  have l: "client_styles E" "site E s a p" "server_binds R" "chi_contract (ch_find C)" "base_text p"
    "ac_server c = server_text s a p" using assms(1) by (auto simp: linked_def site_def)
  let ?rq = "\<lparr>rq_method = ''POST'', rq_path = p @ ''/clusters'', rq_query = id_query cp,
      rq_body = json_print (cluster_json v), rq_body_limit = None, rq_chi_id = '''', rq_req_id = None\<rparr>"
  have "decode_body R cluster_of ?rq = Inr v"
    using assms(2) by (intro decode_body_print) (auto simp: cluster_carried_def sendable_def cluster_codec)
  then have "call_operation R V cx CreateCluster [] ?rq (exchanged (p @ ''/clusters''), w) =
      (visit_create_cluster resp (exchanged (p @ ''/clusters'')), w')"
    using assms(3) by (simp add: call_operation_def siw_create_cluster_def sh_create_cluster_def bound_id [OF l(3)])
  note call = wire_call [OF ordered_query(4,3) collection_routes(2) [OF l(4) base_text_routes [OF l(5)]]
      this [unfolded exchanged_def]]
  obtain rep where "parse_create_cluster_reply E (wire_reply (visit_create_cluster resp (exchanged (p @ ''/clusters'')))) = Inr rep"
    "create_cluster_seen rep = create_cluster_said resp"
    using parse_create_cluster [OF assms(4), of V "params_id cp" "cl_spec v" w] assms(3) by auto
  then show ?thesis
    unfolding create_cluster_with_reply_def api_create_cluster_def l(6) cluster_requests(2) [OF l(1,2)]
      send_linked [OF assms(1)] call with_reply_def prod.case and_then_simps exchanged_def by blast
qed

lemma reaches_cluster:
  assumes "linked E c C R V cx s a p" "id_text i"
  shows "(i \<noteq> ''health'' \<and> get_cluster_carried (fst (get_cluster V i w)) \<longrightarrow>
      (\<exists>rep. get_cluster_with_reply E c i [] w = (Inr rep, snd (get_cluster V i w)) \<and>
         get_cluster_seen rep = get_cluster_said (fst (get_cluster V i w)))) \<and>
    (delete_cluster_carried (fst (delete_cluster V cx i w)) \<longrightarrow>
      (\<exists>rep. delete_cluster_with_reply E c i [] w = (Inr rep, snd (delete_cluster V cx i w)) \<and>
         delete_cluster_seen rep = delete_cluster_said (fst (delete_cluster V cx i w))))"
proof (intro conjI impI)
  have l: "client_styles E" "site E s a p" "server_binds R" "chi_contract (ch_find C)" "base_text p"
    "ac_server c = server_text s a p" using assms(1) by (auto simp: linked_def site_def)
  have i: "i \<noteq> ''''" "CHR ''/'' \<notin> set i" "list_all unreserved i"
    using assms(2) id_text_slash [OF assms(2)] by (auto simp: id_text_def)
  have b: "rt_bind_path R n i = Inr i" for n using l(3) i(3) by (simp add: server_binds_def)
  note base = base_text_routes [OF l(5)]
  let ?rq = "\<lambda>m. \<lparr>rq_method = m, rq_path = p @ ''/clusters/'' @ i, rq_query = [], rq_body = [], rq_body_limit = None,
      rq_chi_id = '''', rq_req_id = None\<rparr>"
  have q: "values_ok []" "sort_key fst ([] :: query_vals) = []" by (simp_all add: values_ok_def)
  let ?pat = "p @ ''/clusters/{clusterId}''"
  show "\<exists>rep. get_cluster_with_reply E c i [] w = (Inr rep, snd (get_cluster V i w)) \<and>
      get_cluster_seen rep = get_cluster_said (fst (get_cluster V i w))"
    if g: "i \<noteq> ''health'' \<and> get_cluster_carried (fst (get_cluster V i w))"
  proof -
    obtain resp w' where r: "get_cluster V i w = (resp, w')" by (metis surj_pair)
    have "call_operation R V cx GetCluster [(''clusterId'', i)] (?rq ''GET'') (exchanged ?pat, w) =
        (visit_get_cluster resp (exchanged ?pat), w')"
      unfolding call_operation_def operation.case siw_get_cluster_def sh_get_cluster_def url_param_def map_of.simps
        fst_conv snd_conv fun_upd_same option.case b sum.case prod.case r ..
    note call = wire_call [OF q get_routes(2) [OF l(4) base i(1,2) conjunct1 [OF g]] this [unfolded exchanged_def]]
    obtain rep where "parse_get_cluster_reply E (wire_reply (visit_get_cluster resp (exchanged ?pat))) = Inr rep"
      "get_cluster_seen rep = get_cluster_said resp"
      using parse_get_cluster [of resp V i w E ?pat] g r by (metis fst_conv)
    then show ?thesis
      unfolding get_cluster_with_reply_def api_get_cluster_def l(6) cluster_requests(5) [OF l(1,2) assms(2)]
        send_linked [OF assms(1)] call with_reply_def prod.case and_then_simps exchanged_def r fst_conv snd_conv
      by blast
  qed
  show "\<exists>rep. delete_cluster_with_reply E c i [] w = (Inr rep, snd (delete_cluster V cx i w)) \<and>
      delete_cluster_seen rep = delete_cluster_said (fst (delete_cluster V cx i w))"
    if g: "delete_cluster_carried (fst (delete_cluster V cx i w))"
  proof -
    obtain resp w' where r: "delete_cluster V cx i w = (resp, w')" by (metis surj_pair)
    have "call_operation R V cx DeleteCluster [(''clusterId'', i)] (?rq ''DELETE'') (exchanged ?pat, w) =
        (visit_delete_cluster resp (exchanged ?pat), w')"
      unfolding call_operation_def operation.case siw_delete_cluster_def sh_delete_cluster_def url_param_def map_of.simps
        fst_conv snd_conv fun_upd_same option.case b sum.case prod.case r ..
    note call = wire_call [OF q delete_routes(2) [OF l(4) base i(1,2)] this [unfolded exchanged_def]]
    obtain rep where "parse_delete_cluster_reply E (wire_reply (visit_delete_cluster resp (exchanged ?pat))) = Inr rep"
      "delete_cluster_seen rep = delete_cluster_said resp"
      using parse_delete_cluster [of resp V cx i w E ?pat] g r by (metis fst_conv)
    then show ?thesis
      unfolding delete_cluster_with_reply_def api_delete_cluster_def l(6) cluster_requests(6) [OF l(1,2) assms(2)]
        send_linked [OF assms(1)] call with_reply_def prod.case and_then_simps exchanged_def r fst_conv snd_conv
      by blast
  qed
qed

definition list_clusters_seen :: "ListClustersReply \<Rightarrow> int \<times> ClusterList option \<times> Error option" where
  "list_clusters_seen r = (reply_status_code r, lcr_json200 r, lcr_default r)"

fun list_clusters_said :: "ListClustersResponse \<Rightarrow> int \<times> ClusterList option \<times> Error option" where
  "list_clusters_said (ListClusters200 l) = (200, Some l, None)"
| "list_clusters_said (ListClustersDefault e code) = (code, None, Some e)"

fun list_clusters_carried :: "ListClustersResponse \<Rightarrow> bool" where
  "list_clusters_carried (ListClusters200 l) \<longleftrightarrow>
     sendable (cluster_list_json l) \<and>
     (case cll_results l of None \<Rightarrow> True | Some vs \<Rightarrow> list_all (\<lambda>v. cluster_spec_ok (cl_spec v)) vs)"
| "list_clusters_carried (ListClustersDefault e code) = error_carried e"

lemma unmarshal_cluster_list:
  "sendable (cluster_list_json l) \<Longrightarrow>
   (case cll_results l of None \<Rightarrow> True | Some vs \<Rightarrow> list_all (\<lambda>v. cluster_spec_ok (cl_spec v)) vs) \<Longrightarrow>
   unmarshal E cluster_list_of (encoded (cluster_list_json l)) = Inr l"
  by (rule unmarshal_encoded) (auto simp: sendable_def cluster_list_codec)

lemma parse_list_clusters:
  assumes "list_clusters_carried resp" "resp = fst (list_clusters V ps w)"
  shows "\<exists>rep. parse_list_clusters_reply E (wire_reply (visit_list_clusters resp (exchanged pat))) = Inr rep \<and>
    list_clusters_seen rep = list_clusters_said resp"
  using assms(1) list_clusters_agrees [of V ps w] unfolding assms(2) [symmetric]
  by (cases resp) (auto simp: cluster_simps unmarshal_cluster_list parse_list_clusters_reply_def list_clusters_seen_def dest!: agrees_code)

lemma lists_clusters:
  assumes "linked E c C R V cx s a p" "int64 (lp_max_page_size (list_params lp))"
    and "list_clusters V (list_params lp) w = (resp, w')" "list_clusters_carried resp"
  shows "\<exists>rep. list_clusters_with_reply E c lp [] w = (Inr rep, w') \<and> list_clusters_seen rep = list_clusters_said resp"
proof -
  have l: "client_styles E" "site E s a p" "server_binds R" "chi_contract (ch_find C)" "base_text p"
    "ac_server c = server_text s a p" using assms(1) by (auto simp: linked_def site_def)
  let ?rq = "\<lparr>rq_method = ''GET'', rq_path = p @ ''/clusters'', rq_query = list_query lp,
      rq_body = [], rq_body_limit = None, rq_chi_id = '''', rq_req_id = None\<rparr>"
  have "call_operation R V cx ListClusters [] ?rq (exchanged (p @ ''/clusters''), w) =
      (visit_list_clusters resp (exchanged (p @ ''/clusters'')), w')"
    using assms(3)
    by (cases "list_params lp") (simp add: call_operation_def siw_list_clusters_def sh_list_clusters_def bound_list [OF l(3) assms(2)])
  note call = wire_call [OF ordered_query(2,1) collection_routes(4) [OF l(4) base_text_routes [OF l(5)]]
      this [unfolded exchanged_def]]
  obtain rep where "parse_list_clusters_reply E (wire_reply (visit_list_clusters resp (exchanged (p @ ''/clusters'')))) = Inr rep"
    "list_clusters_seen rep = list_clusters_said resp"
    using parse_list_clusters [OF assms(4), of V "list_params lp" w] assms(3) by auto
  then show ?thesis
    unfolding list_clusters_with_reply_def api_list_clusters_def l(6) cluster_requests(1) [OF l(1,2)]
      send_linked [OF assms(1)] call with_reply_def prod.case and_then_simps exchanged_def by blast
qed

section \<open>The client and the server together\<close>


text \<open>A client of the sample server, over runtimes that do what is relied on.\<close>

definition demo_binder :: Runtime where
  "demo_binder =
     demo_runtime\<lparr>
       rt_bind_int := (\<lambda>name q. Inr (case map_of q name of Some [v] \<Rightarrow> atoi v | _ \<Rightarrow> None)),
       rt_bind_str := (\<lambda>name q. Inr (case map_of q name of Some [v] \<Rightarrow> Some v | _ \<Rightarrow> None)),
       rt_bind_path := (\<lambda>name v. url_unescape EncPathSegment v)\<rparr>"

definition demo_chi :: Chi where
  "demo_chi = \<lparr>ch_find = linear_find, ch_refuse = (\<lambda>rq ex. write_header 404 ex)\<rparr>"

definition demo_client_env :: "'n ClientEnv" where
  "demo_client_env =
     \<lparr>ce_authority = (\<lambda>_. None), ce_style_int = (\<lambda>name n. Inr (name @ ''='' @ itoa n)),
      ce_style_str = (\<lambda>name v. Inr (name @ ''='' @ url_escape EncQuery v)),
      ce_style_path = (\<lambda>name v. Inr (url_escape EncPathSegment v)), ce_json_err = (\<lambda>_. ''json error''),
      ce_float32 = (\<lambda>_. True), ce_default = (\<lambda>rq n. (Inl ''refused'', n))\<rparr>"

definition demo_client :: "(kvdb, int Client, conn NATSPublisher) World ApiClient" where
  "demo_client =
     \<lparr>ac_server = ''http://localhost:8080/api/v1alpha1/'',
      ac_client = Some (wire (api_handler demo_chi demo_binder demo_server demo_ctx ''/api/v1alpha1'')),
      ac_editors = []\<rparr>"

lemma demo_binds: "server_binds demo_binder"
proof -
  have "url_unescape EncPathSegment v = Inr v" if "list_all unreserved v" for v
    using unescape_escape [of EncPathSegment EncPathSegment v] escape_unreserved [OF that] by simp
  then show ?thesis
    by (auto simp: server_binds_def demo_binder_def int64_def atoi_itoa)
qed

lemma demo_linked:
  "linked demo_client_env demo_client demo_chi demo_binder demo_server demo_ctx ''http'' ''localhost:8080'' ''/api/v1alpha1''"
proof -
  have "scheme_text ''http''" "authority_text ''localhost:8080''" "base_text ''/api/v1alpha1''" by code_simp+
  then show ?thesis
    using demo_binds linear.chi_contract_axioms
    by (simp add: linked_def site_def client_styles_def demo_client_env_def demo_client_def demo_chi_def)
qed

text \<open>The client that the constructor makes for the address is this one.\<close>

lemma demo_client_new:
  "new_api_client demo_client_env ''http://localhost:8080/api/v1alpha1''
     [with_http_client (wire (api_handler demo_chi demo_binder demo_server demo_ctx ''/api/v1alpha1''))] =
   Inr demo_client"
  by (simp add: new_api_client_def with_http_client_def demo_client_def has_suffix_code)


text \<open>
  C12: Reading and deleting over the wire. With an ID of unreserved characters other than "", "." and
  "..", the client's calls on a VM or a cluster reach the operations of the server with that ID, and the
  client sees the answer of the handler and leaves the server in its state; reading does so for every
  such ID except "health".
\<close>

theorem client_reaches:
  assumes "linked E c C R V cx s a p" "id_text i"
  shows "(i \<noteq> ''health'' \<and> get_vm_carried (fst (get_vm V i w)) \<longrightarrow>
      (\<exists>rep. get_vm_with_reply E c i [] w = (Inr rep, snd (get_vm V i w)) \<and>
         get_vm_seen rep = get_vm_said (fst (get_vm V i w)))) \<and>
    (delete_vm_carried (fst (delete_vm V cx i w)) \<longrightarrow>
      (\<exists>rep. delete_vm_with_reply E c i [] w = (Inr rep, snd (delete_vm V cx i w)) \<and>
         delete_vm_seen rep = delete_vm_said (fst (delete_vm V cx i w)))) \<and>
    (i \<noteq> ''health'' \<and> get_cluster_carried (fst (get_cluster V i w)) \<longrightarrow>
      (\<exists>rep. get_cluster_with_reply E c i [] w = (Inr rep, snd (get_cluster V i w)) \<and>
         get_cluster_seen rep = get_cluster_said (fst (get_cluster V i w)))) \<and>
    (delete_cluster_carried (fst (delete_cluster V cx i w)) \<longrightarrow>
      (\<exists>rep. delete_cluster_with_reply E c i [] w = (Inr rep, snd (delete_cluster V cx i w)) \<and>
         delete_cluster_seen rep = delete_cluster_said (fst (delete_cluster V cx i w))))"
  using reaches_vm [OF assms] reaches_cluster [OF assms] by blast

theorem client_reaches_witness:
  "\<exists>rep. get_vm_with_reply demo_client_env demo_client ''vm-1'' [] demo_world = (Inr rep, demo_world) \<and>
     reply_status_code rep = 404"
proof -
  have g: "get_vm demo_server ''vm-1'' demo_world =
      (GetVM404 (problem_error 404 (''VM '' @ quoted ''vm-1'' @ '' not found'')), demo_world)"
    using state_store.get_ready [OF live_kv.is_live_state_store kv_empty_live kv_empty_ready, of "''vm-1''"]
    by (simp add: get_vm_def)
  have c: "error_carried (problem_error 404 (''VM '' @ quoted ''vm-1'' @ '' not found''))" by code_simp
  have "id_text ''vm-1''" by code_simp
  from client_reaches [OF demo_linked this, THEN conjunct1, THEN mp, of demo_world] g c
  show ?thesis by (auto simp: get_vm_seen_def)
qed



end
