(* ===== verification/Process.thy ===== *)
theory Process
  imports System Startup
begin

text \<open>
  The process between \<open>Start\<close> and its exit as concurrent goroutines: requests, the monitor, the
  registrars, and the main goroutine that waits for the signal and shuts down (\<open>Start\<close> and
  \<open>shutdown\<close> of cmd/dcm-kcli-provider/server.go, \<open>Run\<close> of internal/monitor/monitor.go and \<open>run\<close> of
  internal/registration/registrar.go). Every interleaving of their steps is a run of \<open>proc_step\<close>.

  A request and a poll act on the world when they end, as one step. The deadline of the shutdown can
  pass at any time while the main goroutine waits under it. \<open>http.Server.Shutdown\<close> is taken as
  documented: it returns without an error when no request is left and none can arrive any more, or
  with the error of its context.
\<close>

section \<open>The state\<close>

text \<open>
  Where the main goroutine is: before the signal, in \<open>httpServer.Shutdown\<close>, in the wait for the
  monitor, before or inside \<open>Stop\<close> of the i-th registrar, before \<open>Deregister\<close> of the i-th registrar,
  before closing the publisher, before closing the store, and behind that.
\<close>

datatype phase =
    Serving
  | Draining
  | Joining
  | Stopping nat
  | Awaiting nat
  | Leaving nat
  | ClosingPublisher
  | ClosingStore
  | Closed

datatype monitor_thread = Polling | Ticking | Over

record ('s, 'k, 'p, 'c) Proc =
  pr_phase :: phase
  pr_inflight :: nat
  pr_drained :: bool
  pr_expired :: bool
  pr_monitor :: monitor_thread
  pr_mon_cancelled :: bool
  pr_lives :: "'c life list"
  pr_sys :: "('s, 'k, 'p) sys"

text \<open>After the launch: the monitor is in its first poll and the registrars have been started.\<close>

definition launched ::
  "'c life list \<Rightarrow> ('s, 'k, 'p) sys \<Rightarrow> ('s, 'k, 'p, 'c) Proc" where
  "launched lives st =
     \<lparr>pr_phase = Serving, pr_inflight = 0, pr_drained = False, pr_expired = False, pr_monitor = Polling,
      pr_mon_cancelled = False, pr_lives = map start_background lives, pr_sys = st\<rparr>"

section \<open>The steps\<close>

text \<open>The goroutine of a registrar, without the calls of other goroutines.\<close>

inductive background_step :: "'c SpmEnv \<Rightarrow> 'c life \<Rightarrow> 'c life \<Rightarrow> bool" for E where
  attempt: "background_step E (Attempting backoff, st) (attempt_step E backoff st)"
| timer:
    "background_step E (Waiting backoff, r, w) (Attempting (next_backoff (rg_max_backoff r) backoff), r, w)"
| ctx_done: "rg_cancelled r \<Longrightarrow> background_step E (Waiting backoff, r, w) (Exited, r, w)"

definition set_life :: "nat \<Rightarrow> 'c life \<Rightarrow> ('s, 'k, 'p, 'c) Proc \<Rightarrow> ('s, 'k, 'p, 'c) Proc" where
  "set_life i l p = p\<lparr>pr_lives := (pr_lives p)[i := l]\<rparr>"

text \<open>
  The goroutines beside the main one. A request arrives as long as the HTTP server has not been
  drained; one that reaches no operation leaves the world alone. When the context of the monitor is
  done and its ticker fires as well, either case of its \<open>select\<close> may be taken.
\<close>

inductive other_step ::
  "('s \<Rightarrow> string \<Rightarrow> ResourceEntry option) \<Rightarrow> ('s, 'k, 'p) Server \<Rightarrow> MonitorConfig \<Rightarrow> 'c SpmEnv \<Rightarrow>
   ('s, 'k, 'p, 'c) Proc \<Rightarrow> ('s, 'k, 'p, 'c) Proc \<Rightarrow> bool"
  for view V cf E where
  arrive: "\<not> pr_drained p \<Longrightarrow> other_step view V cf E p (p\<lparr>pr_inflight := Suc (pr_inflight p)\<rparr>)"
| refuse: "pr_inflight p = Suc n \<Longrightarrow> other_step view V cf E p (p\<lparr>pr_inflight := n\<rparr>)"
| answer:
    "pr_inflight p = Suc n \<Longrightarrow> api_step view V (pr_sys p) st \<Longrightarrow>
     other_step view V cf E p (p\<lparr>pr_inflight := n, pr_sys := st\<rparr>)"
| poll:
    "pr_monitor p = Polling \<Longrightarrow> poll V cf cx (pr_sys p) = st \<Longrightarrow>
     other_step view V cf E p (p\<lparr>pr_monitor := Ticking, pr_sys := st\<rparr>)"
| tick: "pr_monitor p = Ticking \<Longrightarrow> other_step view V cf E p (p\<lparr>pr_monitor := Polling\<rparr>)"
| monitor_done:
    "pr_monitor p = Ticking \<Longrightarrow> pr_mon_cancelled p \<Longrightarrow> other_step view V cf E p (p\<lparr>pr_monitor := Over\<rparr>)"
| background:
    "i < length (pr_lives p) \<Longrightarrow> background_step E (pr_lives p ! i) l \<Longrightarrow>
     other_step view V cf E p (set_life i l p)"

text \<open>The main goroutine: the statements of \<open>shutdown\<close> in their order.\<close>

inductive main_step ::
  "('s, 'k, 'p) Server \<Rightarrow> 'c SpmEnv \<Rightarrow> ('s \<Rightarrow> store_error option \<times> 's) \<Rightarrow>
   ('s, 'k, 'p, 'c) Proc \<Rightarrow> ('s, 'k, 'p, 'c) Proc \<Rightarrow> bool"
  for V E close_store where
  signal: "pr_phase p = Serving \<Longrightarrow> main_step V E close_store p (p\<lparr>pr_phase := Draining\<rparr>)"
| expire:
    "pr_phase p \<in> {Draining, Joining} \<Longrightarrow> main_step V E close_store p (p\<lparr>pr_expired := True\<rparr>)"
| drained:
    "pr_phase p = Draining \<Longrightarrow> pr_inflight p = 0 \<Longrightarrow>
     main_step V E close_store p (p\<lparr>pr_phase := Joining, pr_drained := True, pr_mon_cancelled := True\<rparr>)"
| drain_timeout:
    "pr_phase p = Draining \<Longrightarrow> pr_expired p \<Longrightarrow>
     main_step V E close_store p (p\<lparr>pr_phase := Joining, pr_mon_cancelled := True\<rparr>)"
| joined:
    "pr_phase p = Joining \<Longrightarrow> pr_monitor p = Over \<Longrightarrow>
     main_step V E close_store p (p\<lparr>pr_phase := Stopping 0\<rparr>)"
| join_timeout:
    "pr_phase p = Joining \<Longrightarrow> pr_expired p \<Longrightarrow> main_step V E close_store p (p\<lparr>pr_phase := Stopping 0\<rparr>)"
| stop:
    "pr_phase p = Stopping i \<Longrightarrow> i < length (pr_lives p) \<Longrightarrow>
     main_step V E close_store p ((set_life i (stop_request (pr_lives p ! i)) p)\<lparr>pr_phase := Awaiting i\<rparr>)"
| stopped:
    "pr_phase p = Awaiting i \<Longrightarrow> stop_returns (pr_lives p ! i) \<Longrightarrow>
     main_step V E close_store p (p\<lparr>pr_phase := Stopping (Suc i)\<rparr>)"
| all_stopped:
    "pr_phase p = Stopping (length (pr_lives p)) \<Longrightarrow>
     main_step V E close_store p (p\<lparr>pr_phase := Leaving 0\<rparr>)"
| leave:
    "pr_phase p = Leaving i \<Longrightarrow> i < length (pr_lives p) \<Longrightarrow>
     main_step V E close_store p
       ((set_life i (reg_deregister E (pr_lives p ! i)) p)\<lparr>pr_phase := Leaving (Suc i)\<rparr>)"
| all_left:
    "pr_phase p = Leaving (length (pr_lives p)) \<Longrightarrow>
     main_step V E close_store p (p\<lparr>pr_phase := ClosingPublisher\<rparr>)"
| close_publisher:
    "pr_phase p = ClosingPublisher \<Longrightarrow> pr_sys p = (w, m) \<Longrightarrow>
     main_step V E close_store p
       (p\<lparr>pr_phase := ClosingStore, pr_sys := (w\<lparr>w_pub := pub_close (sv_publisher V) (w_pub w)\<rparr>, m)\<rparr>)"
| close_store:
    "pr_phase p = ClosingStore \<Longrightarrow> pr_sys p = (w, m) \<Longrightarrow>
     main_step V E close_store p
       (p\<lparr>pr_phase := Closed, pr_sys := (w\<lparr>w_store := snd (close_store (w_store w))\<rparr>, m)\<rparr>)"

text \<open>A registrar that panics takes the process down, so nothing runs after that.\<close>

definition crashed :: "('s, 'k, 'p, 'c) Proc \<Rightarrow> bool" where
  "crashed p \<longleftrightarrow> Dead \<in> fst ` set (pr_lives p)"

definition proc_step ::
  "('s \<Rightarrow> string \<Rightarrow> ResourceEntry option) \<Rightarrow> ('s, 'k, 'p) Server \<Rightarrow> MonitorConfig \<Rightarrow> 'c SpmEnv \<Rightarrow>
   ('s \<Rightarrow> store_error option \<times> 's) \<Rightarrow> ('s, 'k, 'p, 'c) Proc \<Rightarrow> ('s, 'k, 'p, 'c) Proc \<Rightarrow> bool" where
  "proc_step view V cf E close_store p p' \<longleftrightarrow>
     \<not> crashed p \<and> (other_step view V cf E p p' \<or> main_step V E close_store p p')"

inductive_cases exited_backgroundE: "background_step E (Exited, st) l"

lemma background_is_life: "background_step E l l' \<Longrightarrow> life_step E l l'"
  by (induction rule: background_step.induct) (auto intro: life_step.intros)

end
