(* ===== verification/Process_Props.thy ===== *)
theory Process_Props
  imports Process System_Props
begin

text \<open>
  What the shutdown guarantees over every interleaving: the invariant of the process, the store that
  is closed only when nothing uses it any more, and the completion of the shutdown.
\<close>

section \<open>The invariant\<close>

text \<open>How many registrars are known to be over.\<close>

fun stopped_below :: "phase \<Rightarrow> nat \<Rightarrow> nat" where
  "stopped_below (Stopping i) n = i"
| "stopped_below (Awaiting i) n = i"
| "stopped_below Serving n = 0"
| "stopped_below Draining n = 0"
| "stopped_below Joining n = 0"
| "stopped_below _ n = n"

definition past_drain :: "phase \<Rightarrow> bool" where
  "past_drain ph \<longleftrightarrow> ph \<notin> {Serving, Draining}"

definition past_join :: "phase \<Rightarrow> bool" where
  "past_join ph \<longleftrightarrow> ph \<notin> {Serving, Draining, Joining}"

fun past_stop :: "phase \<Rightarrow> bool" where
  "past_stop (Leaving i) = True"
| "past_stop ClosingPublisher = True"
| "past_stop ClosingStore = True"
| "past_stop Closed = True"
| "past_stop _ = False"

definition threads_ok :: "('s, 'k, 'p, 'c) Proc \<Rightarrow> bool" where
  "threads_ok p \<longleftrightarrow>
     (pr_drained p \<longrightarrow> pr_inflight p = 0) \<and>
     (past_drain (pr_phase p) \<longrightarrow> pr_mon_cancelled p \<and> (pr_drained p \<or> pr_expired p)) \<and>
     (past_join (pr_phase p) \<longrightarrow> pr_monitor p = Over \<or> pr_expired p)"

definition lives_ok :: "phase \<Rightarrow> 'c life list \<Rightarrow> bool" where
  "lives_ok ph ls \<longleftrightarrow>
     (\<forall>j < length ls. fst (ls ! j) \<noteq> NotStarted \<and> rg_started (fst (snd (ls ! j)))) \<and>
     stopped_below ph (length ls) \<le> length ls \<and>
     (\<forall>j < stopped_below ph (length ls). fst (ls ! j) = Exited) \<and>
     (\<forall>i. ph = Awaiting i \<longrightarrow> i < length ls \<and> rg_cancelled (fst (snd (ls ! i)))) \<and>
     (\<forall>i. ph = Leaving i \<longrightarrow> i \<le> length ls)"

lemma attempt_step_config:
  "rg_started (fst (snd (attempt_step E b st))) = rg_started (fst st)"
  "rg_cancelled (fst (snd (attempt_step E b st))) = rg_cancelled (fst st)"
  "fst (attempt_step E b st) \<noteq> NotStarted"
  using register_config [of E st] by (auto simp: attempt_step_def split: prod.split attempt.split)

lemma background_config:
  "background_step E l l' \<Longrightarrow>
   fst l \<noteq> Exited \<and> fst l' \<noteq> NotStarted \<and> rg_started (fst (snd l')) = rg_started (fst (snd l)) \<and>
   rg_cancelled (fst (snd l')) = rg_cancelled (fst (snd l))"
  by (induction rule: background_step.induct) (simp_all add: attempt_step_config)

lemma stop_request_config [simp]:
  "fst (stop_request l) = fst l" "rg_started (fst (snd (stop_request l))) = rg_started (fst (snd l))"
  "rg_cancelled (fst (snd (stop_request l))) \<longleftrightarrow> rg_started (fst (snd l)) \<or> rg_cancelled (fst (snd l))"
  by (auto simp: stop_request_def split: prod.split)

lemma reg_deregister_config [simp]:
  "fst (reg_deregister E l) = fst l" "fst (snd (reg_deregister E l)) = fst (snd l)"
  by (auto simp: reg_deregister_def deregister_def split: prod.split sum.split)

lemma threads_ok_other: "other_step view V cf E p p' \<Longrightarrow> threads_ok p \<Longrightarrow> threads_ok p'"
  by (induction rule: other_step.induct) (auto simp: threads_ok_def set_life_def)

lemma threads_ok_main: "main_step V E close_store p p' \<Longrightarrow> threads_ok p \<Longrightarrow> threads_ok p'"
  by (induction rule: main_step.induct) (auto simp: threads_ok_def past_drain_def past_join_def set_life_def)

lemma lives_ok_update:
  assumes "lives_ok ph ls" "i < length ls"
    and "fst l \<noteq> NotStarted" "rg_started (fst (snd l))" "fst (ls ! i) = Exited \<Longrightarrow> fst l = Exited"
    and "rg_cancelled (fst (snd (ls ! i))) \<Longrightarrow> rg_cancelled (fst (snd l))"
  shows "lives_ok ph (ls[i := l])"
proof -
  have "fst (ls[i := l] ! j) \<noteq> NotStarted \<and> rg_started (fst (snd (ls[i := l] ! j)))" if "j < length ls" for j
    using assms that by (cases "j = i") (simp_all add: lives_ok_def)
  moreover have "fst (ls[i := l] ! j) = Exited" if "j < stopped_below ph (length ls)" for j
    using assms that by (cases "j = i") (simp_all add: lives_ok_def)
  moreover have "rg_cancelled (fst (snd (ls[i := l] ! j)))" if "ph = Awaiting j" for j
    using assms that by (cases "j = i") (simp_all add: lives_ok_def)
  ultimately show ?thesis using assms(1) by (simp add: lives_ok_def)
qed

lemma set_life_simps [simp]:
  "pr_lives (set_life i l p) = (pr_lives p)[i := l]" "pr_phase (set_life i l p) = pr_phase p"
  "pr_sys (set_life i l p) = pr_sys p" "pr_expired (set_life i l p) = pr_expired p"
  "pr_drained (set_life i l p) = pr_drained p" "pr_inflight (set_life i l p) = pr_inflight p"
  "pr_monitor (set_life i l p) = pr_monitor p"
  by (simp_all add: set_life_def)

lemma lives_ok_other:
  "other_step view V cf E p p' \<Longrightarrow> lives_ok (pr_phase p) (pr_lives p) \<Longrightarrow> lives_ok (pr_phase p') (pr_lives p')"
proof (induction rule: other_step.induct)
  case (background i p l)
  note b = background_config [OF background(2)]
  from background b show ?case
    by (simp, intro lives_ok_update) (simp_all add: lives_ok_def)
qed simp_all

lemma lives_ok_main:
  "main_step V E close_store p p' \<Longrightarrow> lives_ok (pr_phase p) (pr_lives p) \<Longrightarrow> lives_ok (pr_phase p') (pr_lives p')"
proof (induction rule: main_step.induct)
  case (stop p i)
  then have "lives_ok (Stopping i) ((pr_lives p)[i := stop_request (pr_lives p ! i)])"
    by (intro lives_ok_update) (simp_all add: lives_ok_def)
  moreover have "rg_started (fst (snd (pr_lives p ! i)))" using stop by (simp add: lives_ok_def)
  ultimately show ?case using stop(2) by (simp add: lives_ok_def)
next
  case (stopped p i)
  then show ?case by (auto simp: lives_ok_def stop_returns_def less_Suc_eq)
next
  case (leave p i)
  then have "lives_ok (Leaving i) ((pr_lives p)[i := reg_deregister E (pr_lives p ! i)])"
    by (intro lives_ok_update) (simp_all add: lives_ok_def)
  with leave(2) show ?case by (simp add: lives_ok_def)
qed (simp_all add: lives_ok_def)

text \<open>
  The world: before the store is closed it satisfies the invariant of the operations, and when nothing
  timed out, what was closed is the store in such a world.
\<close>

definition world_ok ::
  "(('s, 'k, 'p) sys \<Rightarrow> bool) \<Rightarrow> ('s \<Rightarrow> store_error option \<times> 's) \<Rightarrow> ('s, 'k, 'p, 'c) Proc \<Rightarrow> bool" where
  "world_ok ok close_store p \<longleftrightarrow>
     (pr_phase p \<noteq> Closed \<longrightarrow> ok (pr_sys p)) \<and>
     (pr_phase p = Closed \<longrightarrow> pr_expired p \<or>
        (\<exists>w m. ok (w, m) \<and> pr_sys p = (w\<lparr>w_store := snd (close_store (w_store w))\<rparr>, m)))"

lemma idle_when_closed:
  assumes "threads_ok p" "lives_ok (pr_phase p) (pr_lives p)" "pr_phase p = Closed" "\<not> pr_expired p"
  shows "pr_drained p \<and> pr_inflight p = 0 \<and> pr_monitor p = Over \<and> (\<forall>l \<in> set (pr_lives p). fst l = Exited)"
  using assms by (fastforce simp: threads_ok_def lives_ok_def past_drain_def past_join_def in_set_conv_nth)

lemma closed_is_final:
  assumes "threads_ok p" "lives_ok (pr_phase p) (pr_lives p)" "pr_phase p = Closed" "\<not> pr_expired p"
  shows "\<not> proc_step view V cf E close_store p p'"
proof -
  note i = idle_when_closed [OF assms]
  have "\<not> other_step view V cf E p p'"
  proof
    assume "other_step view V cf E p p'"
    then show False using i
    proof (induction rule: other_step.induct)
      case (background i p l)
      then have "fst (pr_lives p ! i) = Exited" by simp
      with background_config [OF background(2)] show False by simp
    qed simp_all
  qed
  moreover have "\<not> main_step V E close_store p p'"
    using assms(3) by (auto elim: main_step.cases)
  ultimately show ?thesis by (simp add: proc_step_def)
qed

definition proc_ok ::
  "(('s, 'k, 'p) sys \<Rightarrow> bool) \<Rightarrow> ('s \<Rightarrow> store_error option \<times> 's) \<Rightarrow> ('s, 'k, 'p, 'c) Proc \<Rightarrow> bool" where
  "proc_ok ok close_store p \<longleftrightarrow>
     threads_ok p \<and> lives_ok (pr_phase p) (pr_lives p) \<and> world_ok ok close_store p"

lemma other_step_frame:
  "other_step view V cf E p p' \<Longrightarrow> pr_phase p' = pr_phase p \<and> pr_expired p' = pr_expired p"
  by (induction rule: other_step.induct) simp_all

lemma start_background_ok:
  assumes "\<not> rg_started (fst (snd l))"
  shows "fst (start_background l) \<noteq> NotStarted" "rg_started (fst (snd (start_background l)))"
  using assms by (auto simp: start_background_def split: prod.split)

lemma launched_ok:
  assumes "\<forall>l \<in> set lives. \<not> rg_started (fst (snd l))" "ok st"
  shows "proc_ok ok close_store (launched lives st)"
  using assms
  by (simp add: start_background_ok all_set_conv_all_nth proc_ok_def launched_def threads_ok_def past_drain_def past_join_def lives_ok_def world_ok_def)

context live_store
begin

lemma other_step_world:
  assumes "other_step view V cf E p p'" "sv_store V = S" "sys_ok view inv ready (pr_sys p)"
  shows "sys_ok view inv ready (pr_sys p')"
  using assms
proof (induction rule: other_step.induct)
  case (answer p n st)
  then show ?case using api_step_ok by simp
next
  case (poll p cx st)
  then show ?case using poll_step [of "fst (pr_sys p)" "snd (pr_sys p)" V cf cx "fst st" "snd st"] by simp
qed simp_all

lemma main_step_world:
  assumes "main_step V E close_store p p'" "world_ok (sys_ok view inv ready) close_store p"
  shows "world_ok (sys_ok view inv ready) close_store p'"
  using assms
proof (induction rule: main_step.induct)
  case (close_publisher p w m)
  then show ?case by (simp add: world_ok_def sys_ok_def)
next
  case (close_store p w m)
  then show ?case by (auto simp: world_ok_def)
qed (simp_all add: world_ok_def)

lemma proc_step_ok:
  assumes "proc_step view V cf E close_store p p'" "sv_store V = S"
    and "proc_ok (sys_ok view inv ready) close_store p"
  shows "proc_ok (sys_ok view inv ready) close_store p'"
proof -
  have ok: "threads_ok p" "lives_ok (pr_phase p) (pr_lives p)" "world_ok (sys_ok view inv ready) close_store p"
    using assms(3) by (simp_all add: proc_ok_def)
  consider (other) "other_step view V cf E p p'" | (main) "main_step V E close_store p p'"
    using assms(1) by (auto simp: proc_step_def)
  then show ?thesis
  proof cases
    case other
    note f = other_step_frame [OF other]
    have "world_ok (sys_ok view inv ready) close_store p'"
    proof (cases "pr_phase p = Closed")
      case True
      then have "pr_expired p" using closed_is_final [OF ok(1,2) True] assms(1) by blast
      with True f show ?thesis by (simp add: world_ok_def)
    next
      case False
      then show ?thesis using other_step_world [OF other assms(2)] ok(3) f by (simp add: world_ok_def)
    qed
    then show ?thesis
      using threads_ok_other [OF other ok(1)] lives_ok_other [OF other ok(2)] by (simp add: proc_ok_def)
  next
    case main
    then show ?thesis
      using threads_ok_main [OF main ok(1)] lives_ok_main [OF main ok(2)] main_step_world [OF main ok(3)]
      by (simp add: proc_ok_def)
  qed
qed

lemma proc_steps_ok:
  assumes "(proc_step view V cf E close_store)\<^sup>*\<^sup>* p p'" "sv_store V = S"
    and "proc_ok (sys_ok view inv ready) close_store p"
  shows "proc_ok (sys_ok view inv ready) close_store p'"
  using assms by (induction rule: rtranclp_induct) (simp_all add: proc_step_ok)

end

lemma past_stop_all: "past_stop ph \<Longrightarrow> stopped_below ph n = n"
  by (cases ph) simp_all

section \<open>Progress\<close>

text \<open>
  How many steps the main goroutine needs at most from a state, if the deadline passes at once and the
  goroutine that it waits for is the one that runs.
\<close>

fun thread_rank :: "thread \<Rightarrow> nat" where
  "thread_rank (Attempting b) = 2"
| "thread_rank (Waiting b) = 1"
| "thread_rank _ = 0"

definition rank :: "('s, 'k, 'p, 'c) Proc \<Rightarrow> nat" where
  "rank p =
     (let n = length (pr_lives p); e = (if pr_expired p then 0 else 1) in
      case pr_phase p of
        Serving \<Rightarrow> 6 * n + 8
      | Draining \<Rightarrow> 6 * n + 6 + e
      | Joining \<Rightarrow> 6 * n + 5 + e
      | Stopping i \<Rightarrow> 5 * (n - i) + n + 4
      | Awaiting i \<Rightarrow> 5 * (n - i) + n + 1 + thread_rank (fst (pr_lives p ! i))
      | Leaving i \<Rightarrow> n - i + 3
      | ClosingPublisher \<Rightarrow> 2
      | ClosingStore \<Rightarrow> 1
      | Closed \<Rightarrow> 0)"

definition no_panic :: "'c SpmEnv \<Rightarrow> bool" where
  "no_panic E \<longleftrightarrow> (\<forall>st. fst (register E st) \<noteq> AttemptPanic)"

lemma thread_rank_bound: "thread_rank th \<le> 2"
  by (cases th) simp_all

lemma attempt_rank:
  assumes "no_panic E"
  shows "fst (attempt_step E b st) = Exited \<or> (\<exists>b'. fst (attempt_step E b st) = Waiting b')"
proof -
  obtain a st' where "register E st = (a, st')" by (metis surj_pair)
  moreover from this have "a \<noteq> AttemptPanic" using assms unfolding no_panic_def by (metis fst_conv)
  ultimately show ?thesis by (cases a) (simp_all add: attempt_step_def)
qed

lemma background_alive:
  assumes "background_step E l l'" "no_panic E"
  shows "fst l' \<noteq> Dead"
  using assms(1)
proof (induction rule: background_step.induct)
  case (attempt b st)
  show ?case using attempt_rank [OF assms(2), of b st] by auto
qed simp_all

lemma crashed_set_life: "\<not> crashed p \<Longrightarrow> fst l \<noteq> Dead \<Longrightarrow> \<not> crashed (set_life i l p)"
  using set_update_subset_insert [of "pr_lives p" i l] by (auto simp: crashed_def)

lemma crashed_cong: "pr_lives p' = pr_lives p \<Longrightarrow> crashed p' = crashed p"
  by (simp add: crashed_def)

lemma alive_nth: "\<not> crashed p \<Longrightarrow> i < length (pr_lives p) \<Longrightarrow> fst (pr_lives p ! i) \<noteq> Dead"
  unfolding crashed_def by (metis image_eqI nth_mem)

lemma alive_other: "other_step view V cf E p p' \<Longrightarrow> no_panic E \<Longrightarrow> \<not> crashed p \<Longrightarrow> \<not> crashed p'"
proof (induction rule: other_step.induct)
  case (background i p l)
  then show ?case by (intro crashed_set_life background_alive)
qed (simp_all add: crashed_def)

lemma alive_main: "main_step V E close_store p p' \<Longrightarrow> \<not> crashed p \<Longrightarrow> \<not> crashed p'"
proof (induction rule: main_step.induct)
  case (stop p i)
  then have "\<not> crashed (set_life i (stop_request (pr_lives p ! i)) p)"
    by (intro crashed_set_life) (simp_all add: alive_nth)
  then show ?case by (simp add: crashed_def)
next
  case (leave p i)
  then have "\<not> crashed (set_life i (reg_deregister E (pr_lives p ! i)) p)"
    by (intro crashed_set_life) (simp_all add: alive_nth)
  then show ?case by (simp add: crashed_def)
qed (simp_all add: crashed_def)

lemma lives_length:
  "other_step view V cf E p p' \<Longrightarrow> length (pr_lives p') = length (pr_lives p)"
  "main_step V E close_store p p' \<Longrightarrow> length (pr_lives p') = length (pr_lives p)"
  by (auto elim!: other_step.cases main_step.cases)

lemma alive_steps:
  assumes "(proc_step view V cf E close_store)\<^sup>*\<^sup>* p p'" "no_panic E" "\<not> crashed p"
  shows "\<not> crashed p'"
  using assms by (induction rule: rtranclp_induct) (auto simp: proc_step_def dest: alive_other alive_main)

text \<open>One step that comes nearer to the end, and that needs no deadline behind the join.\<close>

lemma progress:
  assumes "lives_ok (pr_phase p) (pr_lives p)" "no_panic E" "\<not> crashed p" "pr_phase p \<noteq> Closed"
  shows "\<exists>p'. proc_step view V cf E close_store p p' \<and> rank p' < rank p \<and>
    (past_join (pr_phase p) \<longrightarrow> past_join (pr_phase p') \<and> pr_expired p' = pr_expired p)"
proof -
  let ?n = "length (pr_lives p)"
  let ?goal = "\<lambda>p'. rank p' < rank p \<and>
    (past_join (pr_phase p) \<longrightarrow> past_join (pr_phase p') \<and> pr_expired p' = pr_expired p)"
  have main: ?thesis if "main_step V E close_store p p'" "?goal p'" for p'
    using that assms(3) by (auto simp: proc_step_def)
  have other: ?thesis if "other_step view V cf E p p'" "?goal p'" for p'
    using that assms(3) by (auto simp: proc_step_def)
  note simps = rank_def past_join_def Let_def
  obtain w m where sys: "pr_sys p = (w, m)" by (metis surj_pair)
  show ?thesis
  proof (cases "pr_phase p")
    case Serving
    from main [OF main_step.signal [OF this]] Serving show ?thesis by (simp add: simps)
  next
    case Draining
    show ?thesis
    proof (cases "pr_expired p")
      case True
      from main [OF main_step.drain_timeout [OF Draining this]] Draining True show ?thesis by (simp add: simps)
    next
      case False
      from main [OF main_step.expire [of p]] Draining False show ?thesis by (simp add: simps)
    qed
  next
    case Joining
    show ?thesis
    proof (cases "pr_expired p")
      case True
      from main [OF main_step.join_timeout [OF Joining this]] Joining True show ?thesis by (simp add: simps)
    next
      case False
      from main [OF main_step.expire [of p]] Joining False show ?thesis by (simp add: simps)
    qed
  next
    case (Stopping i)
    then have i: "i \<le> ?n" using assms(1) by (simp add: lives_ok_def)
    show ?thesis
    proof (cases "i < ?n")
      case True
      from main [OF main_step.stop [OF Stopping True]] Stopping True thread_rank_bound [of "fst (pr_lives p ! i)"]
      show ?thesis by (simp add: simps)
    next
      case False
      with i Stopping have "pr_phase p = Stopping ?n" by simp
      from main [OF main_step.all_stopped [OF this]] this show ?thesis by (simp add: simps)
    qed
  next
    case (Awaiting i)
    then have i: "i < ?n" and c: "rg_cancelled (fst (snd (pr_lives p ! i)))"
      and s: "fst (pr_lives p ! i) \<noteq> NotStarted"
      using assms(1) by (simp_all add: lives_ok_def)
    obtain th r x where l: "pr_lives p ! i = (th, r, x)" by (metis prod_cases3)
    show ?thesis
    proof (cases th)
      case (Attempting b)
      have "background_step E (pr_lives p ! i) (attempt_step E b (r, x))"
        unfolding l Attempting by (rule background_step.attempt)
      moreover have "thread_rank (fst (attempt_step E b (r, x))) < 2"
        using attempt_rank [OF assms(2), of b "(r, x)"] by auto
      ultimately show ?thesis
        using Awaiting i l Attempting by (intro other [OF other_step.background [OF i]]) (simp_all add: simps)
    next
      case (Waiting b)
      have "background_step E (pr_lives p ! i) (Exited, r, x)"
        using c unfolding l Waiting by (intro background_step.ctx_done) simp
      from other [OF other_step.background [OF i this]] Awaiting i l Waiting show ?thesis by (simp add: simps)
    next
      case Exited
      then have "stop_returns (pr_lives p ! i)" by (simp add: stop_returns_def l)
      from main [OF main_step.stopped [OF Awaiting this]] Awaiting i l Exited show ?thesis by (simp add: simps)
    qed (use s l alive_nth [OF assms(3) i] in simp_all)
  next
    case (Leaving i)
    then have i: "i \<le> ?n" using assms(1) by (simp add: lives_ok_def)
    show ?thesis
    proof (cases "i < ?n")
      case True
      from main [OF main_step.leave [OF Leaving True]] Leaving True show ?thesis by (simp add: simps)
    next
      case False
      with i Leaving have "pr_phase p = Leaving ?n" by simp
      from main [OF main_step.all_left [OF this]] this show ?thesis by (simp add: simps)
    qed
  next
    case ClosingPublisher
    from main [OF main_step.close_publisher [OF this sys]] ClosingPublisher show ?thesis by (simp add: simps)
  next
    case ClosingStore
    from main [OF main_step.close_store [OF this sys]] ClosingStore show ?thesis by (simp add: simps)
  qed (use assms(4) in simp)
qed

lemma finishes:
  assumes "lives_ok (pr_phase p) (pr_lives p)" "no_panic E" "\<not> crashed p"
  shows "\<exists>k p'. k \<le> rank p \<and> (proc_step view V cf E close_store ^^ k) p p' \<and> pr_phase p' = Closed \<and>
    (past_join (pr_phase p) \<longrightarrow> pr_expired p' = pr_expired p)"
  using assms
proof (induction "rank p" arbitrary: p rule: less_induct)
  case less
  show ?case
  proof (cases "pr_phase p = Closed")
    case True
    then show ?thesis by (intro exI [of _ 0] exI [of _ p]) simp
  next
    case False
    from progress [OF less.prems False, of view V cf close_store] obtain q where q:
      "proc_step view V cf E close_store p q" "rank q < rank p"
      "past_join (pr_phase p) \<longrightarrow> past_join (pr_phase q) \<and> pr_expired q = pr_expired p" by blast
    have "lives_ok (pr_phase q) (pr_lives q)" "\<not> crashed q"
      using q(1) less.prems
      by (auto simp: proc_step_def dest: lives_ok_other lives_ok_main alive_other alive_main)
    from less.hyps [OF q(2) this(1) less.prems(2) this(2)] obtain k p' where k:
      "k \<le> rank q" "(proc_step view V cf E close_store ^^ k) q p'" "pr_phase p' = Closed"
      "past_join (pr_phase q) \<longrightarrow> pr_expired p' = pr_expired q" by blast
    have "(proc_step view V cf E close_store ^^ Suc k) p p'"
      using q(1) k(2) by (rule relpowp_Suc_I2)
    then show ?thesis using k q(2,3) by (intro exI [of _ "Suc k"] exI [of _ p']) auto
  qed
qed

lemma rank_bound: "rank p \<le> 6 * length (pr_lives p) + 8"
proof (cases "pr_phase p")
  case (Awaiting i)
  then show ?thesis using thread_rank_bound [of "fst (pr_lives p ! i)"] by (simp add: rank_def Let_def)
qed (simp_all add: rank_def Let_def)

section \<open>The properties\<close>

text \<open>
  C18: The process closes its store only after its users are gone. From the start, whatever requests,
  polls, registration attempts and the signal do and in whichever order: the store is open and well
  formed with an exact gauge until the last statement of the shutdown; the registrars are over before
  the first deregistration; and when the shutdown did not run into its deadline, then no request and
  no poll is left from the moment that the registrars are stopped, the store that is closed is one
  that satisfies the invariant, and nothing can happen after that. A shutdown that ran into its deadline gives no such
  guarantee.
\<close>

theorem shutdown_drains:
  assumes "live_bolt B" "sv_store V = store_ops B" "\<forall>l \<in> set lives. \<not> rg_started (fst (snd l))"
    and "sys_ok (store_view B) (live_inv B) (store_ready B) st"
    and "(proc_step (store_view B) V cf E (store_close B))\<^sup>*\<^sup>* (launched lives st) p"
  shows "(pr_phase p \<noteq> Closed \<longrightarrow> sys_ok (store_view B) (live_inv B) (store_ready B) (pr_sys p)) \<and>
    (past_stop (pr_phase p) \<longrightarrow> (\<forall>l \<in> set (pr_lives p). fst l = Exited)) \<and>
    (past_join (pr_phase p) \<and> \<not> pr_expired p \<longrightarrow> pr_inflight p = 0 \<and> pr_monitor p = Over) \<and>
    (pr_phase p = Closed \<and> \<not> pr_expired p \<longrightarrow>
      (\<exists>w m. sys_ok (store_view B) (live_inv B) (store_ready B) (w, m) \<and>
        pr_sys p = (w\<lparr>w_store := snd (store_close B (w_store w))\<rparr>, m)) \<and>
      (\<forall>p'. \<not> proc_step (store_view B) V cf E (store_close B) p p'))"
proof -
  have "proc_ok (sys_ok (store_view B) (live_inv B) (store_ready B)) (store_close B) p"
    by (rule live_store.proc_steps_ok [OF live_bolt.is_live_store [OF assms(1)] assms(5,2)
        launched_ok [where ok = "sys_ok (store_view B) (live_inv B) (store_ready B)", OF assms(3,4)]])
  then have ok: "threads_ok p" "lives_ok (pr_phase p) (pr_lives p)"
      "world_ok (sys_ok (store_view B) (live_inv B) (store_ready B)) (store_close B) p"
    by (simp_all add: proc_ok_def)
  have "\<forall>l \<in> set (pr_lives p). fst l = Exited" if "past_stop (pr_phase p)"
    using ok(2) past_stop_all [OF that] by (simp add: lives_ok_def all_set_conv_all_nth)
  moreover have "pr_inflight p = 0 \<and> pr_monitor p = Over" if "past_join (pr_phase p)" "\<not> pr_expired p"
    using ok(1) that by (auto simp: threads_ok_def past_drain_def past_join_def)
  ultimately show ?thesis
    using ok(3) closed_is_final [OF ok(1,2)] by (auto simp: world_ok_def)
qed

text \<open>A shutdown without requests in flight that the deadline does not catch.\<close>

lemma unhurried_run:
  fixes p :: "('s, 'k, 'p, 'c) Proc"
  assumes "p = launched lives st" "no_panic E" "\<forall>l \<in> set lives. \<not> rg_started (fst (snd l))"
  shows "\<exists>p'. (proc_step view V cf E close_store)\<^sup>*\<^sup>* p p' \<and> pr_phase p' = Closed \<and> \<not> pr_expired p'"
proof -
  let ?step = "proc_step view V cf E close_store :: ('s, 'k, 'p, 'c) Proc \<Rightarrow> _ \<Rightarrow> bool"
  obtain w m where st1: "poll V cf (\<lambda>_. None) st = (w, m)" by (metis surj_pair)
  let ?ls = "map start_background lives"
  let ?p = "\<lambda>ph d t c. \<lparr>pr_phase = ph, pr_inflight = 0, pr_drained = d, pr_expired = False, pr_monitor = t,
    pr_mon_cancelled = c, pr_lives = ?ls, pr_sys = (w, m)\<rparr> :: ('s, 'k, 'p, 'c) Proc"
  have alive: "Dead \<notin> fst ` set ?ls"
    using assms(3) by (auto simp: start_background_def split: prod.splits if_splits)
  have other: "?step\<^sup>*\<^sup>* q q'" if "other_step view V cf E q q'" "pr_lives q = ?ls" for q q'
    using that alive by (intro r_into_rtranclp) (simp add: proc_step_def crashed_def)
  have main: "?step\<^sup>*\<^sup>* q q'" if "main_step V E close_store q q'" "pr_lives q = ?ls" for q q'
    using that alive by (intro r_into_rtranclp) (simp add: proc_step_def crashed_def)
  have "?step\<^sup>*\<^sup>* p (?p Serving False Ticking False)"
    using other_step.poll [of p V cf "\<lambda>_. None" "(w, m)" view E] st1 assms(1)
    by (intro other) (simp_all add: launched_def)
  also have "?step\<^sup>*\<^sup>* \<dots> (?p Draining False Ticking False)"
    using main_step.signal [of "?p Serving False Ticking False" V E close_store] by (intro main) simp_all
  also (rtranclp_trans) have "?step\<^sup>*\<^sup>* \<dots> (?p Joining True Ticking True)"
    using main_step.drained [of "?p Draining False Ticking False" V E close_store] by (intro main) simp_all
  also (rtranclp_trans) have "?step\<^sup>*\<^sup>* \<dots> (?p Joining True Over True)"
    using other_step.monitor_done [of "?p Joining True Ticking True" view V cf E] by (intro other) simp_all
  also (rtranclp_trans) have "?step\<^sup>*\<^sup>* \<dots> (?p (Stopping 0) True Over True)"
    using main_step.joined [of "?p Joining True Over True" V E close_store] by (intro main) simp_all
  finally (rtranclp_trans) have 1: "?step\<^sup>*\<^sup>* p (?p (Stopping 0) True Over True)" .
  have "lives_ok (Stopping 0) ?ls"
    using assms(3) by (simp add: start_background_ok all_set_conv_all_nth lives_ok_def)
  then obtain k p' where "(?step ^^ k) (?p (Stopping 0) True Over True) p'" "pr_phase p' = Closed"
      "\<not> pr_expired p'"
    using finishes [OF _ assms(2), of "?p (Stopping 0) True Over True" view V cf close_store] alive
    by (auto simp: crashed_def past_join_def)
  with 1 show ?thesis by (meson relpowp_imp_rtranclp rtranclp_trans)
qed

text \<open>The demonstration: a server of which the store is empty, and one registrar.\<close>

lemma demo_no_panic: "no_panic demo_spm"
  unfolding no_panic_def
proof
  fix st :: "Registrar \<times> nat Spm"
  show "fst (register demo_spm st) \<noteq> AttemptPanic"
    by (cases st) (simp add: register_def demo_spm_def demo_reply_def accepted_def Let_def split: prod.split)
qed

lemma demo_sys_ok:
  "sys_ok (store_view kv_bolt) (live_inv kv_bolt) (store_ready kv_bolt)
     (init_gauges demo_server demo_world, new_monitor)"
proof -
  have "w_managed demo_world = (\<lambda>_. 0)" by (rule ext) simp
  then show ?thesis using kv_empty_live kv_empty_ready by (intro live_kv.init_gauges_ok) simp_all
qed

definition demo_lives :: "nat life list" where
  "demo_lives = [(NotStarted, demo_registrar, demo_spm_state 0)]"

lemma demo_lives_new: "\<forall>l \<in> set demo_lives. \<not> rg_started (fst (snd l))"
  by (simp add: demo_lives_def demo_registrar_def)

theorem shutdown_drains_witness:
  "\<exists>p w m. (proc_step (store_view kv_bolt) demo_server demo_cf demo_spm (store_close kv_bolt))\<^sup>*\<^sup>*
       (launched demo_lives (init_gauges demo_server demo_world, new_monitor)) p \<and>
     sys_ok (store_view kv_bolt) (live_inv kv_bolt) (store_ready kv_bolt) (w, m) \<and>
     pr_sys p = (w\<lparr>w_store := snd (store_close kv_bolt (w_store w))\<rparr>, m)"
proof -
  obtain p where p:
    "(proc_step (store_view kv_bolt) demo_server demo_cf demo_spm (store_close kv_bolt))\<^sup>*\<^sup>*
       (launched demo_lives (init_gauges demo_server demo_world, new_monitor)) p"
    "pr_phase p = Closed" "\<not> pr_expired p"
    using unhurried_run [OF refl demo_no_panic demo_lives_new] by blast
  from shutdown_drains [OF live_kv.live_bolt_axioms demo_store(1) demo_lives_new demo_sys_ok p(1)] p
  show ?thesis by blast
qed

text \<open>
  C19: The shutdown never hangs. As long as no registration attempt panics, from every state that the
  process can reach, whatever the requests, the monitor and the registrars are doing, the process
  comes to the end of the shutdown within six steps for each registrar and eight more, the signal and
  the deadline included; and once the HTTP server and the monitor have been waited for, it does so
  without any deadline.
\<close>

theorem shutdown_completes:
  assumes "no_panic E" "\<forall>l \<in> set lives. \<not> rg_started (fst (snd l))"
    and "(proc_step view V cf E close_store)\<^sup>*\<^sup>* (launched lives st) p"
  shows "\<exists>k p'. k \<le> 6 * length lives + 8 \<and> (proc_step view V cf E close_store ^^ k) p p' \<and>
    pr_phase p' = Closed \<and> (past_join (pr_phase p) \<longrightarrow> pr_expired p' = pr_expired p)"
proof -
  have "lives_ok (pr_phase p) (pr_lives p) \<and> length (pr_lives p) = length lives"
    using assms(3)
  proof (induction rule: rtranclp_induct)
    case base
    show ?case using assms(2)
      by (simp add: start_background_ok all_set_conv_all_nth lives_ok_def launched_def)
  next
    case (step p p')
    then show ?case
      by (auto simp: proc_step_def dest: lives_ok_other lives_ok_main lives_length)
  qed
  moreover have "\<not> crashed (launched lives st)"
    using assms(2) by (auto simp: crashed_def launched_def start_background_def split: prod.splits if_splits)
  then have "\<not> crashed p" by (rule alive_steps [OF assms(3,1)])
  ultimately show ?thesis
    using finishes [OF _ assms(1), of p view V cf close_store] rank_bound [of p] by (metis order_trans)
qed

theorem shutdown_completes_witness:
  "\<exists>k p'. k \<le> 14 \<and> (proc_step (store_view kv_bolt) demo_server demo_cf demo_spm (store_close kv_bolt) ^^ k)
     (launched demo_lives (init_gauges demo_server demo_world, new_monitor)) p' \<and> pr_phase p' = Closed"
proof -
  have "length demo_lives = 1" by (simp add: demo_lives_def)
  with shutdown_completes [OF demo_no_panic demo_lives_new rtranclp.rtrancl_refl,
      of "store_view kv_bolt" demo_server demo_cf "store_close kv_bolt"
        "(init_gauges demo_server demo_world, new_monitor)"]
  show ?thesis by auto
qed

end
