(* ===== verification/Process_Run.thy ===== *)
theory Process_Run
  imports Process_Props
begin

text \<open>
  The function \<open>shutdown\<close>, which \<open>Start\<close> is defined by, against the concurrent process: what it
  computes is a run of the process.
\<close>

section \<open>Stopping one registrar\<close>

lemma set_life_twice: "set_life i l' (set_life i l p) = set_life i l' p"
  by (simp add: set_life_def)

lemma set_life_phase: "set_life i l (p\<lparr>pr_phase := ph\<rparr>) = (set_life i l p)\<lparr>pr_phase := ph\<rparr>"
  by (simp add: set_life_def)

text \<open>The goroutine of a cancelled registrar runs to its end.\<close>

lemma finish_run:
  assumes "rg_cancelled (fst (snd l))" "finish E l = l'" "fst l' = Exited"
  shows "l' = l \<or> background_step E l l' \<or> (\<exists>l1. fst l1 \<noteq> Dead \<and> background_step E l l1 \<and> background_step E l1 l')"
proof -
  obtain th r w where l: "l = (th, r, w)" by (metis prod_cases3)
  show ?thesis
  proof (cases th)
    case (Attempting b)
    obtain th1 r1 w1 where a: "attempt_step E b (r, w) = (th1, r1, w1)" by (metis prod_cases3)
    have s: "background_step E l (th1, r1, w1)" unfolding l Attempting a [symmetric] by (rule background_step.attempt)
    have c: "rg_cancelled r1" using attempt_step_config(2) [of E b "(r, w)"] assms(1) l a by simp
    show ?thesis
    proof (cases th1)
      case (Waiting b1)
      then have "l' = (Exited, r1, w1)" using assms(2) l Attempting a by (simp add: finish_def)
      moreover have "background_step E (th1, r1, w1) (Exited, r1, w1)"
        unfolding Waiting using c by (rule background_step.ctx_done)
      ultimately show ?thesis using s Waiting by (intro disjI2) force
    qed (use assms(2,3) l Attempting a s in \<open>auto simp: finish_def\<close>)
  next
    case (Waiting b)
    have "background_step E l (Exited, r, w)"
      unfolding l Waiting using assms(1) l by (intro background_step.ctx_done) simp
    then show ?thesis using assms(2) l Waiting by (simp add: finish_def)
  qed (use assms(2) l in \<open>simp_all add: finish_def\<close>)
qed

lemma reg_stop_run:
  assumes "pr_phase p = Stopping i" "i < length (pr_lives p)" "\<not> crashed p"
    and "rg_started (fst (snd (pr_lives p ! i)))" "reg_stop E (pr_lives p ! i) = Some l'"
  shows "(proc_step view V cf E close_store)\<^sup>*\<^sup>* p ((set_life i l' p)\<lparr>pr_phase := Stopping (Suc i)\<rparr>) \<and>
    fst l' = Exited"
proof -
  let ?step = "proc_step view V cf E close_store"
  let ?l = "stop_request (pr_lives p ! i)"
  let ?at = "\<lambda>l. (set_life i l p)\<lparr>pr_phase := Awaiting i\<rparr>"
  have l': "finish E ?l = l'" "fst l' = Exited"
    using assms(5) by (auto simp: reg_stop_def Let_def stop_returns_def split: if_splits)
  have c: "rg_cancelled (fst (snd ?l))" using assms(4) by simp
  have alive: "\<not> crashed (?at l)" if "fst l \<noteq> Dead" for l
    using crashed_set_life [OF assms(3) that, of i] by (simp add: crashed_def)
  have "fst ?l \<noteq> Dead" using alive_nth [OF assms(3,2)] by simp
  have bg: "?step (?at l) (?at k)" if "background_step E l k" "fst l \<noteq> Dead" for l k
  proof -
    have "pr_lives (?at l) ! i = l" using assms(2) by simp
    then have "other_step view V cf E (?at l) (set_life i k (?at l))"
      using that(1) assms(2) by (intro other_step.background) simp_all
    then show ?thesis using alive [OF that(2)] by (simp add: proc_step_def set_life_phase set_life_twice)
  qed
  have "?step p (?at ?l)"
    using main_step.stop [OF assms(1,2), of V E close_store] assms(3) by (simp add: proc_step_def)
  also have "?step\<^sup>*\<^sup>* \<dots> (?at l')"
    using finish_run [OF c l'] bg \<open>fst ?l \<noteq> Dead\<close> by (metis (no_types, lifting) converse_rtranclp_into_rtranclp rtranclp.rtrancl_refl)
  also have "?step \<dots> ((set_life i l' p)\<lparr>pr_phase := Stopping (Suc i)\<rparr>)"
  proof -
    have "stop_returns (pr_lives (?at l') ! i)" using l'(2) assms(2) by (simp add: stop_returns_def)
    then have "main_step V E close_store (?at l') ((?at l')\<lparr>pr_phase := Stopping (Suc i)\<rparr>)"
      by (intro main_step.stopped) simp_all
    moreover have "\<not> crashed (?at l')" using l'(2) by (intro alive) simp
    ultimately show ?thesis by (simp add: proc_step_def)
  qed
  finally show ?thesis using l'(2) by simp
qed

section \<open>The loops\<close>

lemma proc_update_order:
  "p\<lparr>pr_lives := ls, pr_phase := ph\<rparr> = p\<lparr>pr_phase := ph, pr_lives := ls\<rparr>"
  "p\<lparr>pr_sys := st, pr_phase := ph\<rparr> = p\<lparr>pr_phase := ph, pr_sys := st\<rparr>"
  "p\<lparr>pr_sys := st, pr_lives := ls\<rparr> = p\<lparr>pr_lives := ls, pr_sys := st\<rparr>"
  by (cases p; simp)+

lemma those_Some: "those xs = Some ys \<longleftrightarrow> xs = map Some ys"
  by (induction xs arbitrary: ys) (auto split: option.splits)

lemma take_drop_update:
  assumes "k < length ls" "length ls' = length ls"
  shows "(take k ls' @ drop k ls)[k := ls' ! k] = take (Suc k) ls' @ drop (Suc k) ls"
  using assms by (simp add: list_update_append take_Suc_conv_app_nth Cons_nth_drop_Suc [symmetric])

lemma take_drop_nth:
  "k < length ls \<Longrightarrow> length ls' = length ls \<Longrightarrow> (take k ls' @ drop k ls) ! k = ls ! k"
  by (simp add: nth_append)

lemma reg_stop_alive: "reg_stop E l = Some l' \<Longrightarrow> fst l \<noteq> Dead \<and> fst l' = Exited"
  by (cases l) (auto simp: reg_stop_def finish_def stop_request_def stop_returns_def Let_def split: if_splits)

lemma alive_iff: "\<not> crashed p \<longleftrightarrow> (\<forall>l \<in> set (pr_lives p). fst l \<noteq> Dead)"
  unfolding crashed_def by (metis imageE imageI)

lemma take_drop_all:
  "\<forall>x \<in> set xs. P x \<Longrightarrow> \<forall>x \<in> set ys. P x \<Longrightarrow> \<forall>x \<in> set (take k xs @ drop k ys). P x"
  by (auto dest: in_set_takeD in_set_dropD)

lemma stop_all_run:
  assumes "pr_phase p = Stopping 0" "map (reg_stop E) (pr_lives p) = map Some ls'"
    and "\<forall>l \<in> set (pr_lives p). rg_started (fst (snd l))" "k \<le> length (pr_lives p)"
  shows "(proc_step view V cf E close_store)\<^sup>*\<^sup>* p
    (p\<lparr>pr_phase := Stopping k, pr_lives := take k ls' @ drop k (pr_lives p)\<rparr>)"
  using assms(4)
proof (induction k)
  case 0
  have "p\<lparr>pr_phase := Stopping 0, pr_lives := pr_lives p\<rparr> = p" using assms(1) by simp
  then show ?case by simp
next
  case (Suc k)
  let ?ls = "pr_lives p"
  let ?q = "\<lambda>k. p\<lparr>pr_phase := Stopping k, pr_lives := take k ls' @ drop k ?ls\<rparr>"
  have len: "length ls' = length ?ls" using assms(2) by (metis length_map)
  have k: "k < length ?ls" using Suc.prems by simp
  have each: "reg_stop E (?ls ! j) = Some (ls' ! j)" if "j < length ?ls" for j
    using arg_cong [OF assms(2), of "\<lambda>xs. xs ! j"] that len by simp
  have nth: "pr_lives (?q k) ! k = ?ls ! k" using take_drop_nth [OF k len] by simp
  have "\<forall>l \<in> set ls'. fst l \<noteq> Dead" "\<forall>l \<in> set ?ls. fst l \<noteq> Dead"
    unfolding all_set_conv_all_nth len using reg_stop_alive [OF each] by simp_all
  then have "\<forall>l \<in> set (pr_lives (?q k)). fst l \<noteq> Dead"
    using take_drop_all [of ls' "\<lambda>l. fst l \<noteq> Dead" ?ls k] by (simp del: set_append)
  then have "\<not> crashed (?q k)" unfolding alive_iff .
  then have "(proc_step view V cf E close_store)\<^sup>*\<^sup>* (?q k)
      ((set_life k (ls' ! k) (?q k))\<lparr>pr_phase := Stopping (Suc k)\<rparr>)"
    using nth each [OF k] k len assms(3) by (intro conjunct1 [OF reg_stop_run]) simp_all
  moreover have "(set_life k (ls' ! k) (?q k))\<lparr>pr_phase := Stopping (Suc k)\<rparr> = ?q (Suc k)"
    using take_drop_update [OF k len] by (simp add: set_life_def)
  ultimately show ?case using Suc by simp
qed

lemma leave_all_run:
  assumes "pr_phase p = Leaving 0" "\<not> crashed p" "k \<le> length (pr_lives p)"
  shows "(proc_step view V cf E close_store)\<^sup>*\<^sup>* p
    (p\<lparr>pr_phase := Leaving k, pr_lives := take k (map (reg_deregister E) (pr_lives p)) @ drop k (pr_lives p)\<rparr>)"
  using assms(3)
proof (induction k)
  case 0
  have "p\<lparr>pr_phase := Leaving 0, pr_lives := pr_lives p\<rparr> = p" using assms(1) by simp
  then show ?case by simp
next
  case (Suc k)
  let ?ls = "pr_lives p"
  let ?ls' = "map (reg_deregister E) ?ls"
  let ?q = "\<lambda>k. p\<lparr>pr_phase := Leaving k, pr_lives := take k ?ls' @ drop k ?ls\<rparr>"
  have k: "k < length ?ls" using Suc.prems by simp
  have "\<forall>l \<in> set ?ls'. fst l \<noteq> Dead" "\<forall>l \<in> set ?ls. fst l \<noteq> Dead"
    using assms(2) by (simp_all add: alive_iff)
  then have "\<forall>l \<in> set (pr_lives (?q k)). fst l \<noteq> Dead"
    using take_drop_all [of ?ls' "\<lambda>l. fst l \<noteq> Dead" ?ls k] by (simp del: set_append set_map)
  then have "\<not> crashed (?q k)" unfolding alive_iff .
  moreover have "pr_lives (?q k) ! k = ?ls ! k" using take_drop_nth [OF k, of ?ls'] by simp
  then have "main_step V E close_store (?q k)
      ((set_life k (?ls' ! k) (?q k))\<lparr>pr_phase := Leaving (Suc k)\<rparr>)"
    using main_step.leave [of "?q k" k V E close_store] k by simp
  moreover have "(set_life k (?ls' ! k) (?q k))\<lparr>pr_phase := Leaving (Suc k)\<rparr> = ?q (Suc k)"
    using take_drop_update [OF k, of ?ls'] by (simp add: set_life_def)
  ultimately have "proc_step view V cf E close_store (?q k) (?q (Suc k))" by (simp add: proc_step_def)
  then show ?case using Suc by simp
qed


text \<open>The demonstration: the registrar waits for its next attempt when the process is told to stop.\<close>

definition demo_stopping :: "(kvdb, int Client, conn NATSPublisher, nat) Proc" where
  "demo_stopping =
     (launched [] (demo_world, new_monitor))\<lparr>pr_phase := Stopping 0,
       pr_lives := [(Waiting second, demo_registrar\<lparr>rg_started := True\<rparr>, demo_spm_state 0)]\<rparr>"


end
