(* ===== verification/Races.thy ===== *)
theory Races
  imports System_Props
begin

text \<open>
  Interleavings inside an operation. The handlers and the monitor look something up and act on it
  later, without a lock over both: each theorem takes two operations in such an order.
\<close>

section \<open>Two creates with the same ID\<close>

text \<open>
  C37: Creating with a client's ID is idempotent only one request after the other. When two requests
  for the same new ID have both looked it up before either has stored its entry, and kweb accepts both,
  then both are answered with 201 and that ID; the second entry replaces the first, so that no entry
  names the first VM any more, although it runs; and the gauge counts one VM more than is stored.
\<close>

theorem create_race:
  assumes "live_bolt B" "sv_store V = store_ops B" "i \<noteq> ''''"
    and "sys_ok (store_view B) (live_inv B) (store_ready B) (w0, m)" "find_existing V (Some i) w0 = None"
    and "e1 = new_vm_entry V (Some i) spec1 w0" "entry_ok e1"
    and "create_new_vm V (Some i) spec1 w0 = (CreateVM201 vm1, w1)"
    and "e2 = new_vm_entry V (Some i) spec2 w1" "entry_ok e2"
    and "create_new_vm V (Some i) spec2 w1 = (CreateVM201 vm2, w2)"
    and "re_kcli_name e1 \<noteq> re_kcli_name e2"
    and "\<forall>j e. store_view B (w_store w0) j = Some e \<longrightarrow> re_kcli_name e \<noteq> re_kcli_name e1"
  shows "vm_id vm1 = Some i \<and> vm_id vm2 = Some i \<and>
    store_view B (w_store w2) = (store_view B (w_store w0))(i \<mapsto> e2) \<and>
    (\<forall>j e. store_view B (w_store w2) j = Some e \<longrightarrow> re_kcli_name e \<noteq> re_kcli_name e1) \<and>
    w_managed w2 ''vm'' = int (card (held ''vm'' (store_view B (w_store w2)))) + 1"
proof -
  note ls = live_bolt.is_live_store [OF assms(1)] and ss = live_bolt.is_live_state_store [OF assms(1)]
  have ok: "live_inv B (w_store w0)" "store_ready B (w_store w0)"
    "gauge_exact (w_managed w0) (store_view B (w_store w0))"
    using assms(4) by (simp_all add: sys_ok_def)
  note c1 = state_store.create_new_vm_cases [OF ss ok(1) assms(2) assms(7) [unfolded assms(6)] assms(8)]
  note c2 = state_store.create_new_vm_cases [OF ss c1(1) assms(2) assms(10) [unfolded assms(9)] assms(11)]
  have id: "re_id e1 = i" "re_id e2 = i" "re_type e2 = ''vm''"
    using assms(3) by (simp_all add: assms(6,9) new_vm_entry_def resolve_id_def given_def)
  have view: "store_view B (w_store w2) = (store_view B (w_store w0))(i \<mapsto> e2)"
    using c1(4) c2(4) id by (simp add: assms(6) [symmetric] assms(9) [symmetric])
  have "store_view B (w_store w0) i = None"
    using state_store.find_existing_view [OF ss ok(1,2) assms(2), of "Some i"] assms(3,5) by (simp add: given_def)
  from card_new [OF this live_store.held_finite [OF ls ok(1,2)], of "''vm''" e2]
  have "int (card (held ''vm'' (store_view B (w_store w2)))) = w_managed w0 ''vm'' + 1"
    using ok(3) id(3) by (simp add: view gauge_exact_def)
  moreover have "w_managed w2 ''vm'' = w_managed w0 ''vm'' + 2" using c1(4) c2(4) by simp
  moreover have "re_kcli_name e \<noteq> re_kcli_name e1" if "store_view B (w_store w2) j = Some e" for j e
    using that assms(12,13) by (auto simp: view split: if_splits)
  ultimately show ?thesis using view c1(4) c2(4) id by (simp add: assms(6) [symmetric] assms(9) [symmetric])
qed

text \<open>The demonstration: two clients use the same ID for VMs of different names.\<close>

definition demo_db_spec :: VMSpec where
  "demo_db_spec = demo_vm_spec\<lparr>vs_metadata := Some \<lparr>sm_labels = None, sm_name = ''db''\<rparr>\<rparr>"

lemma demo_sys_empty:
  "sys_ok (store_view kv_bolt) (live_inv kv_bolt) (store_ready kv_bolt) (demo_world, new_monitor)"
  using kv_empty_live kv_empty_ready by (simp add: sys_ok_def gauge_exact_def held_def)

lemma demo_unknown: "find_existing demo_server (Some ''vm-1'') demo_world = None"
  by code_simp

lemma demo_create_db:
  "fst (create_new_vm demo_server (Some ''vm-1'') demo_db_spec demo_world1) =
     CreateVM201 \<lparr>vm_id = Some ''vm-1'', vm_ip = None, vm_path = Some ''vms/vm-1'',
       vm_spec = demo_db_spec, vm_ssh_user = None, vm_status = Some ''PROVISIONING''\<rparr>"
  by code_simp

lemma demo_db_entry:
  "entry_ok (new_vm_entry demo_server (Some ''vm-1'') demo_db_spec demo_world1)"
  "re_kcli_name (new_vm_entry demo_server (Some ''vm-1'') demo_db_spec demo_world1) = ''dcm-db''"
  by code_simp+

theorem create_race_witness:
  "let w2 = snd (create_new_vm demo_server (Some ''vm-1'') demo_db_spec demo_world1) in
   w_managed w2 ''vm'' = int (card (held ''vm'' (store_view kv_bolt (w_store w2)))) + 1"
proof -
  obtain vm1 where c1: "create_new_vm demo_server (Some ''vm-1'') demo_vm_spec demo_world = (CreateVM201 vm1, demo_world1)"
    using demo_create unfolding demo_world1_def create_vm_unknown [OF demo_unknown] by (metis prod.collapse)
  obtain vm2 w2 where c2: "create_new_vm demo_server (Some ''vm-1'') demo_db_spec demo_world1 = (CreateVM201 vm2, w2)"
    using demo_create_db by (metis prod.collapse)
  have n: "re_kcli_name (new_vm_entry demo_server (Some ''vm-1'') demo_vm_spec demo_world) \<noteq>
      re_kcli_name (new_vm_entry demo_server (Some ''vm-1'') demo_db_spec demo_world1)"
    unfolding demo_db_entry demo_new_entry by (simp add: demo_entry_def)
  from create_race [OF live_kv.live_bolt_axioms demo_store(1) _ demo_sys_empty demo_unknown refl demo_entry_ok
      c1 refl demo_db_entry(1) c2 n]
  show ?thesis unfolding c2 by simp
qed

section \<open>A delete inside a poll\<close>

text \<open>
  C38: The poll lowers the gauge for an entry that is already gone. When a poll has read a stored VM
  that its listing of kweb does not have, and the VM is deleted through the API before the poll comes
  to it, then both remove the one entry and both lower the gauge: it counts one VM less than is stored.
\<close>

theorem delete_race:
  assumes "live_bolt B" "sv_store V = store_ops B"
    and "sys_ok (store_view B) (live_inv B) (store_ready B) (w0, m)"
    and "store_view B (w_store w0) i = Some e" "re_type e = ''vm''"
    and "kc_delete_vm (sv_kweb V) (re_kcli_name e) (w_kweb w0) = (None, k)"
    and "delete_vm V cx i w0 = (r, w1)"
    and "poll_vm_entry V cf cx' None e (w1, m) = (w2, m2)"
  shows "r = DeleteVM204 \<and> store_view B (w_store w2) = (store_view B (w_store w0))(i := None) \<and>
    w_managed w2 ''vm'' = int (card (held ''vm'' (store_view B (w_store w2)))) - 1"
proof -
  note ls = live_bolt.is_live_store [OF assms(1)]
  have ok: "live_inv B (w_store w0)" "store_ready B (w_store w0)" "typed e"
    "gauge_exact (w_managed w0) (store_view B (w_store w0))"
    using assms(3,4) by (simp_all add: sys_ok_def)
  from typed_not_deleting [OF ok(3)] have st: "re_status e \<noteq> ''DELETING''" "re_status e \<noteq> ''DELETED''" by auto
  note d = live_store.delete_vm_live [OF ls ok(1,2) assms(2,4) st assms(7,6)]
  have "re_id e = i"
    using state_store.view_id [OF live_bolt.is_live_state_store [OF assms(1)] ok(1) assms(4)] by simp
  moreover obtain s' where "ss_delete (store_ops B) i (w_store w1) = (None, s')"
      "store_view B s' = (store_view B (w_store w1))(i := None)"
    using live_store.delete_ready [OF ls, of "w_store w1" i] d by auto
  ultimately have "store_view B (w_store w2) = (store_view B (w_store w1))(i := None)"
    "w_managed w2 ''vm'' = w_managed w1 ''vm'' - 1"
    using assms(8) st by (auto simp: poll_vm_entry_def assms(2) case_prod_unfold effect_simps)
  moreover have "i \<in> held ''vm'' (store_view B (w_store w0))" using assms(4,5) by (auto simp: held_def)
  note card_removed [OF this live_store.held_finite [OF ls ok(1,2)], of "''vm''"]
  ultimately show ?thesis using d ok(4) by (simp add: gauge_exact_def)
qed

lemma demo_sys_one:
  "sys_ok (store_view kv_bolt) (live_inv kv_bolt) (store_ready kv_bolt) (demo_world1, new_monitor)"
proof -
  have "w_managed demo_world1 ''vm'' = 1" "w_managed demo_world1 ''cluster'' = 0" by code_simp+
  moreover have "held ''vm'' [''vm-1'' \<mapsto> demo_entry] = {''vm-1''}" "held ''cluster'' [''vm-1'' \<mapsto> demo_entry] = {}"
    by (auto simp: held_def demo_entry_def)
  moreover have "typed demo_entry" by (simp add: typed_def demo_entry_def vm_states_def)
  ultimately show ?thesis
    using demo_world1_store(2,3) by (simp add: sys_ok_def gauge_exact_def demo_world1_store(4))
qed

theorem delete_race_witness:
  "let w1 = snd (delete_vm demo_server demo_ctx ''vm-1'' demo_world1);
       w2 = fst (poll_vm_entry demo_server demo_cf demo_ctx None demo_entry (w1, new_monitor)) in
   w_managed w2 ''vm'' = int (card (held ''vm'' (store_view kv_bolt (w_store w2)))) - 1"
proof -
  obtain r w1 where d: "delete_vm demo_server demo_ctx ''vm-1'' demo_world1 = (r, w1)" by (metis surj_pair)
  obtain w2 m2 where p: "poll_vm_entry demo_server demo_cf demo_ctx None demo_entry (w1, new_monitor) = (w2, m2)"
    by (metis surj_pair)
  obtain k where k: "kc_delete_vm (sv_kweb demo_server) (re_kcli_name demo_entry) (w_kweb demo_world1) = (None, k)"
  proof -
    have "fst (kc_delete_vm (sv_kweb demo_server) (re_kcli_name demo_entry) (w_kweb demo_world1)) = None" by code_simp
    then show ?thesis by (metis that prod.collapse)
  qed
  have e: "store_view kv_bolt (w_store demo_world1) ''vm-1'' = Some demo_entry" "re_type demo_entry = ''vm''"
    by (simp_all add: demo_world1_store(4) demo_entry_def)
  from delete_race [OF live_kv.live_bolt_axioms demo_store(1) demo_sys_one e k d p]
  show ?thesis unfolding d by (simp add: p)
qed

end
