(* ===== verification/Spec2Isabelle.thy ===== *)
theory Spec2Isabelle
  imports Store_Props Vm_Props Cluster_Props Monitor_Props Router_Props Api_Codec System_Props Startup_Props
    Api_Client_Props Process_Run Races
begin

text \<open>
  A verification development for dcm-kcli-provider, the service provider that lets DCM manage virtual
  machines and Kubernetes clusters through kcli's web API (kweb).

  \<^bold>\<open>The program.\<close> DCM calls the REST API of the provider. A handler asks kweb to create or delete the
  resource and keeps a record of it, under DCM's ID and with the name it has in kcli, in a bbolt
  database. A monitor polls kweb, brings the records in line with what it reports, and publishes changes
  of status as CloudEvents on NATS, debounced. At startup the process opens the database, sets its gauges,
  probes its own endpoint and registers its two providers with the service provider manager (SPM) in the
  background; at the end it deregisters them. A client library for the API comes with it.

  \<^bold>\<open>Which theory models what.\<close>

  \<^item> GoBase, GoTime, Json, Url: what the source uses of Go's standard library (strings, strconv,
    time's RFC 3339 text, encoding/json with its printer, parser and field matching, net/url). GoBase is the
    prelude: types, 64-bit wrap-around, association lists for maps, \<open>and_then\<close> for a returned error.
  \<^item> StoreIface, Store, Live: internal/store/store.go. \<open>ResourceEntry\<close> is the struct; \<open>store_put\<close>,
    \<open>store_get\<close>, \<open>store_list\<close>, \<open>store_delete\<close>, \<open>store_update_status\<close> and the others are the methods over a
    transaction interface \<open>bolt\<close>; \<open>new_store\<close> and \<open>run_migrations\<close> open a database. StoreIface has the
    interface \<open>StateStore\<close> that the handlers see (impl.go).
  \<^item> Events: internal/events/publisher.go (\<open>np_publish_event\<close> and the CloudEvents documents).
  \<^item> Kweb: internal/kweb/client.go, one function per method, with the parsing of every reply, the
    response limit, the counter of requests and the health cache (\<open>client_check_health\<close>).
  \<^item> Api_Types, Api_Codec: the types of server.gen.go, their JSON, and their round trip.
  \<^item> Helpers: helpers.go and the pure functions of vm_handlers.go and cluster_handlers.go.
  \<^item> World: what a handler works on: the store, kweb, the publisher, the gauge, the kubeconfig cache, the
    clock and the UUIDs drawn. \<open>Server\<close> is \<open>StrictServerImpl\<close>.
  \<^item> Vm_Handlers, Cluster_Handlers: the handlers of the API, branch by branch, and the health checks.
  \<^item> Status, Monitor, Poll: internal/monitor: the mappings of statuses, \<open>publish_with_debounce\<close>,
    \<open>flush_pending\<close>, \<open>poll_vms\<close> (with \<open>reconcile_vms\<close>, what it does with a listing), \<open>poll_clusters\<close>,
    \<open>detect_vm_orphans\<close>, \<open>poll\<close> and the loop \<open>monitor_run\<close>.
  \<^item> Http: internal/handlers and the middleware of internal/metrics. Router: the routes, parameter binding,
    strict handlers and response writers of server.gen.go.
  \<^item> Registration: internal/registration/registrar.go. Config: internal/config/config.go.
  \<^item> Lifecycle, Startup, System: cmd/dcm-kcli-provider and api/v1alpha1/paths.go: \<open>new_server\<close>, the root
    handlers and the middleware chain, \<open>start\<close>, \<open>run\<close>, \<open>shutdown\<close>; and the step relation \<open>sys_step\<close> of the
    operations (\<open>api_step\<close>) and polls on one world.
  \<^item> Process: the process after its launch as concurrent goroutines. \<open>main_step\<close> is the goroutine that waits
    for the signal and shuts down, \<open>other_step\<close> the requests, the monitor and the registrars; \<open>proc_step\<close>
    interleaves them.
  \<^item> Api_Client, Wire: pkg/client/client.gen.go, and the connection between client and server.
  \<^item> Sample holds the concrete server that the witnesses run; the theories named Props hold the properties,
    Process_Run relates the function \<open>shutdown\<close> to the concurrent process, and Races has the interleavings
    inside an operation.

  \<^bold>\<open>Interfaces.\<close> Each is a locale with its laws, interpreted on the model's definitions:
  \<open>bolt_contract\<close> and \<open>live_bolt\<close> (a database, on the in-memory \<open>kv_bolt\<close>), \<open>state_store\<close> and \<open>live_store\<close>
  (what handlers and monitor need of a store, given by \<open>store_ops\<close>), \<open>kweb_client\<close> (given by \<open>kweb_ops\<close>),
  \<open>publisher\<close>, \<open>reliable_publisher\<close> and \<open>nats_contract\<close> (publishing events, given by \<open>nats_publisher\<close> and
  \<open>noop_publisher\<close>), and \<open>chi_contract\<close> (the router, on a linear search). Lemmas about handlers and polls are
  proved once against \<open>state_store\<close>.

  \<^bold>\<open>What is shown.\<close>

  \<^item> The store implements a partial map from IDs to entries, atomically; its listings are exact whatever
    the fast path skips, entries are read back as written, and the name index is exact while names are not
    shared.
  \<^item> Creating, deleting and reading VMs and clusters on every branch: idempotence, what is stored, the
    gauge, compensation of a create that cannot be stored, rollback of the status when kweb fails, paging.
  \<^item> kweb's failures are never taken for successes; hints cannot override request parameters.
  \<^item> A poll brings the store in line with kweb; debouncing publishes a change when its window is over,
    merges a burst and takes out each due event once.
  \<^item> Races, as theorems about two operations in the order that hurts: a DELETED event that is lost, a created VM
    that a poll removes, two creates with one ID, a delete inside a poll.
  \<^item> From startup through any sequence of operations and polls the gauge of each type counts the stored
    entries of the type, and every entry is in a state of its type.
  \<^item> Routing, the form of every reply, the JSON of every resource; and the client and the server together:
    what the client sees is what the handler answered.
  \<^item> Registration: what an attempt does on every reply, when the retry loop ends, its waits, that a provider
    registers at most once and never after Stop; that the loop is what the goroutine does.
  \<^item> Configuration, the endpoints that are registered, and the start.
  \<^item> The shutdown, over every interleaving of the goroutines: the store is closed only when no request, poll
    or registration is left unless the deadline passed, and the shutdown can always be completed.

  \<^bold>\<open>How the code is read.\<close> Strings are lists of bytes. A map is an association list, and Go's unspecified
  iteration order is the order of the list. Errors are the left of a sum or an option. An int is an \<open>int\<close>
  within 64 bits, with \<open>wrap64\<close> where the code can overflow. Times are nanoseconds. A call on the store, on
  kweb or on the publisher takes the state of that component and returns it changed, so every order of calls
  is the order in the code. Each operation of the API and each poll is one step of \<open>sys_step\<close>; work that the
  code splits over goroutines and then waits for (the fetches of a listing, the two polls) is done one after
  the other. The race inside a poll is stated on \<open>reconcile_vms\<close>, with a listing that is older than the store.
  In \<open>proc_step\<close> a request acts on the world when it ends, and the deadline of the shutdown may pass at any time.

  \<^bold>\<open>Fuel.\<close> The JSON parser has fuel twice the length of its input, which is enough (\<open>parse_fuel\<close>).
  \<open>run_loop\<close> has fuel for the attempts of a registration: \<open>run_terminates\<close> gives the number it needs, and None
  means that the loop has not ended by then. \<open>probe_loop\<close> counts the thirty probes of the code.

  \<^bold>\<open>Parameters.\<close> Code outside the repository is an argument: bbolt, the NATS connection, the transport to
  kweb with its rate limiter and clock, chi, oapi-codegen's binding and styling of parameters, the client of
  the SPM, kin-openapi's reading of the OpenAPI document, UUIDs, YAML, the texts of library errors and of
  floating-point numbers. What is relied on is a locale or a named predicate, and each has an instance.

  \<^bold>\<open>Not modelled.\<close> types.gen.go, whose declarations repeat those of server.gen.go and which the program does
  not use; spec.gen.go, the compressed OpenAPI document; the request validator, which is a parameter of
  \<open>api_chain\<close>; log lines; the duration histograms; interleavings inside an operation, other than
  the races that are stated.
\<close>

end
